(* ===== verification/Prelude.thy ===== *)
theory Prelude
  imports
    "HOL-Library.AList"
    "HOL-Library.Word"
    "HOL-Library.Char_ord"
    "HOL-Library.List_Lexorder"
    "HOL-Library.Code_Target_Nat"
begin

text \<open>
  Shared vocabulary of the development.

  A Go map \<open>map[string]T\<close> is an association list with one entry per key (a \<open>gmap\<close>): the list
  order stands for the iteration order of a \<open>range\<close> loop, which Go leaves unspecified, so a
  theorem about all lists is a theorem about every iteration order.  Lookup is \<open>map_of\<close>, an
  assignment \<open>m[k] = v\<close> is \<open>AList.update\<close>, a mutation through a pointer stored under a key is
  \<open>AList.map_entry\<close>, \<open>delete\<close> is \<open>AList.delete\<close>.

  An \<open>int64\<close> is an \<open>int\<close>; every Go \<open>+\<close>, \<open>-\<close>, \<open>*\<close> on it goes through \<open>wrap64\<close>, which reads the low
  64 bits as two's complement.  Strings are byte strings; the case mapping of
  \<open>strings.ToLower\<close> and \<open>strings.EqualFold\<close> and the white space of \<open>strings.TrimSpace\<close> are those of
  ASCII text.
\<close>

named_theorems gmap_simps \<open>association lists seen as Go maps\<close>
named_theorems frame_simps \<open>fields that an operation does not touch\<close>
named_theorems handler_defs \<open>definitions of the request handlers\<close>

section \<open>Go maps as association lists\<close>

type_synonym 'a gmap = "(string \<times> 'a) list"

definition gkeys :: "'a gmap \<Rightarrow> string set" where
  "gkeys m = fst ` set m"

definition gmap_ok :: "'a gmap \<Rightarrow> bool" where
  "gmap_ok m \<longleftrightarrow> distinct (map fst m)"

definition gall :: "(string \<Rightarrow> 'a \<Rightarrow> bool) \<Rightarrow> 'a gmap \<Rightarrow> bool" where
  "gall P m \<longleftrightarrow> list_all (\<lambda>(k, v). P k v) m"

definition gsum :: "('a \<Rightarrow> int) \<Rightarrow> 'a gmap \<Rightarrow> int" where
  "gsum f m = sum_list (map (\<lambda>(k, v). f v) m)"

text \<open>A read of a missing key gives the zero value of the element type.\<close>

definition gget :: "'a \<Rightarrow> 'a gmap \<Rightarrow> string \<Rightarrow> 'a" where
  "gget z m k = (case map_of m k of None \<Rightarrow> z | Some v \<Rightarrow> v)"

lemma gmap_ok_Nil [simp]: "gmap_ok []"
  by (simp add: gmap_ok_def)

lemma gmap_ok_Cons [simp]: "gmap_ok ((k, v) # m) \<longleftrightarrow> k \<notin> gkeys m \<and> gmap_ok m"
  by (simp add: gmap_ok_def gkeys_def)

lemma gkeys_Nil [simp]: "gkeys [] = {}"
  by (simp add: gkeys_def)

lemma gkeys_Cons [simp]: "gkeys (p # m) = insert (fst p) (gkeys m)"
  by (simp add: gkeys_def)

lemma gkeys_iff: "k \<in> gkeys m \<longleftrightarrow> (\<exists>v. map_of m k = Some v)"
  by (metis domIff dom_map_of_conv_image_fst gkeys_def not_None_eq)

lemma map_of_None_gkeys: "map_of m k = None \<longleftrightarrow> k \<notin> gkeys m"
  by (simp add: gkeys_iff)

lemma map_of_in_set: "map_of m k = Some v \<Longrightarrow> (k, v) \<in> set m"
  by (rule map_of_SomeD)

lemma in_set_map_of: "gmap_ok m \<Longrightarrow> (k, v) \<in> set m \<Longrightarrow> map_of m k = Some v"
  by (simp add: gmap_ok_def)

lemma gmap_ok_update [simp, intro]: "gmap_ok m \<Longrightarrow> gmap_ok (AList.update k v m)"
  by (simp add: gmap_ok_def distinct_update)

lemma map_fst_map_entry [simp]: "map fst (AList.map_entry k f m) = map fst m"
  by (induction m) auto

lemma gmap_ok_map_entry [simp]: "gmap_ok (AList.map_entry k f m) \<longleftrightarrow> gmap_ok m"
  by (simp add: gmap_ok_def)

lemma gmap_ok_delete [simp, intro]: "gmap_ok m \<Longrightarrow> gmap_ok (AList.delete k m)"
  by (simp add: gmap_ok_def distinct_delete)

lemma gmap_ok_filter [simp, intro]: "gmap_ok m \<Longrightarrow> gmap_ok (filter P m)"
  by (simp add: gmap_ok_def distinct_map_filter)

lemma map_of_update [simp]: "map_of (AList.update k v m) = (map_of m)(k \<mapsto> v)"
  by (rule update_conv')

lemma map_of_map_entry [simp]:
  "map_of (AList.map_entry k f m) i = (if i = k then map_option f (map_of m k) else map_of m i)"
  by (induction m) auto

lemma map_of_delete [simp]:
  "map_of (AList.delete k m) i = (if i = k then None else map_of m i)"
  by (simp add: delete_conv)

lemma gkeys_update [simp]: "gkeys (AList.update k v m) = insert k (gkeys m)"
  by (auto simp: gkeys_iff split: if_splits)

lemma gkeys_map_entry [simp]: "gkeys (AList.map_entry k f m) = gkeys m"
  by (induction m) auto

subsection \<open>Properties of every entry\<close>

lemma gall_Nil [simp]: "gall P []"
  by (simp add: gall_def)

lemma gall_Cons [simp]: "gall P ((k, v) # m) \<longleftrightarrow> P k v \<and> gall P m"
  by (simp add: gall_def)

lemma gall_lookup: "gall P m \<Longrightarrow> map_of m k = Some v \<Longrightarrow> P k v"
  by (drule map_of_in_set) (auto simp: gall_def list_all_iff)

lemma gallI: "gmap_ok m \<Longrightarrow> (\<And>k v. map_of m k = Some v \<Longrightarrow> P k v) \<Longrightarrow> gall P m"
  by (auto simp: gall_def list_all_iff dest: in_set_map_of)

lemma gall_iff: "gmap_ok m \<Longrightarrow> gall P m \<longleftrightarrow> (\<forall>k v. map_of m k = Some v \<longrightarrow> P k v)"
  by (blast intro: gallI dest: gall_lookup)

lemma gall_mono: "gall P m \<Longrightarrow> (\<And>k v. P k v \<Longrightarrow> Q k v) \<Longrightarrow> gall Q m"
  by (auto simp: gall_def list_all_iff)

lemma gall_update: "gall P m \<Longrightarrow> P k v \<Longrightarrow> gall P (AList.update k v m)"
  by (induction m) (auto split: if_splits)

lemma gall_map_entry:
  "gall P m \<Longrightarrow> (\<And>v. map_of m k = Some v \<Longrightarrow> P k v \<Longrightarrow> P k (f v)) \<Longrightarrow>
   gall P (AList.map_entry k f m)"
  by (induction m) auto

lemma gall_filter: "gall P m \<Longrightarrow> gall P (filter Q m)"
  by (auto simp: gall_def list_all_iff)

subsection \<open>Sums over the values\<close>

lemma gsum_Nil [simp]: "gsum f [] = 0"
  by (simp add: gsum_def)

lemma gsum_Cons [simp]: "gsum f ((k, v) # m) = f v + gsum f m"
  by (simp add: gsum_def)

lemma gsum_update_new: "k \<notin> gkeys m \<Longrightarrow> gsum f (AList.update k v m) = gsum f m + f v"
  by (induction m) auto

lemma gsum_map_entry:
  "gmap_ok m \<Longrightarrow> map_of m k = Some v \<Longrightarrow>
   gsum f (AList.map_entry k g m) = gsum f m - f v + f (g v)"
proof (induction m)
  case Nil
  then show ?case by simp
next
  case (Cons p m)
  obtain i w where p: "p = (i, w)" by (cases p)
  show ?case
  proof (cases "i = k")
    case True
    with Cons.prems p have "w = v" and "k \<notin> gkeys m" by auto
    moreover from \<open>k \<notin> gkeys m\<close> have "AList.map_entry k g m = m"
      by (induction m) auto
    ultimately show ?thesis using True p by simp
  next
    case False
    with Cons p show ?thesis by simp
  qed
qed

lemma map_entry_missing: "map_of m k = None \<Longrightarrow> AList.map_entry k g m = m"
  by (induction m) (auto split: if_splits)

lemma gsum_map_entry_same:
  assumes "\<And>v. map_of m k = Some v \<Longrightarrow> f (g v) = f v"
  shows "gsum f (AList.map_entry k g m) = gsum f m"
  using assms by (induction m) auto

lemma gsum_nonneg: "gall (\<lambda>k v. 0 \<le> f v) m \<Longrightarrow> 0 \<le> gsum f m"
  by (induction m) auto

lemma gsum_member_le:
  "gall (\<lambda>k v. 0 \<le> f v) m \<Longrightarrow> map_of m k = Some v \<Longrightarrow> f v \<le> gsum f m"
proof (induction m)
  case (Cons p m)
  obtain i w where p: "p = (i, w)" by (cases p)
  from Cons.prems p have nn: "0 \<le> f w" "gall (\<lambda>k v. 0 \<le> f v) m" by auto
  from gsum_nonneg [OF nn(2)] have "0 \<le> gsum f m" .
  with Cons p nn show ?case by (auto split: if_splits)
qed simp

lemmas gmap_intros = gall_update gall_map_entry gall_filter

section \<open>64-bit integers\<close>

text \<open>\<open>int64\<close> arithmetic of Go: the result is reduced modulo \<open>2^64\<close> and read as two's complement.\<close>

definition wrap64 :: "int \<Rightarrow> int" where
  "wrap64 x = sint (word_of_int x :: 64 word)"

definition max_int64 :: int where
  "max_int64 = 9223372036854775807"

definition min_int64 :: int where
  "min_int64 = -9223372036854775808"

definition in_int64 :: "int \<Rightarrow> bool" where
  "in_int64 x \<longleftrightarrow> min_int64 \<le> x \<and> x \<le> max_int64"

lemma wrap64_id: "in_int64 x \<Longrightarrow> wrap64 x = x"
  by (simp add: wrap64_def in_int64_def min_int64_def max_int64_def sint_sbintrunc'
      signed_take_bit_int_eq_self)

lemma in_int64_wrap64: "in_int64 (wrap64 x)"
proof -
  have "- (2 ^ 63) \<le> sint (word_of_int x :: 64 word)" "sint (word_of_int x :: 64 word) < 2 ^ 63"
    using sint_greater_eq [of "word_of_int x :: 64 word"] sint_less [of "word_of_int x :: 64 word"]
    by simp_all
  then show ?thesis by (simp add: wrap64_def in_int64_def min_int64_def max_int64_def)
qed

lemma wrap64_mod: "wrap64 x mod 2 ^ 64 = x mod 2 ^ 64"
proof -
  have "take_bit 64 (signed_take_bit 63 x) = take_bit 64 x"
    by (rule take_bit_signed_take_bit) simp
  then show ?thesis by (simp add: wrap64_def sint_sbintrunc' take_bit_eq_mod)
qed
end
