(* ===== verification/GoStrings.thy ===== *)
theory GoStrings
  imports Prelude
begin

text \<open>
  The parts of Go's \<open>strings\<close>, \<open>strconv\<close>, \<open>encoding/hex\<close> and \<open>sort\<close> packages the source uses,
  on byte strings.  Case mapping and white space are those of ASCII text.
\<close>

definition code :: "char \<Rightarrow> nat" where
  "code c = of_char c"

definition is_space :: "char \<Rightarrow> bool" where
  "is_space c \<longleftrightarrow> (9 \<le> code c \<and> code c \<le> 13) \<or> code c = 32"

definition lower_char :: "char \<Rightarrow> char" where
  "lower_char c = (if 65 \<le> code c \<and> code c \<le> 90 then char_of (code c + 32) else c)"

definition to_lower :: "string \<Rightarrow> string" where
  "to_lower s = map lower_char s"

definition trim_space :: "string \<Rightarrow> string" where
  "trim_space s = rev (dropWhile is_space (rev (dropWhile is_space s)))"

definition equal_fold :: "string \<Rightarrow> string \<Rightarrow> bool" where
  "equal_fold a b \<longleftrightarrow> to_lower a = to_lower b"

definition has_prefix :: "string \<Rightarrow> string \<Rightarrow> bool" where
  "has_prefix s p \<longleftrightarrow> take (length p) s = p"

text \<open>\<open>strings.SplitN(s, sep, 2)\<close> for a one-byte separator: \<open>None\<close> when it does not occur.\<close>

fun split_first :: "char \<Rightarrow> string \<Rightarrow> (string \<times> string) option" where
  "split_first c [] = None"
| "split_first c (x # xs) =
     (if x = c then Some ([], xs)
      else map_option (\<lambda>(a, b). (x # a, b)) (split_first c xs))"

text \<open>\<open>strings.LastIndexByte\<close>, as the split of the string at that index.\<close>

definition split_last :: "char \<Rightarrow> string \<Rightarrow> (string \<times> string) option" where
  "split_last c s = map_option (\<lambda>(a, b). (rev b, rev a)) (split_first c (rev s))"

lemma split_first_None: "split_first c s = None \<longleftrightarrow> c \<notin> set s"
  by (induction s) auto

lemma split_first_Some:
  "split_first c s = Some (a, b) \<longleftrightarrow> s = a @ c # b \<and> c \<notin> set a"
proof (induction s arbitrary: a b)
  case (Cons x xs)
  then show ?case by (cases a) auto
qed simp

lemma split_last_Some:
  "split_last c s = Some (a, b) \<longleftrightarrow> s = a @ c # b \<and> c \<notin> set b"
proof
  assume "split_last c s = Some (a, b)"
  then obtain a' b' where "split_first c (rev s) = Some (a', b')" and ab: "a = rev b'" "b = rev a'"
    by (auto simp: split_last_def)
  then have "rev s = a' @ c # b'" and "c \<notin> set a'" by (auto simp: split_first_Some)
  then have "s = rev (a' @ c # b')" by (metis rev_rev_ident)
  with ab \<open>c \<notin> set a'\<close> show "s = a @ c # b \<and> c \<notin> set b" by simp
next
  assume "s = a @ c # b \<and> c \<notin> set b"
  then have "split_first c (rev s) = Some (rev b, rev a)" by (simp add: split_first_Some)
  then show "split_last c s = Some (a, b)" by (simp add: split_last_def)
qed

lemma split_last_None: "split_last c s = None \<longleftrightarrow> c \<notin> set s"
  by (simp add: split_last_def split_first_None)

subsection \<open>Case and white space\<close>

lemma code_less [simp]: "code c < 256"
  by (simp add: code_def)

lemma code_char_of: "n < 256 \<Longrightarrow> code (char_of n) = n"
  by (simp add: code_def)

lemma lower_char_idem [simp]: "lower_char (lower_char c) = lower_char c"
  by (simp add: lower_char_def code_char_of)

lemma to_lower_idem [simp]: "to_lower (to_lower s) = to_lower s"
  by (simp add: to_lower_def)

lemma to_lower_Nil [simp]: "to_lower [] = []"
  by (simp add: to_lower_def)

lemma length_to_lower [simp]: "length (to_lower s) = length s"
  by (simp add: to_lower_def)

text \<open>For evaluation: equal strings match, strings of different lengths do not.\<close>

lemma equal_fold_code [code]:
  "equal_fold a b \<longleftrightarrow> a = b \<or> (length a = length b \<and> to_lower a = to_lower b)"
  by (auto simp: equal_fold_def dest: arg_cong [of _ _ length])

lemma trim_space_ends:
  "trim_space s \<noteq> [] \<Longrightarrow> \<not> is_space (hd (trim_space s)) \<and> \<not> is_space (last (trim_space s))"
proof -
  define u where "u = dropWhile is_space s"
  define v where "v = dropWhile is_space (rev u)"
  assume "trim_space s \<noteq> []"
  then have ne: "v \<noteq> []" by (simp add: trim_space_def u_def v_def)
  then have last: "\<not> is_space (hd v)"
    unfolding v_def by (rule hd_dropWhile)
  obtain w where w: "rev u = w @ v"
    unfolding v_def by (metis takeWhile_dropWhile_id)
  then have u: "u = rev v @ rev w" by (metis rev_append rev_rev_ident)
  with ne have "u \<noteq> []" by simp
  then have "\<not> is_space (hd u)"
    unfolding u_def by (rule hd_dropWhile)
  with u ne have "\<not> is_space (hd (rev v))" by simp
  with last ne show ?thesis
    by (simp add: trim_space_def last_rev flip: u_def v_def)
qed

lemma dropWhile_hd: "xs = [] \<or> \<not> P (hd xs) \<Longrightarrow> dropWhile P xs = xs"
  by (cases xs) auto

lemma trim_space_idem [simp]: "trim_space (trim_space s) = trim_space s"
proof (cases "trim_space s = []")
  case True
  then show ?thesis by (metis dropWhile.simps(1) rev.simps(1) trim_space_def)
next
  case False
  from trim_space_ends [OF this] show ?thesis
    by (simp add: trim_space_def [of "trim_space s"] dropWhile_hd hd_rev)
qed

section \<open>Numbers as text\<close>

definition digit_char :: "nat \<Rightarrow> char" where
  "digit_char n = char_of (48 + n)"

fun show_nat :: "nat \<Rightarrow> string" where
  "show_nat n = (if n < 10 then [digit_char n] else show_nat (n div 10) @ [digit_char (n mod 10)])"

declare show_nat.simps [simp del]

definition show_int :: "int \<Rightarrow> string" where
  "show_int i = (if i < 0 then CHR ''-'' # show_nat (nat (- i)) else show_nat (nat i))"

definition is_digit :: "char \<Rightarrow> bool" where
  "is_digit c \<longleftrightarrow> 48 \<le> code c \<and> code c \<le> 57"

definition digit_val :: "char \<Rightarrow> nat" where
  "digit_val c = code c - 48"

fun digits_val :: "nat \<Rightarrow> string \<Rightarrow> nat" where
  "digits_val acc [] = acc"
| "digits_val acc (c # cs) = digits_val (10 * acc + digit_val c) cs"

lemma digit_char_simps [simp]:
  assumes "n < 10"
  shows "is_digit (digit_char n)" "digit_val (digit_char n) = n"
  using assms by (simp_all add: digit_char_def is_digit_def digit_val_def code_char_of)

lemma digits_val_append: "digits_val acc (xs @ ys) = digits_val (digits_val acc xs) ys"
  by (induction xs arbitrary: acc) auto

lemma show_nat_digits: "set (show_nat n) \<subseteq> Collect is_digit"
  by (induction n rule: show_nat.induct) (subst show_nat.simps, auto)

lemma digits_val_show_nat: "digits_val 0 (show_nat n) = n"
proof (induction n rule: show_nat.induct)
  case (1 n)
  show ?case
  proof (cases "n < 10")
    case True
    then show ?thesis by (subst show_nat.simps) simp
  next
    case False
    with 1 show ?thesis by (subst show_nat.simps) (simp add: digits_val_append)
  qed
qed

lemma show_nat_inject: "show_nat m = show_nat n \<Longrightarrow> m = n"
  by (metis digits_val_show_nat)

section \<open>Hexadecimal text\<close>

definition hex_digit :: "nat \<Rightarrow> char" where
  "hex_digit n = (if n < 10 then char_of (48 + n) else char_of (87 + n))"

definition hex_encode :: "string \<Rightarrow> string" where
  "hex_encode s = concat (map (\<lambda>c. [hex_digit (code c div 16), hex_digit (code c mod 16)]) s)"

lemma hex_digit_inj: "m < 16 \<Longrightarrow> n < 16 \<Longrightarrow> hex_digit m = hex_digit n \<Longrightarrow> m = n"
proof -
  assume "m < 16" "n < 16" "hex_digit m = hex_digit n"
  then have "code (hex_digit m) = code (hex_digit n)" by simp
  with \<open>m < 16\<close> \<open>n < 16\<close> show "m = n"
    by (simp add: hex_digit_def code_char_of split: if_splits)
qed

lemma code_inject: "code a = code b \<Longrightarrow> a = b"
  by (metis char_of_char code_def)

lemma hex_encode_inject: "hex_encode a = hex_encode b \<Longrightarrow> a = b"
proof (induction a arbitrary: b)
  case Nil
  then show ?case by (cases b) (auto simp: hex_encode_def)
next
  case (Cons x a)
  from Cons.prems obtain y b' where b: "b = y # b'"
    by (cases b) (auto simp: hex_encode_def)
  with Cons.prems have d: "hex_digit (code x div 16) = hex_digit (code y div 16)"
    "hex_digit (code x mod 16) = hex_digit (code y mod 16)"
    and e: "hex_encode a = hex_encode b'"
    by (simp_all add: hex_encode_def)
  have bounds: "code x div 16 < 16" "code y div 16 < 16"
    using code_less [of x] code_less [of y] by linarith+
  from hex_digit_inj [OF bounds d(1)] hex_digit_inj [OF _ _ d(2)]
  have "code x div 16 = code y div 16" "code x mod 16 = code y mod 16" by simp_all
  then have "code x = code y" by (metis div_mod_decomp)
  then have "x = y" by (rule code_inject)
  with b Cons.IH [OF e] show ?case by simp
qed

lemma length_hex_encode [simp]: "length (hex_encode s) = 2 * length s"
  by (induction s) (auto simp: hex_encode_def)

end
