(* ===== verification/Json.thy ===== *)
theory Json
  imports GoStrings
begin

text \<open>
  JSON values as the code exchanges them.  A \<open>json.RawMessage\<close> is the parsed value, \<open>None\<close> when the
  slice is nil; \<open>json_text\<close> is the compact text \<open>json.Marshal\<close> writes, and decoding a struct follows
  \<open>json.Unmarshal\<close>: members in order, field names compared without case, \<open>null\<close> leaves a field as it
  is, the last member wins, a value of the wrong type or a number outside \<open>int64\<close> is an error.
\<close>

datatype json =
    JNull
  | JBool bool
  | JInt int
  | JDec string
  | JStr string
  | JArr "json list"
  | JObj "(string \<times> json) list"

type_synonym raw_message = "json option"

section \<open>Text\<close>

definition escape_char :: "char \<Rightarrow> string" where
  "escape_char c =
     (if c = CHR 0x22 then [CHR 0x5C, CHR 0x22]
      else if c = CHR 0x5C then [CHR 0x5C, CHR 0x5C]
      else if code c = 8 then [CHR 0x5C, CHR ''b'']
      else if code c = 9 then [CHR 0x5C, CHR ''t'']
      else if code c = 10 then [CHR 0x5C, CHR ''n'']
      else if code c = 12 then [CHR 0x5C, CHR ''f'']
      else if code c = 13 then [CHR 0x5C, CHR ''r'']
      else if code c < 32 \<or> c = CHR ''<'' \<or> c = CHR ''>'' \<or> c = CHR ''&''
        then CHR 0x5C # ''u00'' @ [hex_digit (code c div 16), hex_digit (code c mod 16)]
      else [c])"

definition quote :: "string \<Rightarrow> string" where
  "quote s = CHR 0x22 # concat (map escape_char s) @ [CHR 0x22]"

fun join :: "string \<Rightarrow> string list \<Rightarrow> string" where
  "join sep [] = []"
| "join sep [x] = x"
| "join sep (x # y # xs) = x @ sep @ join sep (y # xs)"

fun json_text :: "json \<Rightarrow> string" where
  "json_text JNull = ''null''"
| "json_text (JBool b) = (if b then ''true'' else ''false'')"
| "json_text (JInt i) = show_int i"
| "json_text (JDec s) = s"
| "json_text (JStr s) = quote s"
| "json_text (JArr xs) = ''['' @ join '','' (map json_text xs) @ '']''"
| "json_text (JObj ms) =
     ''{'' @ join '','' (map (\<lambda>p. quote (fst p) @ '':'' @ json_text (snd p)) ms) @ ''}''"

definition raw_text :: "raw_message \<Rightarrow> string" where
  "raw_text r = (case r of None \<Rightarrow> [] | Some j \<Rightarrow> json_text j)"

text \<open>A nil \<open>RawMessage\<close> inside a marshalled struct is written as \<open>null\<close>.\<close>

definition raw_json :: "raw_message \<Rightarrow> json" where
  "raw_json r = (case r of None \<Rightarrow> JNull | Some j \<Rightarrow> j)"

text \<open>A marshalled Go map has its keys sorted.\<close>

definition go_map :: "(string \<times> json) list \<Rightarrow> json" where
  "go_map kvs = JObj (sort_key fst kvs)"

text \<open>A string field tagged \<open>omitempty\<close>.\<close>

definition omit_empty :: "string \<Rightarrow> string \<Rightarrow> (string \<times> json) list" where
  "omit_empty k s = (if s = [] then [] else [(k, JStr s)])"

section \<open>Decoding structs\<close>

fun str_field :: "string \<Rightarrow> (string \<times> json) list \<Rightarrow> string \<Rightarrow> string option" where
  "str_field n [] cur = Some cur"
| "str_field n ((k, v) # ms) cur =
     (if equal_fold k n
      then (case v of JStr s \<Rightarrow> str_field n ms s | JNull \<Rightarrow> str_field n ms cur | _ \<Rightarrow> None)
      else str_field n ms cur)"

fun int_field :: "string \<Rightarrow> (string \<times> json) list \<Rightarrow> int \<Rightarrow> int option" where
  "int_field n [] cur = Some cur"
| "int_field n ((k, v) # ms) cur =
     (if equal_fold k n
      then (case v of
              JInt i \<Rightarrow> (if in_int64 i then int_field n ms i else None)
            | JNull \<Rightarrow> int_field n ms cur
            | _ \<Rightarrow> None)
      else int_field n ms cur)"

definition get_str :: "string \<Rightarrow> (string \<times> json) list \<Rightarrow> string option" where
  "get_str n ms = str_field n ms []"

definition get_int :: "string \<Rightarrow> (string \<times> json) list \<Rightarrow> int option" where
  "get_int n ms = int_field n ms 0"

text \<open>The members of the object in a raw message; \<open>None\<close> is a decoding error.\<close>

definition raw_members :: "raw_message \<Rightarrow> (string \<times> json) list option" where
  "raw_members r =
     (case r of Some (JObj ms) \<Rightarrow> Some ms | Some JNull \<Rightarrow> Some [] | _ \<Rightarrow> None)"

lemma equal_fold_lower:
  "to_lower k = k \<Longrightarrow> to_lower n = n \<Longrightarrow> equal_fold k n \<longleftrightarrow> k = n"
  by (simp add: equal_fold_def)

lemma equal_fold_refl [simp]: "equal_fold a a"
  by (simp add: equal_fold_def)

lemma equal_fold_sym: "equal_fold a b = equal_fold b a"
  by (auto simp: equal_fold_def)

lemma str_field_append:
  "str_field n (xs @ ys) cur = Option.bind (str_field n xs cur) (str_field n ys)"
  by (induction xs arbitrary: cur) (auto split: json.split)

lemma int_field_range:
  "int_field n ms cur = Some i \<Longrightarrow> in_int64 cur \<Longrightarrow> in_int64 i"
  by (induction ms arbitrary: cur) (auto split: if_splits json.splits)

lemma get_int_range: "get_int n ms = Some i \<Longrightarrow> in_int64 i"
  by (erule int_field_range [of n ms 0, folded get_int_def])
     (simp add: in_int64_def min_int64_def max_int64_def)

end
