(* ===== verification/Model.thy ===== *)
theory Model
  imports Json
begin

text \<open>
  The data model: \<open>domain/model.go\<close> and \<open>domain/errors.go\<close>, one record per struct with the struct's
  fields in order, and the two records that stand for what a request reads from outside the state:
  \<open>prims\<close>, the cryptographic primitives (fixed for a process), and \<open>ctx\<close>, the clocks and the random
  bytes of one request.
\<close>

section \<open>Errors\<close>

record app_error =
  err_status :: nat
  err_code :: string
  err_message :: string
  err_reason :: string

definition BadRequest :: "string \<Rightarrow> app_error" where
  "BadRequest msg = \<lparr>err_status = 400, err_code = ''bad_request'', err_message = msg, err_reason = []\<rparr>"

definition Unauthorized :: "string \<Rightarrow> app_error" where
  "Unauthorized msg = \<lparr>err_status = 401, err_code = ''unauthorized'', err_message = msg, err_reason = []\<rparr>"

definition Forbidden :: "string \<Rightarrow> app_error" where
  "Forbidden msg = \<lparr>err_status = 403, err_code = ''forbidden'', err_message = msg, err_reason = []\<rparr>"

definition NotFound :: "string \<Rightarrow> app_error" where
  "NotFound msg = \<lparr>err_status = 404, err_code = ''not_found'', err_message = msg, err_reason = []\<rparr>"

definition Conflict :: "string \<Rightarrow> app_error" where
  "Conflict msg = \<lparr>err_status = 409, err_code = ''conflict'', err_message = msg, err_reason = []\<rparr>"

definition InternalErr :: "string \<Rightarrow> app_error" where
  "InternalErr msg = \<lparr>err_status = 500, err_code = ''internal_error'', err_message = msg, err_reason = []\<rparr>"

text \<open>What a Go function can fail with: an \<open>*AppError\<close>, another \<open>error\<close>, or a panic.\<close>

datatype go_error = AppErr app_error | PlainErr string | Panic string

type_synonym 'a result = "go_error + 'a"

abbreviation bad :: "app_error \<Rightarrow> 'a result" where
  "bad e \<equiv> Inl (AppErr e)"

section \<open>Trade statuses\<close>

text \<open>\<open>Trade.Status\<close> is a string; a text that is none of the constants is \<open>OtherStatus\<close>.\<close>

datatype trade_status =
    StatusOfferPendingExport
  | StatusOfferReceived
  | StatusAcceptancePendingExport
  | StatusSettlementPendingExport
  | StatusCompleted
  | StatusRefundPendingExport
  | StatusRefunded
  | StatusExpired
  | StatusCancelled
  | OtherStatus string

fun status_text :: "trade_status \<Rightarrow> string" where
  "status_text StatusOfferPendingExport = ''offer_pending_export''"
| "status_text StatusOfferReceived = ''offer_received''"
| "status_text StatusAcceptancePendingExport = ''acceptance_pending_export''"
| "status_text StatusSettlementPendingExport = ''settlement_pending_export''"
| "status_text StatusCompleted = ''completed''"
| "status_text StatusRefundPendingExport = ''refund_pending_export''"
| "status_text StatusRefunded = ''refunded''"
| "status_text StatusExpired = ''expired''"
| "status_text StatusCancelled = ''cancelled''"
| "status_text (OtherStatus s) = s"

section \<open>The state\<close>

record account =
  a_user_id :: string
  a_colony_id :: string
  a_balance :: int

record ledger_entry =
  le_seq :: int
  le_colony_id :: string
  le_time :: string
  le_type :: string
  le_actor_user_id :: string
  le_payload :: raw_message
  le_prev_hash :: string
  le_hash :: string

record envelope =
  e_id :: string
  e_type :: string
  e_from_colony_id :: string
  e_to_colony_id :: string
  e_payload :: raw_message
  e_colony_signature :: string
  e_created_at :: string

text \<open>\<open>Messages []*Envelope\<close> of a decoded request may hold nil pointers.\<close>

record relay_bundle =
  b_id :: string
  b_from_colony_id :: string
  b_to_colony_id :: string
  b_exported_at :: string
  b_messages :: "envelope option list"

record colony =
  c_id :: string
  c_name :: string
  c_public_key :: string
  c_private_key :: string
  c_created_at :: string
  c_trusted_colonies :: "string gmap"
  c_accounts :: "account gmap"
  c_processed_envelopes :: "bool gmap"
  c_outbox :: "envelope list"
  c_ledger :: "ledger_entry list"
  c_next_ledger_seq :: int
  c_last_ledger_hash :: string
  c_net_obligations :: "int gmap"
  c_net_claims :: "int gmap"
  c_minted_total :: int
  c_mint_cap :: int
  c_require_dual_control :: bool

record user =
  u_id :: string
  u_username :: string
  u_display_name :: string
  u_colony_id :: string
  u_roles :: "string list"
  u_password_salt :: string
  u_password_hash :: string
  u_public_key :: string
  u_private_key :: string
  u_created_at :: string
  u_active :: bool
  u_failed_logins :: int
  u_locked_until :: string
  u_mfa_enabled :: bool
  u_mfa_secret :: string
  u_mfa_pending_secret :: string
  u_mfa_last_step :: int
  u_reset_token_hash :: string
  u_reset_expires_at :: string
  u_password_changed_at :: string

record session =
  s_token :: string
  s_user_id :: string
  s_created_at :: string
  s_expires_at :: string
  s_last_seen_at :: string

record trade =
  t_id :: string
  t_asset :: string
  t_price :: int
  t_seller_user_id :: string
  t_buyer_user_id :: string
  t_seller_colony_id :: string
  t_buyer_colony_id :: string
  t_status :: trade_status
  t_offer_envelope_id :: string
  t_acceptance_envelope_id :: string
  t_settlement_envelope_id :: string
  t_seller_signature :: string
  t_buyer_signature :: string
  t_created_at :: string
  t_accepted_at :: string
  t_settled_at :: string
  t_completed_at :: string
  t_expires_at :: string
  t_refunded_at :: string
  t_cancel_envelope_id :: string
  t_refund_envelope_id :: string

record pending_action =
  p_id :: string
  p_type :: string
  p_colony_id :: string
  p_user_id :: string
  p_trade_id :: string
  p_amount :: int
  p_mint_cap :: "int option"
  p_require_dual :: "bool option"
  p_proposed_by :: string
  p_proposed_at :: string
  p_expires_at :: string
  p_status :: string
  p_decided_by :: string
  p_decided_at :: string

record state_counts =
  n_users :: nat
  n_colonies :: nat
  n_accounts :: nat
  n_visible_trades :: nat
  n_accounts_by_colony :: "nat gmap"
  n_trades_by_colony :: "nat gmap"

record app_state =
  meta_created_at :: string
  meta_updated_at :: string
  st_colonies :: "colony gmap"
  st_users :: "user gmap"
  st_sessions :: "session gmap"
  st_trades :: "trade gmap"
  st_bundles :: "relay_bundle gmap"
  st_pending_actions :: "pending_action gmap"
  st_counts :: "state_counts option"

text \<open>
  A request handler runs on a state and returns its result with the state as it left it, also
  when it fails half-way: that the caller then throws the state away is \<open>store_update\<close>'s doing.
\<close>

type_synonym 'a handler = "app_state \<Rightarrow> 'a result \<times> app_state"

text \<open>Assigning through a pointer that a map holds under a key.\<close>

definition upd_colony :: "string \<Rightarrow> (colony \<Rightarrow> colony) \<Rightarrow> app_state \<Rightarrow> app_state" where
  "upd_colony k f s = s\<lparr>st_colonies := AList.map_entry k f (st_colonies s)\<rparr>"

definition upd_trade :: "string \<Rightarrow> (trade \<Rightarrow> trade) \<Rightarrow> app_state \<Rightarrow> app_state" where
  "upd_trade k f s = s\<lparr>st_trades := AList.map_entry k f (st_trades s)\<rparr>"

definition upd_user :: "string \<Rightarrow> (user \<Rightarrow> user) \<Rightarrow> app_state \<Rightarrow> app_state" where
  "upd_user k f s = s\<lparr>st_users := AList.map_entry k f (st_users s)\<rparr>"

definition upd_account :: "string \<Rightarrow> (account \<Rightarrow> account) \<Rightarrow> colony \<Rightarrow> colony" where
  "upd_account k f c = c\<lparr>c_accounts := AList.map_entry k f (c_accounts c)\<rparr>"

section \<open>Views\<close>

record user_view =
  uv_id :: string
  uv_username :: string
  uv_display_name :: string
  uv_colony_id :: string
  uv_roles :: "string list"
  uv_created_at :: string
  uv_active :: bool
  uv_mfa_enabled :: bool

record colony_view =
  cv_id :: string
  cv_name :: string
  cv_public_key :: string
  cv_created_at :: string
  cv_trusted_colonies :: "string gmap"
  cv_net_obligations :: "int gmap"
  cv_net_claims :: "int gmap"
  cv_mint_cap :: int
  cv_minted_total :: int
  cv_require_dual_control :: bool

record account_view =
  av_user_id :: string
  av_username :: string
  av_display_name :: string
  av_colony_id :: string
  av_colony_name :: string
  av_balance :: int

record trade_view =
  tv_id :: string
  tv_asset :: string
  tv_price :: int
  tv_seller_user_id :: string
  tv_seller_name :: string
  tv_seller_colony_id :: string
  tv_seller_colony_name :: string
  tv_buyer_user_id :: string
  tv_buyer_name :: string
  tv_buyer_colony_id :: string
  tv_buyer_colony_name :: string
  tv_status :: trade_status
  tv_created_at :: string
  tv_accepted_at :: string
  tv_settled_at :: string
  tv_completed_at :: string
  tv_offer_envelope_id :: string
  tv_acceptance_envelope_id :: string
  tv_settlement_envelope_id :: string
  tv_expires_at :: string
  tv_refunded_at :: string

record auth_response =
  ar_token :: string
  ar_user :: user_view

definition DefaultLedgerLimit :: int where
  "DefaultLedgerLimit = 200"

definition MaxLedgerLimit :: int where
  "MaxLedgerLimit = 1000"

section \<open>The world of a request\<close>

text \<open>
  Primitives of \<open>crypto/*\<close>, \<open>encoding/base*\<close> and \<open>golang.org/x/crypto/argon2\<close>.  A decoder returns
  \<open>Inl\<close> with the error text.
\<close>

record prims =
  sha256 :: "string \<Rightarrow> string"
  hmac_sha1 :: "string \<Rightarrow> string \<Rightarrow> string"
  hmac_sha256 :: "string \<Rightarrow> string \<Rightarrow> string"
  argon2_id_key :: "string \<Rightarrow> string \<Rightarrow> nat \<Rightarrow> nat \<Rightarrow> nat \<Rightarrow> nat \<Rightarrow> string"
  ed25519_sign :: "string \<Rightarrow> string \<Rightarrow> string"
  ed25519_verify :: "string \<Rightarrow> string \<Rightarrow> string \<Rightarrow> bool"
  b64_encode :: "string \<Rightarrow> string"
  b64_decode :: "string \<Rightarrow> string + string"
  raw_b64_encode :: "string \<Rightarrow> string"
  raw_b64_decode :: "string \<Rightarrow> string + string"
  raw_b64url_encode :: "string \<Rightarrow> string"
  raw_b32_encode :: "string \<Rightarrow> string"
  raw_b32_decode :: "string \<Rightarrow> string + string"
  admin_mfa_required :: bool

text \<open>
  The clocks \<open>NowFn\<close>, \<open>time.Now\<close> and \<open>LockClock\<close>, read once per request; the random bytes of the
  draw with a given number (a loop numbers its draws by the position in its list), the key
  pairs \<open>ed25519.GenerateKey\<close> returns, and the error, if any, of writing the state file.
\<close>

record ctx =
  now :: int
  wall_clock :: int
  lock_clock :: int
  rand_read :: "nat \<Rightarrow> nat \<Rightarrow> string + string"
  gen_key :: "nat \<Rightarrow> string + (string \<times> string)"
  save_error :: "string option"

end
