(* ===== verification/Crypto.thy ===== *)
theory Crypto
  imports Model
begin

text \<open>
  Identifiers, signatures and roles from \<open>domain/util.go\<close>.  The primitives (\<open>sha256\<close>, \<open>ed25519\<close>,
  base64) are the parameters of \<open>prims\<close>; everything the source does around them is written out.
  \<open>keypair_ok\<close> is the documented law of a key pair that verification properties assume.
\<close>

section \<open>Random identifiers\<close>

definition NewID :: "ctx \<Rightarrow> nat \<Rightarrow> string \<Rightarrow> string + string" where
  "NewID cx i prefix =
     (case rand_read cx i 8 of
        Inl err \<Rightarrow> Inl err
      | Inr buf \<Rightarrow> Inr (prefix @ ''_'' @ hex_encode buf))"

definition RandomBase64URL :: "prims \<Rightarrow> ctx \<Rightarrow> nat \<Rightarrow> nat \<Rightarrow> string + string" where
  "RandomBase64URL pr cx i n =
     (case rand_read cx i n of Inl err \<Rightarrow> Inl err | Inr buf \<Rightarrow> Inr (raw_b64url_encode pr buf))"

text \<open>An identifier starts with its prefix.\<close>

lemma NewID_prefix: "NewID cx i prefix = Inr x \<Longrightarrow> \<exists>h. x = prefix @ ''_'' @ h"
  by (auto simp: NewID_def split: sum.splits)

section \<open>Signatures\<close>

text \<open>\<open>InternalErr(err.Error())\<close>, the way the handlers wrap an error; a panic passes through.\<close>

definition internal :: "go_error \<Rightarrow> go_error" where
  "internal e =
     (case e of
        AppErr a \<Rightarrow> AppErr (InternalErr (err_message a))
      | PlainErr m \<Rightarrow> AppErr (InternalErr m)
      | Panic m \<Rightarrow> Panic m)"

definition SignWithPrivateKey :: "prims \<Rightarrow> string \<Rightarrow> json \<Rightarrow> string result" where
  "SignWithPrivateKey pr key signable =
     (case b64_decode pr key of
        Inl err \<Rightarrow> Inl (PlainErr err)
      | Inr priv \<Rightarrow>
          (if length priv \<noteq> 64 then Inl (Panic ''ed25519: bad private key length'')
           else Inr (b64_encode pr (ed25519_sign pr priv (json_text signable)))))"

text \<open>\<open>None\<close> is the nil error.\<close>

definition VerifyWithPublicKey :: "prims \<Rightarrow> string \<Rightarrow> json \<Rightarrow> string \<Rightarrow> go_error option" where
  "VerifyWithPublicKey pr key signable sig =
     (case b64_decode pr key of
        Inl err \<Rightarrow> Some (PlainErr err)
      | Inr pub \<Rightarrow>
          (case b64_decode pr sig of
             Inl err \<Rightarrow> Some (PlainErr err)
           | Inr sg \<Rightarrow>
               (if length pub \<noteq> 32 then Some (Panic ''ed25519: bad public key length'')
                else if \<not> ed25519_verify pr pub (json_text signable) sg
                then Some (PlainErr ''invalid signature'')
                else None)))"

text \<open>
  What \<open>crypto/ed25519\<close> and \<open>encoding/base64\<close> document of a key pair in the form the state stores it:
  both keys decode to the right lengths, decoding inverts encoding, and a signature made with the
  private key verifies under the public key.
\<close>

definition keypair_ok :: "prims \<Rightarrow> string \<Rightarrow> string \<Rightarrow> bool" where
  "keypair_ok pr pub priv \<longleftrightarrow>
     (\<exists>kp ks. b64_decode pr pub = Inr kp \<and> length kp = 32 \<and> b64_decode pr priv = Inr ks \<and> length ks = 64 \<and>
        (\<forall>m. b64_decode pr (b64_encode pr (ed25519_sign pr ks m)) = Inr (ed25519_sign pr ks m) \<and>
             ed25519_verify pr kp m (ed25519_sign pr ks m)))"

lemma sign_verify:
  assumes "keypair_ok pr pub priv"
  obtains sig where "SignWithPrivateKey pr priv j = Inr sig" "VerifyWithPublicKey pr pub j sig = None"
  using assms by (auto simp: keypair_ok_def SignWithPrivateKey_def VerifyWithPublicKey_def)

section \<open>Ledger hashes\<close>

definition HashLedgerEntry :: "prims \<Rightarrow> int \<Rightarrow> string \<Rightarrow> string \<Rightarrow> string \<Rightarrow> string \<Rightarrow> raw_message \<Rightarrow> string \<Rightarrow> string" where
  "HashLedgerEntry pr seq colonyID ts typ actor payload prev =
     hex_encode (sha256 pr (show_int seq @ ''|'' @ colonyID @ ''|'' @ ts @ ''|'' @ typ @ ''|'' @ actor @ ''|'' @
       prev @ ''|'' @ raw_text payload))"

section \<open>Roles\<close>

definition HasRole :: "user \<Rightarrow> string \<Rightarrow> bool" where
  "HasRole u role \<longleftrightarrow> list_ex (\<lambda>r. r = role) (u_roles u)"

definition valid_role :: "string \<Rightarrow> bool" where
  "valid_role r \<longleftrightarrow> r \<in> set [''super_admin'', ''colony_admin'', ''trader'', ''relay_operator'']"

text \<open>The loop of \<open>NormalizeRoles\<close>: \<open>out\<close> also serves as the \<open>seen\<close> map, which holds the same roles.\<close>

fun collect_roles :: "string list \<Rightarrow> string list \<Rightarrow> string list" where
  "collect_roles [] out = out"
| "collect_roles (r # rs) out =
     (let r' = trim_space (to_lower r)
      in if r' = [] \<or> r' \<in> set out then collect_roles rs out
         else if valid_role r' then collect_roles rs (out @ [r'])
         else collect_roles rs out)"

definition NormalizeRoles :: "string list \<Rightarrow> string list" where
  "NormalizeRoles roles = sort (collect_roles roles [])"

lemma HasRole_iff: "HasRole u role \<longleftrightarrow> role \<in> set (u_roles u)"
  by (auto simp: HasRole_def list_ex_iff)

lemma collect_roles_set:
  "set (collect_roles rs out) = set out \<union> {trim_space (to_lower r) | r. r \<in> set rs \<and> valid_role (trim_space (to_lower r))}"
proof (induction rs arbitrary: out)
  case (Cons r rs)
  have "\<not> valid_role []" by (simp add: valid_role_def)
  with Cons show ?case by (auto simp: Let_def)
qed simp

lemma collect_roles_distinct: "distinct out \<Longrightarrow> distinct (collect_roles rs out)"
  by (induction rs arbitrary: out) (auto simp: Let_def)

lemma NormalizeRoles_set:
  "set (NormalizeRoles rs) = {r'. valid_role r' \<and> (\<exists>r \<in> set rs. r' = trim_space (to_lower r))}"
  by (auto simp: NormalizeRoles_def collect_roles_set)

end
