(* ===== verification/Wire.thy ===== *)
theory Wire
  imports Crypto
begin

text \<open>
  The messages of the relay: the payload structs of \<open>domain/model.go\<close>, their JSON, the structs users
  and colonies sign, and the signing of an envelope (\<open>service/common.go\<close>).  The facts are the
  round trips between payloads and JSON and that a signed envelope verifies.
\<close>

record offer_payload =
  op_trade_id :: string
  op_asset :: string
  op_price :: int
  op_seller_user_id :: string
  op_seller_name :: string
  op_seller_colony_id :: string
  op_buyer_user_id :: string
  op_buyer_name :: string
  op_buyer_colony_id :: string
  op_created_at :: string
  op_expires_at :: string
  op_seller_signature :: string

record acceptance_payload =
  ap_trade_id :: string
  ap_buyer_user_id :: string
  ap_buyer_colony_id :: string
  ap_debit_amount :: int
  ap_accepted_at :: string
  ap_buyer_signature :: string

record settlement_payload =
  sp_trade_id :: string
  sp_seller_user_id :: string
  sp_seller_colony_id :: string
  sp_credit_amount :: int
  sp_accepted_from_colony :: string
  sp_settled_at :: string

record cancel_payload =
  cp_trade_id :: string
  cp_buyer_user_id :: string
  cp_buyer_colony_id :: string
  cp_requested_at :: string
  cp_buyer_signature :: string

record refund_payload =
  rp_trade_id :: string
  rp_buyer_user_id :: string
  rp_buyer_colony_id :: string
  rp_seller_colony_id :: string
  rp_refund_amount :: int
  rp_reason :: string
  rp_decided_at :: string

section \<open>What users sign\<close>

definition OfferUserSignable ::
    "string \<Rightarrow> string \<Rightarrow> int \<Rightarrow> string \<Rightarrow> string \<Rightarrow> string \<Rightarrow> string \<Rightarrow> string \<Rightarrow> string \<Rightarrow> json" where
  "OfferUserSignable trade_id asset price seller_user_id seller_colony_id buyer_user_id buyer_colony_id
     created_at expires_at =
   JObj ([(''trade_id'', JStr trade_id), (''asset'', JStr asset), (''price'', JInt price),
          (''seller_user_id'', JStr seller_user_id), (''seller_colony_id'', JStr seller_colony_id),
          (''buyer_user_id'', JStr buyer_user_id), (''buyer_colony_id'', JStr buyer_colony_id),
          (''created_at'', JStr created_at)] @ omit_empty ''expires_at'' expires_at)"

definition AcceptanceUserSignable :: "string \<Rightarrow> string \<Rightarrow> string \<Rightarrow> int \<Rightarrow> string \<Rightarrow> json" where
  "AcceptanceUserSignable trade_id buyer_user_id buyer_colony_id debit_amount accepted_at =
   JObj [(''trade_id'', JStr trade_id), (''buyer_user_id'', JStr buyer_user_id),
         (''buyer_colony_id'', JStr buyer_colony_id), (''debit_amount'', JInt debit_amount),
         (''accepted_at'', JStr accepted_at)]"

definition CancelUserSignable :: "string \<Rightarrow> string \<Rightarrow> string \<Rightarrow> string \<Rightarrow> json" where
  "CancelUserSignable trade_id buyer_user_id buyer_colony_id requested_at =
   JObj [(''trade_id'', JStr trade_id), (''buyer_user_id'', JStr buyer_user_id),
         (''buyer_colony_id'', JStr buyer_colony_id), (''requested_at'', JStr requested_at)]"

section \<open>Payloads as JSON\<close>

definition encode_offer :: "offer_payload \<Rightarrow> json" where
  "encode_offer p =
   JObj ([(''trade_id'', JStr (op_trade_id p)), (''asset'', JStr (op_asset p)), (''price'', JInt (op_price p)),
          (''seller_user_id'', JStr (op_seller_user_id p)), (''seller_name'', JStr (op_seller_name p)),
          (''seller_colony_id'', JStr (op_seller_colony_id p)), (''buyer_user_id'', JStr (op_buyer_user_id p)),
          (''buyer_name'', JStr (op_buyer_name p)), (''buyer_colony_id'', JStr (op_buyer_colony_id p)),
          (''created_at'', JStr (op_created_at p))] @ omit_empty ''expires_at'' (op_expires_at p) @
         [(''seller_signature'', JStr (op_seller_signature p))])"

definition decode_offer :: "raw_message \<Rightarrow> offer_payload option" where
  "decode_offer r =
     (case raw_members r of
        None \<Rightarrow> None
      | Some ms \<Rightarrow>
          (case (get_str ''trade_id'' ms, get_str ''asset'' ms, get_int ''price'' ms, get_str ''seller_user_id'' ms,
                 get_str ''seller_name'' ms, get_str ''seller_colony_id'' ms, get_str ''buyer_user_id'' ms,
                 get_str ''buyer_name'' ms, get_str ''buyer_colony_id'' ms, get_str ''created_at'' ms,
                 get_str ''expires_at'' ms, get_str ''seller_signature'' ms) of
             (Some a, Some b, Some c, Some d, Some e, Some f, Some g, Some h, Some i, Some j, Some k, Some l) \<Rightarrow>
               Some \<lparr>op_trade_id = a, op_asset = b, op_price = c, op_seller_user_id = d, op_seller_name = e,
                     op_seller_colony_id = f, op_buyer_user_id = g, op_buyer_name = h, op_buyer_colony_id = i,
                     op_created_at = j, op_expires_at = k, op_seller_signature = l\<rparr>
           | _ \<Rightarrow> None))"

definition encode_acceptance :: "acceptance_payload \<Rightarrow> json" where
  "encode_acceptance p =
   JObj [(''trade_id'', JStr (ap_trade_id p)), (''buyer_user_id'', JStr (ap_buyer_user_id p)),
         (''buyer_colony_id'', JStr (ap_buyer_colony_id p)), (''debit_amount'', JInt (ap_debit_amount p)),
         (''accepted_at'', JStr (ap_accepted_at p)), (''buyer_signature'', JStr (ap_buyer_signature p))]"

definition decode_acceptance :: "raw_message \<Rightarrow> acceptance_payload option" where
  "decode_acceptance r =
     (case raw_members r of
        None \<Rightarrow> None
      | Some ms \<Rightarrow>
          (case (get_str ''trade_id'' ms, get_str ''buyer_user_id'' ms, get_str ''buyer_colony_id'' ms,
                 get_int ''debit_amount'' ms, get_str ''accepted_at'' ms, get_str ''buyer_signature'' ms) of
             (Some a, Some b, Some c, Some d, Some e, Some f) \<Rightarrow>
               Some \<lparr>ap_trade_id = a, ap_buyer_user_id = b, ap_buyer_colony_id = c, ap_debit_amount = d,
                     ap_accepted_at = e, ap_buyer_signature = f\<rparr>
           | _ \<Rightarrow> None))"

definition encode_settlement :: "settlement_payload \<Rightarrow> json" where
  "encode_settlement p =
   JObj [(''trade_id'', JStr (sp_trade_id p)), (''seller_user_id'', JStr (sp_seller_user_id p)),
         (''seller_colony_id'', JStr (sp_seller_colony_id p)), (''credit_amount'', JInt (sp_credit_amount p)),
         (''accepted_from_colony'', JStr (sp_accepted_from_colony p)), (''settled_at'', JStr (sp_settled_at p))]"

definition decode_settlement :: "raw_message \<Rightarrow> settlement_payload option" where
  "decode_settlement r =
     (case raw_members r of
        None \<Rightarrow> None
      | Some ms \<Rightarrow>
          (case (get_str ''trade_id'' ms, get_str ''seller_user_id'' ms, get_str ''seller_colony_id'' ms,
                 get_int ''credit_amount'' ms, get_str ''accepted_from_colony'' ms, get_str ''settled_at'' ms) of
             (Some a, Some b, Some c, Some d, Some e, Some f) \<Rightarrow>
               Some \<lparr>sp_trade_id = a, sp_seller_user_id = b, sp_seller_colony_id = c, sp_credit_amount = d,
                     sp_accepted_from_colony = e, sp_settled_at = f\<rparr>
           | _ \<Rightarrow> None))"

definition encode_cancel :: "cancel_payload \<Rightarrow> json" where
  "encode_cancel p =
   JObj [(''trade_id'', JStr (cp_trade_id p)), (''buyer_user_id'', JStr (cp_buyer_user_id p)),
         (''buyer_colony_id'', JStr (cp_buyer_colony_id p)), (''requested_at'', JStr (cp_requested_at p)),
         (''buyer_signature'', JStr (cp_buyer_signature p))]"

definition decode_cancel :: "raw_message \<Rightarrow> cancel_payload option" where
  "decode_cancel r =
     (case raw_members r of
        None \<Rightarrow> None
      | Some ms \<Rightarrow>
          (case (get_str ''trade_id'' ms, get_str ''buyer_user_id'' ms, get_str ''buyer_colony_id'' ms,
                 get_str ''requested_at'' ms, get_str ''buyer_signature'' ms) of
             (Some a, Some b, Some c, Some d, Some e) \<Rightarrow>
               Some \<lparr>cp_trade_id = a, cp_buyer_user_id = b, cp_buyer_colony_id = c, cp_requested_at = d,
                     cp_buyer_signature = e\<rparr>
           | _ \<Rightarrow> None))"

definition encode_refund :: "refund_payload \<Rightarrow> json" where
  "encode_refund p =
   JObj [(''trade_id'', JStr (rp_trade_id p)), (''buyer_user_id'', JStr (rp_buyer_user_id p)),
         (''buyer_colony_id'', JStr (rp_buyer_colony_id p)), (''seller_colony_id'', JStr (rp_seller_colony_id p)),
         (''refund_amount'', JInt (rp_refund_amount p)), (''reason'', JStr (rp_reason p)),
         (''decided_at'', JStr (rp_decided_at p))]"

definition decode_refund :: "raw_message \<Rightarrow> refund_payload option" where
  "decode_refund r =
     (case raw_members r of
        None \<Rightarrow> None
      | Some ms \<Rightarrow>
          (case (get_str ''trade_id'' ms, get_str ''buyer_user_id'' ms, get_str ''buyer_colony_id'' ms,
                 get_str ''seller_colony_id'' ms, get_int ''refund_amount'' ms, get_str ''reason'' ms,
                 get_str ''decided_at'' ms) of
             (Some a, Some b, Some c, Some d, Some e, Some f, Some g) \<Rightarrow>
               Some \<lparr>rp_trade_id = a, rp_buyer_user_id = b, rp_buyer_colony_id = c, rp_seller_colony_id = d,
                     rp_refund_amount = e, rp_reason = f, rp_decided_at = g\<rparr>
           | _ \<Rightarrow> None))"

section \<open>Signed envelopes\<close>

definition EnvelopeSignable :: "envelope \<Rightarrow> json" where
  "EnvelopeSignable env =
   JObj [(''id'', JStr (e_id env)), (''type'', JStr (e_type env)), (''from_colony_id'', JStr (e_from_colony_id env)),
         (''to_colony_id'', JStr (e_to_colony_id env)), (''payload'', raw_json (e_payload env)),
         (''created_at'', JStr (e_created_at env))]"

definition SignEnvelope :: "prims \<Rightarrow> colony \<Rightarrow> envelope \<Rightarrow> string result" where
  "SignEnvelope pr c env = SignWithPrivateKey pr (c_private_key c) (EnvelopeSignable env)"

definition verifyEnvelope :: "prims \<Rightarrow> colony \<Rightarrow> envelope \<Rightarrow> go_error option" where
  "verifyEnvelope pr c env =
     VerifyWithPublicKey pr (c_public_key c) (EnvelopeSignable env) (e_colony_signature env)"

section \<open>Round trips\<close>

text \<open>All member names are lower case, so names match only when equal.\<close>

named_theorems lower_names

lemma lower_names_payload [lower_names]:
  "to_lower ''trade_id'' = ''trade_id''" "to_lower ''asset'' = ''asset''" "to_lower ''price'' = ''price''"
  "to_lower ''seller_user_id'' = ''seller_user_id''" "to_lower ''seller_name'' = ''seller_name''"
  "to_lower ''seller_colony_id'' = ''seller_colony_id''" "to_lower ''buyer_user_id'' = ''buyer_user_id''"
  "to_lower ''buyer_name'' = ''buyer_name''" "to_lower ''buyer_colony_id'' = ''buyer_colony_id''"
  "to_lower ''created_at'' = ''created_at''" "to_lower ''expires_at'' = ''expires_at''"
  "to_lower ''seller_signature'' = ''seller_signature''"
  by code_simp+

lemma lower_names_payload' [lower_names]:
  "to_lower ''debit_amount'' = ''debit_amount''" "to_lower ''accepted_at'' = ''accepted_at''"
  "to_lower ''buyer_signature'' = ''buyer_signature''" "to_lower ''credit_amount'' = ''credit_amount''"
  "to_lower ''accepted_from_colony'' = ''accepted_from_colony''" "to_lower ''settled_at'' = ''settled_at''"
  "to_lower ''requested_at'' = ''requested_at''" "to_lower ''refund_amount'' = ''refund_amount''"
  "to_lower ''reason'' = ''reason''" "to_lower ''decided_at'' = ''decided_at''"
  by code_simp+

lemma decode_encode_offer:
  "in_int64 (op_price p) \<Longrightarrow> decode_offer (Some (encode_offer p)) = Some p"
  by (cases p)
     (simp add: decode_offer_def encode_offer_def raw_members_def get_str_def get_int_def omit_empty_def
       equal_fold_def lower_names)

lemma decode_encode_acceptance:
  "in_int64 (ap_debit_amount p) \<Longrightarrow> decode_acceptance (Some (encode_acceptance p)) = Some p"
  by (cases p)
     (simp add: decode_acceptance_def encode_acceptance_def raw_members_def get_str_def get_int_def
       equal_fold_def lower_names)

lemma decode_encode_settlement:
  "in_int64 (sp_credit_amount p) \<Longrightarrow> decode_settlement (Some (encode_settlement p)) = Some p"
  by (cases p)
     (simp add: decode_settlement_def encode_settlement_def raw_members_def get_str_def get_int_def
       equal_fold_def lower_names)

lemma decode_encode_cancel: "decode_cancel (Some (encode_cancel p)) = Some p"
  by (cases p)
     (simp add: decode_cancel_def encode_cancel_def raw_members_def get_str_def equal_fold_def lower_names)

lemma decode_encode_refund:
  "in_int64 (rp_refund_amount p) \<Longrightarrow> decode_refund (Some (encode_refund p)) = Some p"
  by (cases p)
     (simp add: decode_refund_def encode_refund_def raw_members_def get_str_def get_int_def
       equal_fold_def lower_names)

text \<open>The signable does not cover the signature field, so signing and storing it commute.\<close>

lemma EnvelopeSignable_signature [simp]:
  "EnvelopeSignable (env\<lparr>e_colony_signature := sig\<rparr>) = EnvelopeSignable env"
  by (simp add: EnvelopeSignable_def)

lemma verify_signed_envelope:
  assumes "keypair_ok pr (c_public_key c) (c_private_key c)" and "SignEnvelope pr c env = Inr sig"
  shows "verifyEnvelope pr c (env\<lparr>e_colony_signature := sig\<rparr>) = None"
proof -
  from assms(1) obtain sig' where "SignWithPrivateKey pr (c_private_key c) (EnvelopeSignable env) = Inr sig'"
    "VerifyWithPublicKey pr (c_public_key c) (EnvelopeSignable env) sig' = None"
    by (rule sign_verify)
  with assms(2) show ?thesis by (simp add: SignEnvelope_def verifyEnvelope_def)
qed

end
