(* ===== verification/TradeState.thy ===== *)
theory TradeState
  imports Model
begin

text \<open>
  \<open>domain/trade_state.go\<close>: the transition table of a trade, the reachability search, the two ways a
  status may change (\<open>AdvanceTrade\<close>, \<open>StepTrade\<close>), amount limits and checked addition.  The search
  is proved to compute the transitive closure of the table, the table to be acyclic (by a rank
  that every transition increases, through the locale \<open>ranked_machine\<close>), and \<open>AddChecked\<close> to be
  exact addition wherever it succeeds.
\<close>

section \<open>The state machine\<close>

fun TradeTransitions :: "trade_status \<Rightarrow> trade_status list" where
  "TradeTransitions StatusOfferPendingExport = [StatusOfferReceived, StatusExpired, StatusCancelled]"
| "TradeTransitions StatusOfferReceived = [StatusAcceptancePendingExport, StatusExpired, StatusCancelled]"
| "TradeTransitions StatusAcceptancePendingExport =
     [StatusSettlementPendingExport, StatusRefundPendingExport, StatusRefunded]"
| "TradeTransitions StatusSettlementPendingExport = [StatusCompleted]"
| "TradeTransitions StatusRefundPendingExport = [StatusRefunded]"
| "TradeTransitions StatusExpired = [StatusRefundPendingExport]"
| "TradeTransitions StatusCancelled = [StatusRefundPendingExport]"
| "TradeTransitions StatusCompleted = []"
| "TradeTransitions StatusRefunded = []"
| "TradeTransitions (OtherStatus s) = []"

definition IsEscrowed :: "trade_status \<Rightarrow> bool" where
  "IsEscrowed status \<longleftrightarrow> status = StatusAcceptancePendingExport \<or> status = StatusRefundPendingExport"

definition TransitionAllowed :: "trade_status \<Rightarrow> trade_status \<Rightarrow> bool" where
  "TransitionAllowed frm to \<longleftrightarrow> list_ex (\<lambda>n. n = to) (TradeTransitions frm)"

text \<open>
  \<open>Reachable\<close>: breadth-first search.  \<open>visit\<close> is the inner loop over the successors of the status
  taken from the queue; \<open>None\<close> is its early \<open>return true\<close>.
\<close>

fun visit :: "trade_status \<Rightarrow> trade_status list \<Rightarrow> trade_status list \<Rightarrow> trade_status list
    \<Rightarrow> (trade_status list \<times> trade_status list) option" where
  "visit to [] seen queue = Some (seen, queue)"
| "visit to (n # ns) seen queue =
     (if n = to then None
      else if n \<notin> set seen then visit to ns (n # seen) (queue @ [n])
      else visit to ns seen queue)"

definition known_statuses :: "trade_status set" where
  "known_statuses = {StatusOfferReceived, StatusAcceptancePendingExport, StatusSettlementPendingExport,
     StatusCompleted, StatusRefundPendingExport, StatusRefunded, StatusExpired, StatusCancelled}"

lemma finite_known_statuses [simp]: "finite known_statuses"
  by (simp add: known_statuses_def)

lemma transitions_known: "set (TradeTransitions s) \<subseteq> known_statuses"
  by (cases s) (auto simp: known_statuses_def)

lemma visit_measure:
  "visit to ns seen queue = Some (seen', queue') \<Longrightarrow> set ns \<subseteq> known_statuses \<Longrightarrow>
   length queue' + card (known_statuses - set seen') \<le> length queue + card (known_statuses - set seen)"
proof (induction to ns seen queue rule: visit.induct)
  case (2 to n ns seen queue)
  show ?case
  proof (cases "n \<in> set seen")
    case True
    with 2 show ?thesis by (auto split: if_splits)
  next
    case False
    with 2 have n: "n \<in> known_statuses - set seen" and ne: "n \<noteq> to" by (auto split: if_splits)
    have "known_statuses - set (n # seen) = (known_statuses - set seen) - {n}" by auto
    moreover have "card ((known_statuses - set seen) - {n}) < card (known_statuses - set seen)"
      using n by (intro card_Diff1_less) auto
    ultimately show ?thesis using 2 False ne by simp
  qed
qed simp

function bfs :: "trade_status \<Rightarrow> trade_status list \<Rightarrow> trade_status list \<Rightarrow> bool" where
  "bfs to seen [] = False"
| "bfs to seen (cur # queue) =
     (case visit to (TradeTransitions cur) seen queue of
        None \<Rightarrow> True
      | Some (seen', queue') \<Rightarrow> bfs to seen' queue')"
  by pat_completeness auto
termination
  by (relation "measure (\<lambda>(to, seen, queue). length queue + card (known_statuses - set seen))")
     (auto dest!: sym [of "Some _"] visit_measure [OF _ transitions_known])

definition Reachable :: "trade_status \<Rightarrow> trade_status \<Rightarrow> bool" where
  "Reachable frm to = bfs to [frm] [frm]"

definition AdvanceTrade :: "trade \<Rightarrow> trade_status \<Rightarrow> trade result" where
  "AdvanceTrade t to =
     (if \<not> TransitionAllowed (t_status t) to
      then bad (Conflict (''illegal trade transition '' @ status_text (t_status t) @ '' -> '' @ status_text to))
      else Inr (t\<lparr>t_status := to\<rparr>))"

datatype stepKind = StepApply | StepDuplicate | StepTooEarly

definition ClassifyStep :: "trade_status \<Rightarrow> trade_status \<Rightarrow> stepKind" where
  "ClassifyStep status pred =
     (if status = pred then StepApply else if Reachable status pred then StepTooEarly else StepDuplicate)"

definition StepTrade :: "trade \<Rightarrow> trade_status \<Rightarrow> trade_status \<Rightarrow> (bool \<times> trade) result" where
  "StepTrade t pred to =
     (case ClassifyStep (t_status t) pred of
        StepApply \<Rightarrow> (case AdvanceTrade t to of Inl e \<Rightarrow> Inl e | Inr t' \<Rightarrow> Inr (True, t'))
      | StepTooEarly \<Rightarrow>
          bad (Conflict (''trade is '' @ status_text (t_status t) @ '', expected '' @ status_text pred))
      | StepDuplicate \<Rightarrow> Inr (False, t))"

section \<open>Amounts\<close>

definition MaxAmount :: int where
  "MaxAmount = 1000000000000"

definition DefaultMintCap :: int where
  "DefaultMintCap = 1000000000000000"

definition ValidAmount :: "int \<Rightarrow> bool" where
  "ValidAmount a \<longleftrightarrow> a > 0 \<and> a \<le> MaxAmount"

definition EffectiveMintCap :: "colony \<Rightarrow> int" where
  "EffectiveMintCap c = (if c_mint_cap c > 0 then c_mint_cap c else DefaultMintCap)"

definition AddChecked :: "int \<Rightarrow> int \<Rightarrow> int result" where
  "AddChecked a b =
     (if (b > 0 \<and> a > wrap64 (max_int64 - b)) \<or> (b < 0 \<and> a < wrap64 (min_int64 - b))
      then bad (Conflict ''amount overflow'') else Inr (wrap64 (a + b)))"

section \<open>Reachability is the transitive closure\<close>

abbreviation can_step :: "trade_status \<Rightarrow> trade_status \<Rightarrow> bool" where
  "can_step \<equiv> TransitionAllowed"

lemma TransitionAllowed_iff: "TransitionAllowed a b \<longleftrightarrow> b \<in> set (TradeTransitions a)"
  by (auto simp: TransitionAllowed_def list_ex_iff)

lemma visit_None: "visit to ns seen queue = None \<Longrightarrow> to \<in> set ns"
  by (induction to ns seen queue rule: visit.induct) (auto split: if_splits)

lemma visit_Some:
  "visit to ns seen queue = Some (seen', queue') \<Longrightarrow>
   to \<notin> set ns \<and> set seen' = set seen \<union> set ns \<and> set queue' \<subseteq> set queue \<union> set ns
   \<and> set queue \<subseteq> set queue' \<and> set seen' - set queue' \<subseteq> set seen - set queue"
proof (induction to ns seen queue rule: visit.induct)
  case (2 to n ns seen queue)
  then show ?case by (cases "n \<in> set seen") (auto split: if_splits)
qed simp

lemma bfs_sound: "bfs to seen queue \<Longrightarrow> \<exists>c \<in> set queue. can_step\<^sup>+\<^sup>+ c to"
proof (induction to seen queue rule: bfs.induct)
  case (2 to seen cur queue)
  show ?case
  proof (cases "visit to (TradeTransitions cur) seen queue")
    case None
    then have "can_step cur to" by (auto dest: visit_None simp: TransitionAllowed_iff)
    then show ?thesis by auto
  next
    case (Some p)
    obtain seen' queue' where p: "p = (seen', queue')" by fastforce
    with 2 Some have "bfs to seen' queue'" by simp
    from 2(1) [OF Some p [symmetric] this] obtain c where c: "c \<in> set queue'" "can_step\<^sup>+\<^sup>+ c to"
      by blast
    from visit_Some [OF Some [unfolded p]] c(1)
    have "c \<in> set queue \<or> can_step cur c" by (auto simp: TransitionAllowed_iff)
    with c(2) show ?thesis by (auto intro: tranclp_into_tranclp2)
  qed
qed simp

definition explored :: "trade_status \<Rightarrow> trade_status list \<Rightarrow> trade_status list \<Rightarrow> bool" where
  "explored to seen queue \<longleftrightarrow> set queue \<subseteq> set seen \<and>
     (\<forall>c \<in> set seen - set queue. \<forall>n. can_step c n \<longrightarrow> n \<in> set seen \<and> n \<noteq> to)"

lemma explored_visit:
  assumes "explored to seen (cur # queue)"
    and v: "visit to (TradeTransitions cur) seen queue = Some (seen', queue')"
  shows "explored to seen' queue'"
proof -
  let ?T = "set (TradeTransitions cur)"
  from visit_Some [OF v] have T: "to \<notin> ?T" "set seen' = set seen \<union> ?T" "set queue' \<subseteq> set queue \<union> ?T"
    and sub: "set seen' - set queue' \<subseteq> set seen - set queue" by blast+
  have q: "set queue \<subseteq> set seen"
    and ex: "\<And>c n. c \<in> set seen \<Longrightarrow> c \<notin> set (cur # queue) \<Longrightarrow> can_step c n \<Longrightarrow> n \<in> set seen \<and> n \<noteq> to"
    using assms(1) by (auto simp: explored_def)
  have "n \<in> set seen' \<and> n \<noteq> to" if c: "c \<in> set seen' - set queue'" and n: "can_step c n" for c n
  proof (cases "c = cur")
    case True
    with n have "n \<in> ?T" by (simp add: TransitionAllowed_iff)
    with T show ?thesis by auto
  next
    case False
    with c sub have "c \<in> set seen" "c \<notin> set (cur # queue)" by auto
    from ex [OF this n] T(2) show ?thesis by simp
  qed
  moreover have "set queue' \<subseteq> set seen'" using T q by blast
  ultimately show ?thesis by (simp add: explored_def)
qed

lemma bfs_complete:
  "\<not> bfs to seen queue \<Longrightarrow> explored to seen queue \<Longrightarrow> c \<in> set seen \<Longrightarrow> \<not> can_step\<^sup>+\<^sup>+ c to"
proof (induction to seen queue rule: bfs.induct)
  case (1 to seen)
  have "can_step\<^sup>+\<^sup>+ c x \<Longrightarrow> c \<in> set seen \<Longrightarrow> x \<in> set seen \<and> x \<noteq> to" for x
    by (induction rule: tranclp_induct) (use 1 in \<open>auto simp: explored_def\<close>)
  with 1 show ?case by blast
next
  case (2 to seen cur queue)
  then obtain seen' queue' where v: "visit to (TradeTransitions cur) seen queue = Some (seen', queue')"
    by (auto split: option.splits)
  with 2 have "\<not> bfs to seen' queue'" by simp
  with 2 v explored_visit [OF 2(3) v] visit_Some [OF v] show ?case by auto
qed

lemma Reachable_iff: "Reachable a b \<longleftrightarrow> can_step\<^sup>+\<^sup>+ a b"
proof
  show "Reachable a b \<Longrightarrow> can_step\<^sup>+\<^sup>+ a b"
    unfolding Reachable_def by (drule bfs_sound) simp
  have "explored b [a] [a]" by (simp add: explored_def)
  then show "can_step\<^sup>+\<^sup>+ a b \<Longrightarrow> Reachable a b"
    unfolding Reachable_def using bfs_complete by fastforce
qed

section \<open>The table is acyclic\<close>

text \<open>
  A machine whose steps increase a rank: the interface behind every argument that a trade never
  returns to a status it has left.
\<close>

locale ranked_machine =
  fixes nxt :: "'s \<Rightarrow> 's list"
    and rank :: "'s \<Rightarrow> nat"
  assumes rank_increases: "t \<in> set (nxt s) \<Longrightarrow> rank s < rank t"
begin

lemma path_increases: "(\<lambda>a b. b \<in> set (nxt a))\<^sup>+\<^sup>+ s t \<Longrightarrow> rank s < rank t"
  by (induction rule: tranclp_induct) (auto dest: rank_increases)

lemma no_return: "\<not> (\<lambda>a b. b \<in> set (nxt a))\<^sup>+\<^sup>+ s s"
  using path_increases by blast

lemma one_way: "(\<lambda>a b. b \<in> set (nxt a))\<^sup>+\<^sup>+ s t \<Longrightarrow> \<not> (\<lambda>a b. b \<in> set (nxt a))\<^sup>*\<^sup>* t s"
  by (metis no_return rtranclp_tranclp_tranclp tranclp_rtranclp_tranclp)

end

fun trade_rank :: "trade_status \<Rightarrow> nat" where
  "trade_rank StatusOfferPendingExport = 0"
| "trade_rank StatusOfferReceived = 1"
| "trade_rank StatusAcceptancePendingExport = 2"
| "trade_rank StatusExpired = 2"
| "trade_rank StatusCancelled = 2"
| "trade_rank StatusSettlementPendingExport = 3"
| "trade_rank StatusRefundPendingExport = 3"
| "trade_rank StatusCompleted = 4"
| "trade_rank StatusRefunded = 4"
| "trade_rank (OtherStatus s) = 0"

interpretation trade_machine: ranked_machine TradeTransitions trade_rank
proof
  show "t \<in> set (TradeTransitions s) \<Longrightarrow> trade_rank s < trade_rank t" for s t
    by (cases s) auto
qed

lemma can_step_eq: "can_step = (\<lambda>a b. b \<in> set (TradeTransitions a))"
  by (simp add: fun_eq_iff TransitionAllowed_iff)

lemma reachable_rank: "Reachable a b \<Longrightarrow> trade_rank a < trade_rank b"
  unfolding Reachable_iff can_step_eq by (rule trade_machine.path_increases)

lemma not_reachable_self [simp]: "\<not> Reachable s s"
  using reachable_rank by blast

subsection \<open>Evaluation of the classifications the handlers use\<close>

lemma classify_same [simp]: "ClassifyStep s s = StepApply"
  by (simp add: ClassifyStep_def)

lemma classify_apply_iff: "ClassifyStep s p = StepApply \<longleftrightarrow> s = p"
  by (simp add: ClassifyStep_def)

lemma classify_early_iff: "ClassifyStep s p = StepTooEarly \<longleftrightarrow> Reachable s p"
  by (auto simp: ClassifyStep_def)

lemma classify_duplicate_iff: "ClassifyStep s p = StepDuplicate \<longleftrightarrow> s \<noteq> p \<and> \<not> Reachable s p"
  by (auto simp: ClassifyStep_def)

lemma AdvanceTrade_Inr:
  "AdvanceTrade t to = Inr t' \<longleftrightarrow> TransitionAllowed (t_status t) to \<and> t' = t\<lparr>t_status := to\<rparr>"
  by (auto simp: AdvanceTrade_def)

lemma allowed_offer_received: "TransitionAllowed s StatusOfferReceived \<longleftrightarrow> s = StatusOfferPendingExport"
  by (cases s) (auto simp: TransitionAllowed_iff)

lemma allowed_acceptance: "TransitionAllowed s StatusAcceptancePendingExport \<longleftrightarrow> s = StatusOfferReceived"
  by (cases s) (auto simp: TransitionAllowed_iff)

lemma allowed_settlement: "TransitionAllowed s StatusSettlementPendingExport \<longleftrightarrow> s = StatusAcceptancePendingExport"
  by (cases s) (auto simp: TransitionAllowed_iff)

lemma allowed_completed: "TransitionAllowed s StatusCompleted \<longleftrightarrow> s = StatusSettlementPendingExport"
  by (cases s) (auto simp: TransitionAllowed_iff)

lemma allowed_refund: "TransitionAllowed s StatusRefundPendingExport \<longleftrightarrow>
    s = StatusAcceptancePendingExport \<or> s = StatusExpired \<or> s = StatusCancelled"
  by (cases s) (auto simp: TransitionAllowed_iff)

lemma allowed_refunded: "TransitionAllowed s StatusRefunded \<longleftrightarrow> IsEscrowed s"
  by (cases s) (auto simp: TransitionAllowed_iff IsEscrowed_def)

lemma allowed_closed:
  "TransitionAllowed s StatusExpired \<longleftrightarrow> s = StatusOfferPendingExport \<or> s = StatusOfferReceived"
  "TransitionAllowed s StatusCancelled \<longleftrightarrow> s = StatusOfferPendingExport \<or> s = StatusOfferReceived"
  by (cases s; auto simp: TransitionAllowed_iff)+

lemmas allowed_simps = allowed_offer_received allowed_acceptance allowed_settlement allowed_completed
  allowed_refund allowed_refunded allowed_closed

lemma StepTrade_Inr:
  "StepTrade t pred to = Inr (b, t') \<Longrightarrow>
   (b \<and> t_status t = pred \<and> TransitionAllowed pred to \<and> t' = t\<lparr>t_status := to\<rparr>)
   \<or> (\<not> b \<and> t_status t \<noteq> pred \<and> t' = t)"
  by (auto simp: StepTrade_def ClassifyStep_def AdvanceTrade_def split: if_splits)

section \<open>Checked addition\<close>

lemma AddChecked_exact:
  assumes "in_int64 a" "in_int64 b"
  shows "AddChecked a b = (if in_int64 (a + b) then Inr (a + b) else bad (Conflict ''amount overflow''))"
proof -
  have "wrap64 (max_int64 - b) = max_int64 - b" if "b > 0"
    by (rule wrap64_id) (use assms that in \<open>auto simp: in_int64_def min_int64_def max_int64_def\<close>)
  moreover have "wrap64 (min_int64 - b) = min_int64 - b" if "b < 0"
    by (rule wrap64_id) (use assms that in \<open>auto simp: in_int64_def min_int64_def max_int64_def\<close>)
  moreover have "wrap64 (a + b) = a + b" if "in_int64 (a + b)"
    using that by (rule wrap64_id)
  ultimately show ?thesis
    using assms by (auto simp: AddChecked_def in_int64_def min_int64_def max_int64_def)
qed

lemma AddChecked_Inr:
  "AddChecked a b = Inr c \<Longrightarrow> in_int64 a \<Longrightarrow> in_int64 b \<Longrightarrow> c = a + b \<and> in_int64 c"
  by (simp add: AddChecked_exact split: if_splits)

end
