(* ===== verification/GoTime.thy ===== *)
theory GoTime
  imports GoStrings
begin

text \<open>
  Go's \<open>time\<close> package as far as the source uses it.  An instant is an \<open>int\<close>, the nanoseconds since
  the Unix epoch; \<open>time.Duration\<close> is an \<open>int\<close> of nanoseconds.  \<open>format_rfc3339\<close> and
  \<open>format_rfc3339_nano\<close> are \<open>t.UTC().Format\<close> with the two layouts (the second drops trailing zeros
  of the fraction), \<open>parse_rfc3339\<close> is \<open>time.Parse(time.RFC3339, s)\<close> on the strict RFC 3339
  grammar, with fractional seconds and numeric zones.  The main fact is that formatting and
  parsing agree to the second (\<open>parse_format_rfc3339\<close>).
\<close>

definition second :: int where
  "second = 1000000000"

definition minute :: int where
  "minute = 60 * second"

definition hour :: int where
  "hour = 60 * minute"

section \<open>The proleptic Gregorian calendar\<close>

definition is_leap :: "int \<Rightarrow> bool" where
  "is_leap y \<longleftrightarrow> y mod 4 = 0 \<and> (y mod 100 \<noteq> 0 \<or> y mod 400 = 0)"

definition month_lengths :: "int \<Rightarrow> int list" where
  "month_lengths y = [31, (if is_leap y then 29 else 28), 31, 30, 31, 30, 31, 31, 30, 31, 30, 31]"

text \<open>Days from 0001-01-01 to the first day of a year.\<close>

definition days_before_year :: "int \<Rightarrow> int" where
  "days_before_year y = 365 * (y - 1) + (y - 1) div 4 - (y - 1) div 100 + (y - 1) div 400"

definition days_of_date :: "int \<Rightarrow> nat \<Rightarrow> int \<Rightarrow> int" where
  "days_of_date y m d = days_before_year y + sum_list (take (m - 1) (month_lengths y)) + (d - 1)"

text \<open>The year and the day of the year, by cutting off cycles of 400, 100, 4 and 1 years.\<close>

definition year_of_days :: "int \<Rightarrow> int \<times> int" where
  "year_of_days d =
     (let n400 = d div 146097; d1 = d mod 146097;
          n100 = min 3 (d1 div 36524); d2 = d1 - 36524 * n100;
          n4 = d2 div 1461; d3 = d2 mod 1461;
          n1 = min 3 (d3 div 365)
      in (400 * n400 + 100 * n100 + 4 * n4 + n1 + 1, d3 - 365 * n1))"

fun split_month :: "int list \<Rightarrow> nat \<Rightarrow> int \<Rightarrow> nat \<times> int" where
  "split_month [] m d = (m, d + 1)"
| "split_month (l # ls) m d = (if d < l then (m, d + 1) else split_month ls (m + 1) (d - l))"

definition date_of_days :: "int \<Rightarrow> int \<times> nat \<times> int" where
  "date_of_days n = (let (y, yd) = year_of_days n; (m, d) = split_month (month_lengths y) 1 yd in (y, m, d))"

lemma year_of_days:
  assumes "year_of_days n = (y, yd)"
  shows "days_before_year y + yd = n" and "0 \<le> yd" and "yd < sum_list (month_lengths y)"
proof -
  define n400 where "n400 = n div 146097"
  define d1 where "d1 = n mod 146097"
  define n100 where "n100 = min 3 (d1 div 36524)"
  define d2 where "d2 = d1 - 36524 * n100"
  define n4 where "n4 = d2 div 1461"
  define d3 where "d3 = d2 mod 1461"
  define n1 where "n1 = min 3 (d3 div 365)"
  have n: "n = 146097 * n400 + d1" and d1: "0 \<le> d1" "d1 < 146097"
    by (simp_all add: n400_def d1_def)
  have n100: "0 \<le> n100" "n100 \<le> 3" and d2: "0 \<le> d2" "n100 < 3 \<Longrightarrow> d2 < 36524" "d2 \<le> 36524"
    using d1 unfolding n100_def d2_def by linarith+
  have d2e: "d2 = 1461 * n4 + d3" and d3: "0 \<le> d3" "d3 < 1461"
    by (simp_all add: n4_def d3_def)
  have n4: "0 \<le> n4" "n4 \<le> 24" using d2 unfolding n4_def by linarith+
  have n4': "n4 = 24 \<Longrightarrow> n100 < 3 \<Longrightarrow> d3 < 1460" using d2 d2e by linarith
  have n1: "0 \<le> n1" "n1 \<le> 3" and yd: "0 \<le> d3 - 365 * n1" "n1 < 3 \<Longrightarrow> d3 - 365 * n1 < 365"
    "d3 - 365 * n1 \<le> 365"
    using d3 unfolding n1_def by linarith+
  have y: "y = 400 * n400 + 100 * n100 + 4 * n4 + n1 + 1" and yde: "yd = d3 - 365 * n1"
    using assms
    unfolding year_of_days_def Let_def n1_def d3_def n4_def d2_def n100_def d1_def n400_def prod.inject
    by (simp_all only:)
  have p4: "(y - 1) div 4 = 100 * n400 + 25 * n100 + n4"
    using n1 y by linarith
  have p100: "(y - 1) div 100 = 4 * n400 + n100"
    using n1 n4 y by linarith
  have p400: "(y - 1) div 400 = n400"
    using n1 n4 n100 y by linarith
  show "days_before_year y + yd = n"
  proof -
    have "d1 = 36524 * n100 + 1461 * n4 + d3" using d2_def d2e by simp
    moreover have "days_before_year y
        = 365 * (y - 1) + (100 * n400 + 25 * n100 + n4) - (4 * n400 + n100) + n400"
      by (simp only: days_before_year_def p4 p100 p400)
    ultimately show ?thesis using n y yde by simp
  qed
  show "0 \<le> yd" using yd yde by simp
  have leap: "is_leap y" if "n1 = 3" "n4 < 24 \<or> n100 = 3"
  proof -
    have y': "y = 400 * n400 + 100 * n100 + 4 * (n4 + 1)" using that y by simp
    then have "y = 4 * (100 * n400 + 25 * n100 + n4 + 1)" by simp
    then have "y mod 4 = 0" by simp
    moreover have "y mod 400 = 0" if "y mod 100 = 0"
    proof -
      define j where "j = y div 100 - 4 * n400 - n100"
      have "y = 100 * (y div 100)" using mult_div_mod_eq [of 100 y] that by simp
      with y' have "4 * (n4 + 1) = 100 * j" by (simp add: j_def)
      with n4 have "n4 = 24" by presburger
      with y' \<open>n4 < 24 \<or> n100 = 3\<close> have "y = 400 * (n400 + 1)" by simp
      then show ?thesis by simp
    qed
    ultimately show ?thesis by (auto simp: is_leap_def)
  qed
  have len: "sum_list (month_lengths y) = (if is_leap y then 366 else 365)"
    by (simp add: month_lengths_def)
  show "yd < sum_list (month_lengths y)"
  proof (cases "n1 = 3 \<and> (n4 < 24 \<or> n100 = 3)")
    case True
    then show ?thesis using leap len yd yde by simp
  next
    case False
    have "yd < 365"
    proof (cases "n1 < 3")
      case True
      then show ?thesis using yd(2) yde by simp
    next
      case n1_3: False
      then have "n4 = 24" "n100 < 3" using False n1 n4 n100 by auto
      then have "d3 < 1460" by (rule n4')
      then show ?thesis using n1_3 yde by simp
    qed
    then show ?thesis using len by simp
  qed
qed

lemma split_month:
  assumes "split_month ls m0 d = (m, r)" and "0 \<le> d" and "d < sum_list ls"
  shows "m0 \<le> m \<and> m < m0 + length ls \<and> 1 \<le> r \<and> r \<le> ls ! (m - m0)
    \<and> sum_list (take (m - m0) ls) + (r - 1) = d"
  using assms
proof (induction ls m0 d rule: split_month.induct)
  case (2 l ls m0 d)
  show ?case
  proof (cases "d < l")
    case True
    with 2 show ?thesis by auto
  next
    case False
    with 2 have IH: "m0 + 1 \<le> m \<and> m < m0 + 1 + length ls \<and> 1 \<le> r \<and> r \<le> ls ! (m - (m0 + 1))
        \<and> sum_list (take (m - (m0 + 1)) ls) + (r - 1) = d - l"
      by simp
    then obtain k where k: "m = m0 + 1 + k" by (metis le_Suc_ex)
    with IH show ?thesis by simp
  qed
qed simp

lemma date_of_days:
  assumes "date_of_days n = (y, m, d)"
  shows "days_of_date y m d = n" and "1 \<le> m" and "m \<le> 12"
    and "1 \<le> d" and "d \<le> month_lengths y ! (m - 1)"
proof -
  obtain y' yd where e: "year_of_days n = (y', yd)" by fastforce
  with assms have s: "split_month (month_lengths y) 1 yd = (m, d)" and [simp]: "y' = y"
    by (auto simp: date_of_days_def split: prod.splits)
  note yd = year_of_days [OF e, simplified]
  have len: "length (month_lengths y) = 12" by (simp add: month_lengths_def)
  from split_month [OF s yd(2,3)] len
  show "1 \<le> m" "m \<le> 12" "1 \<le> d" "d \<le> month_lengths y ! (m - 1)"
    and "days_of_date y m d = n"
    using yd(1) by (auto simp: days_of_date_def)
qed

section \<open>Formatting\<close>

definition pad2 :: "nat \<Rightarrow> string" where
  "pad2 n = [digit_char (n div 10 mod 10), digit_char (n mod 10)]"

definition pad_year :: "int \<Rightarrow> string" where
  "pad_year y = (if 0 \<le> y \<and> y < 10000
     then pad2 (nat y div 100) @ pad2 (nat y mod 100) else show_int y)"

definition epoch_day :: int where
  "epoch_day = 719162"  \<comment> \<open>1970-01-01 counted from 0001-01-01\<close>

definition format_date_time :: "int \<Rightarrow> string" where
  "format_date_time secs =
     (let (y, m, d) = date_of_days (secs div 86400 + epoch_day); sod = nat (secs mod 86400)
      in pad_year y @ ''-'' @ pad2 m @ ''-'' @ pad2 (nat d) @ ''T'' @
         pad2 (sod div 3600) @ '':'' @ pad2 (sod div 60 mod 60) @ '':'' @ pad2 (sod mod 60))"

definition format_rfc3339 :: "int \<Rightarrow> string" where
  "format_rfc3339 t = format_date_time (t div second) @ ''Z''"

definition nine_digits :: "nat \<Rightarrow> string" where
  "nine_digits n = map (\<lambda>i. digit_char (n div 10 ^ i mod 10)) (rev [0..<9])"

definition trim_zeros :: "string \<Rightarrow> string" where
  "trim_zeros s = rev (dropWhile (\<lambda>c. c = CHR ''0'') (rev s))"

definition format_rfc3339_nano :: "int \<Rightarrow> string" where
  "format_rfc3339_nano t =
     format_date_time (t div second) @
     (let f = nat (t mod second) in if f = 0 then [] else CHR ''.'' # trim_zeros (nine_digits f)) @ ''Z''"

section \<open>Parsing\<close>

definition parse_uint :: "string \<Rightarrow> nat \<Rightarrow> nat \<Rightarrow> nat option" where
  "parse_uint s lo hi =
     (if list_all is_digit s \<and> lo \<le> digits_val 0 s \<and> digits_val 0 s \<le> hi
      then Some (digits_val 0 s) else None)"

text \<open>The fraction: up to nine digits count, more are read and dropped.\<close>

definition fraction_ns :: "string \<Rightarrow> int" where
  "fraction_ns ds = int (digits_val 0 (take 9 ds) * 10 ^ (9 - length (take 9 ds)))"

definition parse_fraction :: "string \<Rightarrow> int \<times> string" where
  "parse_fraction s =
     (case s of
        c # r \<Rightarrow> (if c = CHR ''.'' \<and> takeWhile is_digit r \<noteq> []
                   then (fraction_ns (takeWhile is_digit r), dropWhile is_digit r) else (0, s))
      | [] \<Rightarrow> (0, s))"

text \<open>The zone: seconds east of UTC.\<close>

definition parse_zone :: "string \<Rightarrow> int option" where
  "parse_zone s =
     (if s = ''Z'' then Some 0
      else case s of
        [sg, h1, h2, c, m1, m2] \<Rightarrow>
          (case (parse_uint [h1, h2] 0 23, parse_uint [m1, m2] 0 59) of
             (Some h, Some m) \<Rightarrow>
               (if (sg = CHR ''-'' \<or> sg = CHR ''+'') \<and> c = CHR '':''
                then Some ((if sg = CHR ''-'' then -1 else 1) * int (h * 60 + m) * 60) else None)
           | _ \<Rightarrow> None)
      | _ \<Rightarrow> None)"

definition parse_tail :: "int \<Rightarrow> nat \<Rightarrow> int \<Rightarrow> nat \<Rightarrow> nat \<Rightarrow> nat \<Rightarrow> string \<Rightarrow> int option" where
  "parse_tail y m d h mi sec rest =
     (let (ns, z) = parse_fraction rest
      in map_option (\<lambda>off. ((days_of_date y m d - epoch_day) * 86400
             + int (h * 3600 + mi * 60 + sec) - off) * second + ns) (parse_zone z))"

definition parse_rfc3339 :: "string \<Rightarrow> int option" where
  "parse_rfc3339 s =
     (if length s < 19 then None
      else if s ! 4 = CHR ''-'' \<and> s ! 7 = CHR ''-'' \<and> s ! 10 = CHR ''T'' \<and> s ! 13 = CHR '':'' \<and> s ! 16 = CHR '':''
      then case (parse_uint (take 4 s) 0 9999, parse_uint (take 2 (drop 5 s)) 1 12,
                 parse_uint (take 2 (drop 11 s)) 0 23, parse_uint (take 2 (drop 14 s)) 0 59,
                 parse_uint (take 2 (drop 17 s)) 0 59) of
          (Some y, Some m, Some h, Some mi, Some sec) \<Rightarrow>
            (case parse_uint (take 2 (drop 8 s)) 1 (nat (month_lengths (int y) ! (m - 1))) of
               Some d \<Rightarrow> parse_tail (int y) m (int d) h mi sec (drop 19 s)
             | None \<Rightarrow> None)
        | _ \<Rightarrow> None
      else None)"

section \<open>Formatting and parsing agree\<close>

text \<open>The instants whose year has four digits.\<close>

definition four_digit_year :: "int \<Rightarrow> bool" where
  "four_digit_year t \<longleftrightarrow> (case date_of_days (t div second div 86400 + epoch_day) of (y, _, _) \<Rightarrow> 0 \<le> y \<and> y < 10000)"

lemma parse_uint_pad2: "n < 100 \<Longrightarrow> lo \<le> n \<Longrightarrow> n \<le> hi \<Longrightarrow> parse_uint (pad2 n) lo hi = Some n"
  by (simp add: parse_uint_def pad2_def)

lemma parse_uint_year:
  assumes "0 \<le> y" "y < 10000"
  shows "parse_uint (pad_year y) 0 9999 = Some (nat y)"
proof -
  have "nat y div 100 < 100" using assms by simp
  then show ?thesis using assms by (simp add: parse_uint_def pad_year_def pad2_def)
qed

lemma length_pad2 [simp]: "length (pad2 n) = 2"
  by (simp add: pad2_def)

lemma length_pad_year [simp]: "0 \<le> y \<Longrightarrow> y < 10000 \<Longrightarrow> length (pad_year y) = 4"
  by (simp add: pad_year_def)

text \<open>The fixed positions of a formatted date and time.\<close>

lemma date_time_slices:
  assumes "length Y = 4" "length M = 2" "length D = 2" "length H = 2" "length I = 2" "length S = 2"
    and "s = Y @ ''-'' @ M @ ''-'' @ D @ ''T'' @ H @ '':'' @ I @ '':'' @ S @ rest"
  shows "\<not> length s < 19" "s ! 4 = CHR ''-''" "s ! 7 = CHR ''-''" "s ! 10 = CHR ''T''"
    "s ! 13 = CHR '':''" "s ! 16 = CHR '':''"
    "take 4 s = Y" "take 2 (drop 5 s) = M" "take 2 (drop 8 s) = D" "take 2 (drop 11 s) = H"
    "take 2 (drop 14 s) = I" "take 2 (drop 17 s) = S" "drop 19 s = rest"
  unfolding assms(7) using assms(1-6) by (simp_all add: nth_append)

lemma parse_tail_Z [simp]:
  "parse_tail y m d h mi sec ''Z'' =
     Some (((days_of_date y m d - epoch_day) * 86400 + int (h * 3600 + mi * 60 + sec)) * second)"
  by (simp add: parse_tail_def parse_fraction_def parse_zone_def)

theorem parse_format_rfc3339:
  assumes "four_digit_year t"
  shows "parse_rfc3339 (format_rfc3339 t) = Some (t div second * second)"
proof -
  define secs where "secs = t div second"
  define sod where "sod = nat (secs mod 86400)"
  obtain y m d where date: "date_of_days (secs div 86400 + epoch_day) = (y, m, d)"
    by (metis prod_cases3)
  with assms have y: "0 \<le> y" "y < 10000" by (auto simp: four_digit_year_def secs_def)
  note dd = date_of_days [OF date]
  have "month_lengths y ! (m - 1) \<le> 31"
    using dd(2,3) by (auto simp: month_lengths_def nth_Cons' split: nat.split)
  with dd(4,5) have d: "d \<le> 31" by simp
  have sod: "sod < 86400" "int sod = secs mod 86400"
    by (simp_all add: sod_def nat_less_iff)
  define rest where "rest = ''Z''"
  have fmt: "format_rfc3339 t = pad_year y @ ''-'' @ pad2 m @ ''-'' @ pad2 (nat d) @ ''T'' @
      pad2 (sod div 3600) @ '':'' @ pad2 (sod div 60 mod 60) @ '':'' @ pad2 (sod mod 60) @ rest"
    by (simp add: format_rfc3339_def format_date_time_def date flip: secs_def sod_def rest_def)
  note sl = date_time_slices [OF length_pad_year [OF y] length_pad2 length_pad2 length_pad2
      length_pad2 length_pad2 fmt]
  have pm: "parse_uint (pad2 m) 1 12 = Some m"
    using dd by (intro parse_uint_pad2) auto
  have pd: "parse_uint (pad2 (nat d)) 1 (nat (month_lengths (int (nat y)) ! (m - 1))) = Some (nat d)"
    using dd d y by (intro parse_uint_pad2) auto
  have ph: "parse_uint (pad2 (sod div 3600)) 0 23 = Some (sod div 3600)"
    "parse_uint (pad2 (sod div 60 mod 60)) 0 59 = Some (sod div 60 mod 60)"
    "parse_uint (pad2 (sod mod 60)) 0 59 = Some (sod mod 60)"
    using sod by (intro parse_uint_pad2; simp)+
  have hms: "sod div 3600 * 3600 + sod div 60 mod 60 * 60 + sod mod 60 = sod"
  proof -
    have "sod div 3600 = sod div 60 div 60" by (simp flip: div_mult2_eq)
    moreover have "sod div 60 div 60 * 60 + sod div 60 mod 60 = sod div 60" by simp
    moreover have "sod div 60 * 60 + sod mod 60 = sod" by simp
    ultimately show ?thesis by linarith
  qed
  have "parse_rfc3339 (format_rfc3339 t) =
      parse_tail (int (nat y)) m (int (nat d)) (sod div 3600) (sod div 60 mod 60) (sod mod 60) rest"
    by (simp only: parse_rfc3339_def sl pm pd ph parse_uint_year [OF y]
        if_False if_True option.case prod.case simp_thms)
  also have "\<dots> = Some ((secs div 86400 * 86400 + int sod) * second)"
    using dd(1,4) y hms by (simp add: rest_def)
  also have "\<dots> = Some (t div second * second)"
    using sod by (simp flip: secs_def)
  finally show ?thesis .
qed

lemma four_digit_year_range:
  assumes "0 \<le> t" and "t < 253402300800 * second"
  shows "four_digit_year t"
proof -
  define n where "n = t div second div 86400 + epoch_day"
  obtain y m d where date: "date_of_days n = (y, m, d)" by (metis prod_cases3)
  then obtain yd where e: "year_of_days n = (y, yd)"
    by (auto simp: date_of_days_def split: prod.splits)
  note yd = year_of_days [OF e]
  have "sum_list (month_lengths y) \<le> 366" by (simp add: month_lengths_def)
  with yd(3) have yd3: "yd < 366" by simp
  have n: "0 \<le> n" "n < 3652059"
    using assms by (simp_all add: n_def epoch_day_def second_def)
  obtain p q4 q100 q400 where p: "p = y - 1"
    and q: "q4 = p div 4" "q100 = p div 100" "q400 = p div 400" by blast
  have bounds: "4 * q4 \<le> p" "p < 4 * q4 + 4" "100 * q100 \<le> p" "p < 100 * q100 + 100"
    "400 * q400 \<le> p" "p < 400 * q400 + 400"
    unfolding q by linarith+
  have e: "365 * p + q4 - q100 + q400 + yd = n"
    using yd(1) by (simp add: days_before_year_def q p)
  have "0 \<le> y" using e yd(2) yd3 n bounds p by linarith
  moreover have "y < 10000"
  proof (rule ccontr)
    assume "\<not> y < 10000"
    then consider "p = 9999" | "10000 \<le> p" using p by linarith
    then show False
    proof cases
      case 1
      with e q yd(2) n show False by simp
    next
      case 2
      with e yd(2) n bounds show False by linarith
    qed
  qed
  ultimately show ?thesis using date by (simp add: four_digit_year_def flip: n_def)
qed

text \<open>Sample values.\<close>

lemma format_epoch: "format_rfc3339 0 = ''1970-01-01T00:00:00Z''"
  by code_simp

end
