(* ===== verification/Ledger.thy ===== *)
theory Ledger
  imports Wire TradeState GoTime
begin

text \<open>
  The hash-chained ledger of a colony: \<open>appendLedger\<close> of \<open>service/common.go\<close> and the chain the
  migration check of \<open>storage/pg_migrate.go\<close> demands.  \<open>json.Marshal\<close> cannot fail on the payloads
  the handlers build (maps of strings, numbers and booleans), so \<open>appendLedger\<close> has no error here.
  Everything a handler writes to a ledger goes through \<open>appendLedger\<close>, which keeps \<open>ledger_ok\<close>.
\<close>

definition appendLedger :: "prims \<Rightarrow> ctx \<Rightarrow> string \<Rightarrow> string \<Rightarrow> json \<Rightarrow> colony \<Rightarrow> colony" where
  "appendLedger pr cx typ actorUserID payload c =
     (let raw = Some payload;
          seq = wrap64 (c_next_ledger_seq c + 1);
          prevHash = (if c_last_ledger_hash c = [] \<and> c_ledger c \<noteq> []
                      then le_hash (last (c_ledger c)) else c_last_ledger_hash c);
          time = format_rfc3339 (now cx);
          hash = HashLedgerEntry pr seq (c_id c) time typ actorUserID raw prevHash;
          entry = \<lparr>le_seq = seq, le_colony_id = c_id c, le_time = time, le_type = typ,
                   le_actor_user_id = actorUserID, le_payload = raw, le_prev_hash = prevHash, le_hash = hash\<rparr>
      in c\<lparr>c_next_ledger_seq := seq, c_ledger := c_ledger c @ [entry], c_last_ledger_hash := hash\<rparr>)"

section \<open>Hash chains\<close>

definition entry_hash_ok :: "prims \<Rightarrow> ledger_entry \<Rightarrow> bool" where
  "entry_hash_ok pr e \<longleftrightarrow>
     HashLedgerEntry pr (le_seq e) (le_colony_id e) (le_time e) (le_type e) (le_actor_user_id e)
       (le_payload e) (le_prev_hash e) = le_hash e"

text \<open>Entries from position \<open>i\<close> on, the entry before them having the hash \<open>prev\<close>.\<close>

fun chain_ok :: "prims \<Rightarrow> nat \<Rightarrow> string \<Rightarrow> ledger_entry list \<Rightarrow> bool" where
  "chain_ok pr i prev [] \<longleftrightarrow> True"
| "chain_ok pr i prev (e # es) \<longleftrightarrow>
     le_seq e = wrap64 (int i + 1) \<and> le_prev_hash e = prev \<and> entry_hash_ok pr e
     \<and> chain_ok pr (Suc i) (le_hash e) es"

definition head_hash :: "ledger_entry list \<Rightarrow> string" where
  "head_hash es = (if es = [] then [] else le_hash (last es))"

definition ledger_ok :: "prims \<Rightarrow> colony \<Rightarrow> bool" where
  "ledger_ok pr c \<longleftrightarrow>
     chain_ok pr 0 [] (c_ledger c) \<and> c_next_ledger_seq c = wrap64 (int (length (c_ledger c)))
     \<and> c_last_ledger_hash c = head_hash (c_ledger c)"

lemma chain_ok_snoc:
  "chain_ok pr i prev (es @ [e]) \<longleftrightarrow>
   chain_ok pr i prev es \<and> le_seq e = wrap64 (int (i + length es) + 1)
   \<and> le_prev_hash e = (if es = [] then prev else le_hash (last es)) \<and> entry_hash_ok pr e"
  by (induction es arbitrary: i prev) auto

lemma wrap64_add_left [simp]: "wrap64 (wrap64 a + b) = wrap64 (a + b)"
  by (simp add: wrap64_def)

lemma wrap64_add_right [simp]: "wrap64 (a + wrap64 b) = wrap64 (a + b)"
  by (simp add: wrap64_def)

lemma wrap64_0 [simp]: "wrap64 0 = 0"
  by (simp add: wrap64_def)

lemma ledger_ok_appendLedger [simp]:
  "ledger_ok pr c \<Longrightarrow> ledger_ok pr (appendLedger pr cx typ actor payload c)"
  by (auto simp: ledger_ok_def appendLedger_def Let_def chain_ok_snoc entry_hash_ok_def head_hash_def
      add.commute)

lemma ledger_ok_new [simp]: "c_ledger c = [] \<Longrightarrow> c_next_ledger_seq c = 0 \<Longrightarrow> c_last_ledger_hash c = [] \<Longrightarrow>
  ledger_ok pr c"
  by (simp add: ledger_ok_def head_hash_def)

text \<open>\<open>ledger_ok\<close> looks at the three ledger fields only.\<close>

lemma ledger_ok_frame:
  "c_ledger c' = c_ledger c \<Longrightarrow> c_next_ledger_seq c' = c_next_ledger_seq c \<Longrightarrow>
   c_last_ledger_hash c' = c_last_ledger_hash c \<Longrightarrow> ledger_ok pr c' = ledger_ok pr c"
  by (simp add: ledger_ok_def)

lemma appendLedger_frame [simp, frame_simps]:
  "c_id (appendLedger pr cx t a p c) = c_id c"
  "c_name (appendLedger pr cx t a p c) = c_name c"
  "c_public_key (appendLedger pr cx t a p c) = c_public_key c"
  "c_private_key (appendLedger pr cx t a p c) = c_private_key c"
  "c_created_at (appendLedger pr cx t a p c) = c_created_at c"
  "c_trusted_colonies (appendLedger pr cx t a p c) = c_trusted_colonies c"
  "c_accounts (appendLedger pr cx t a p c) = c_accounts c"
  "c_processed_envelopes (appendLedger pr cx t a p c) = c_processed_envelopes c"
  "c_outbox (appendLedger pr cx t a p c) = c_outbox c"
  "c_net_obligations (appendLedger pr cx t a p c) = c_net_obligations c"
  "c_net_claims (appendLedger pr cx t a p c) = c_net_claims c"
  "c_minted_total (appendLedger pr cx t a p c) = c_minted_total c"
  "c_mint_cap (appendLedger pr cx t a p c) = c_mint_cap c"
  "c_require_dual_control (appendLedger pr cx t a p c) = c_require_dual_control c"
  by (simp_all add: appendLedger_def Let_def)

lemma appendLedger_ledger:
  "\<exists>e. c_ledger (appendLedger pr cx t a p c) = c_ledger c @ [e] \<and> le_type e = t \<and> le_actor_user_id e = a
     \<and> le_payload e = Some p \<and> le_time e = format_rfc3339 (now cx)"
  by (simp add: appendLedger_def Let_def)

section \<open>Tamper evidence\<close>

text \<open>
  Two chains of the same length with the same last hash are the same chain when the hash has no
  collision on the texts that are hashed; the entries are compared by the text that is hashed.  The
  text joins the fields with bars, so it determines them only when no field before the payload
  contains a bar; the identifiers, times and types the program writes contain none.
\<close>

definition entry_text :: "ledger_entry \<Rightarrow> string" where
  "entry_text e = show_int (le_seq e) @ ''|'' @ le_colony_id e @ ''|'' @ le_time e @ ''|'' @ le_type e @ ''|'' @
     le_actor_user_id e @ ''|'' @ le_prev_hash e @ ''|'' @ raw_text (le_payload e)"

lemma entry_hash_text: "entry_hash_ok pr e \<longleftrightarrow> hex_encode (sha256 pr (entry_text e)) = le_hash e"
  by (simp add: entry_hash_ok_def HashLedgerEntry_def entry_text_def)

lemma bar_split:
  fixes c :: char
  shows "c \<notin> set a \<Longrightarrow> c \<notin> set a' \<Longrightarrow> a @ c # b = a' @ c # b' \<longleftrightarrow> a = a' \<and> b = b'"
  using split_first_Some [of c "a @ c # b" a b] split_first_Some [of c "a @ c # b" a' b'] by auto

definition no_bar :: "ledger_entry \<Rightarrow> bool" where
  "no_bar e \<longleftrightarrow> CHR ''|'' \<notin> set (le_colony_id e) \<union> set (le_time e) \<union> set (le_type e) \<union> set (le_actor_user_id e)
     \<union> set (le_prev_hash e)"

lemma show_int_no_bar: "CHR ''|'' \<notin> set (show_int i)"
proof -
  have "\<not> is_digit (CHR ''|'')" by (simp add: is_digit_def code_def)
  then show ?thesis using show_nat_digits by (auto simp: show_int_def)
qed

text \<open>The hashed text determines every field but the payload, and the payload's bytes.\<close>

lemma entry_text_inject:
  assumes "no_bar e" and "no_bar e'" and "entry_text e = entry_text e'"
  shows "show_int (le_seq e) = show_int (le_seq e') \<and> le_colony_id e = le_colony_id e' \<and> le_time e = le_time e'
    \<and> le_type e = le_type e' \<and> le_actor_user_id e = le_actor_user_id e' \<and> le_prev_hash e = le_prev_hash e'
    \<and> raw_text (le_payload e) = raw_text (le_payload e')"
  using assms by (simp add: entry_text_def no_bar_def bar_split show_int_no_bar)

definition no_collision :: "prims \<Rightarrow> ledger_entry list \<Rightarrow> ledger_entry list \<Rightarrow> bool" where
  "no_collision pr es es' \<longleftrightarrow> (\<forall>e \<in> set es. \<forall>e' \<in> set es'.
     sha256 pr (entry_text e) = sha256 pr (entry_text e') \<longrightarrow> entry_text e = entry_text e')"

text \<open>The last hash of a chain commits to all of it.\<close>

lemma chain_tamper_evident:
  assumes "chain_ok pr 0 [] es" and "chain_ok pr 0 [] es'" and "length es = length es'"
    and "list_all no_bar es" and "list_all no_bar es'" and "no_collision pr es es'"
    and "head_hash es = head_hash es'"
  shows "map entry_text es = map entry_text es'"
  using assms
proof (induction es arbitrary: es' rule: rev_induct)
  case (snoc e es)
  then obtain fs f where es': "es' = fs @ [f]" by (metis append_is_Nil_conv length_0_conv not_Cons_self2 rev_exhaust)
  have len: "length es = length fs" using snoc.prems(3) es' by simp
  have chains: "chain_ok pr 0 [] es" "chain_ok pr 0 [] fs" and
    last: "entry_hash_ok pr e" "entry_hash_ok pr f" "le_prev_hash e = (if es = [] then [] else le_hash (last es))"
      "le_prev_hash f = (if fs = [] then [] else le_hash (last fs))"
    using snoc.prems(1,2) es' by (simp_all add: chain_ok_snoc)
  from last(1,2) snoc.prems(7) es' have "sha256 pr (entry_text e) = sha256 pr (entry_text f)"
    by (simp add: entry_hash_text head_hash_def) (metis hex_encode_inject)
  with snoc.prems(6) es' have same: "entry_text e = entry_text f" by (simp add: no_collision_def)
  with entry_text_inject [of e f] snoc.prems(4,5) es' have "le_prev_hash e = le_prev_hash f" by simp
  with last(3,4) len have "head_hash es = head_hash fs" by (simp add: head_hash_def split: if_splits)
  with snoc.IH [OF chains len] snoc.prems(4-6) es' same show ?case by (simp add: no_collision_def)
qed simp

end
