(* ===== verification/Store.thy ===== *)
theory Store
  imports Ledger
begin

text \<open>
  The file store of \<open>storage/store.go\<close>: reads and copy-on-write updates of the state, the empty
  state, and the repairs made when a state file is loaded.  Copying a state through JSON is the
  identity here (nil and empty maps are both the empty list), writing the file may fail with
  \<open>save_error\<close>.  The locale \<open>state_invariant\<close> is the interface between the store and every invariant
  of the state: what a successful callback keeps, the store keeps.
\<close>

section \<open>Reads and updates\<close>

definition StoreReadScoped :: "(app_state \<Rightarrow> 'a result) \<Rightarrow> app_state \<Rightarrow> 'a result" where
  "StoreReadScoped fn s = fn s"

definition StoreUpdateScoped :: "ctx \<Rightarrow> 'a handler \<Rightarrow> 'a handler" where
  "StoreUpdateScoped cx fn s =
     (case fn s of
        (Inl err, work) \<Rightarrow> (Inl err, s)
      | (Inr out, work) \<Rightarrow>
          (case save_error cx of
             Some err \<Rightarrow> (Inl (PlainErr err), s)
           | None \<Rightarrow> (Inr out, work\<lparr>meta_updated_at := format_rfc3339 (now cx)\<rparr>)))"

lemma StoreUpdateScoped_Inl:
  "StoreUpdateScoped cx fn s = (Inl e, s') \<Longrightarrow> s' = s"
  by (auto simp: StoreUpdateScoped_def split: prod.splits sum.splits option.splits)

lemma StoreUpdateScoped_Inr:
  "StoreUpdateScoped cx fn s = (Inr out, s') \<longleftrightarrow>
   (\<exists>work. fn s = (Inr out, work) \<and> save_error cx = None \<and>
      s' = work\<lparr>meta_updated_at := format_rfc3339 (now cx)\<rparr>)"
  by (auto simp: StoreUpdateScoped_def split: prod.splits sum.splits option.splits)

definition UserCount :: "app_state \<Rightarrow> nat" where
  "UserCount s = (case st_counts s of Some n \<Rightarrow> n_users n | None \<Rightarrow> length (st_users s))"

definition newEmptyState :: "ctx \<Rightarrow> app_state" where
  "newEmptyState cx =
   \<lparr>meta_created_at = format_rfc3339 (now cx), meta_updated_at = format_rfc3339 (now cx),
    st_colonies = [], st_users = [], st_sessions = [], st_trades = [], st_bundles = [],
    st_pending_actions = [], st_counts = None\<rparr>"

section \<open>Repairs at load\<close>

definition minted_amount :: "ledger_entry \<Rightarrow> int" where
  "minted_amount e =
     (if le_type e \<noteq> ''funds_minted'' then 0
      else case raw_members (le_payload e) of
        None \<Rightarrow> 0
      | Some ms \<Rightarrow> (case get_int ''amount'' ms of None \<Rightarrow> 0 | Some a \<Rightarrow> if a > 0 then a else 0))"

definition backfillMintedTotal :: "colony \<Rightarrow> colony" where
  "backfillMintedTotal c =
     (if c_minted_total c \<noteq> 0 then c
      else c\<lparr>c_minted_total := foldl (\<lambda>acc e. wrap64 (acc + minted_amount e)) 0 (c_ledger c)\<rparr>)"

definition backfillLedgerHead :: "colony \<Rightarrow> colony" where
  "backfillLedgerHead c =
     (if c_last_ledger_hash c = [] \<and> c_ledger c \<noteq> []
      then c\<lparr>c_last_ledger_hash := le_hash (last (c_ledger c))\<rparr> else c)"

definition LoadStateFile :: "app_state \<Rightarrow> app_state" where
  "LoadStateFile s =
     s\<lparr>st_colonies := map (\<lambda>(k, c). (k, backfillLedgerHead (backfillMintedTotal c))) (st_colonies s)\<rparr>"

lemma backfillLedgerHead_ok:
  assumes "chain_ok pr 0 [] (c_ledger c)" and "c_next_ledger_seq c = wrap64 (int (length (c_ledger c)))"
    and "c_last_ledger_hash c = []"
  shows "ledger_ok pr (backfillLedgerHead c)"
  using assms by (auto simp: backfillLedgerHead_def ledger_ok_def head_hash_def)

lemma LoadStateFile_idle:
  assumes "gall (\<lambda>k c. ledger_ok pr c \<and> c_minted_total c \<noteq> 0) (st_colonies s)"
  shows "LoadStateFile s = s"
proof -
  have "backfillLedgerHead (backfillMintedTotal c) = c" if "ledger_ok pr c" "c_minted_total c \<noteq> 0" for c
    using that by (auto simp: backfillLedgerHead_def backfillMintedTotal_def ledger_ok_def head_hash_def)
  then have "map (\<lambda>(k, c). (k, backfillLedgerHead (backfillMintedTotal c))) cs = cs"
    if "gall (\<lambda>k c. ledger_ok pr c \<and> c_minted_total c \<noteq> 0) cs" for cs :: "colony gmap"
    using that by (induction cs) auto
  with assms show ?thesis by (simp add: LoadStateFile_def)
qed

lemma backfill_idempotent:
  "backfillLedgerHead (backfillMintedTotal (backfillLedgerHead (backfillMintedTotal c))) =
   backfillLedgerHead (backfillMintedTotal c)"
  by (auto simp: backfillLedgerHead_def backfillMintedTotal_def)

lemma LoadStateFile_idempotent: "LoadStateFile (LoadStateFile s) = LoadStateFile s"
  by (simp add: LoadStateFile_def backfill_idempotent case_prod_beta comp_def)

section \<open>Invariants of the state\<close>

text \<open>
  The contract between the store and an invariant: the invariant may not depend on the update
  time, which the store sets itself.  Its consequence is that a callback has to keep the invariant
  only when it succeeds.
\<close>

locale state_invariant =
  fixes I :: "app_state \<Rightarrow> bool"
  assumes ignores_updated_at: "I (s\<lparr>meta_updated_at := t\<rparr>) = I s"
begin

lemma store_update:
  assumes "I s" and "\<And>out work. fn s = (Inr out, work) \<Longrightarrow> I work"
  shows "I (snd (StoreUpdateScoped cx fn s))"
  using assms
  by (auto simp: StoreUpdateScoped_def ignores_updated_at split: prod.splits sum.splits option.splits)

lemma store_update_eq:
  assumes "StoreUpdateScoped cx fn s = (r, s')" and "I s" and "\<And>out work. fn s = (Inr out, work) \<Longrightarrow> I work"
  shows "I s'"
  using store_update [of s fn cx] assms by simp

end

text \<open>Relations between the state before and after, in the same form.\<close>

locale state_relation =
  fixes R :: "app_state \<Rightarrow> app_state \<Rightarrow> bool"
  assumes same: "R s s"
    and sees_through_updated_at: "R s (s'\<lparr>meta_updated_at := t\<rparr>) = R s s'"
begin

lemma store_update:
  assumes "\<And>out work. fn s = (Inr out, work) \<Longrightarrow> R s work"
  shows "R s (snd (StoreUpdateScoped cx fn s))"
  using assms
  by (auto simp: StoreUpdateScoped_def sees_through_updated_at same
      split: prod.splits sum.splits option.splits)

end

end
