(* ===== verification/Views.thy ===== *)
theory Views
  imports TradeState Crypto "HOL-Library.Multiset"
begin

text \<open>
  What a client sees: the view functions of \<open>service/view.go\<close> and the sort orders of
  \<open>domain/util.go\<close>.  A view is built from values of the state; the copies the Go code makes of maps
  and slices are the values themselves here.  The lemmas say what a view shows and that sorting
  only permutes.
\<close>

section \<open>Sorting\<close>

text \<open>
  \<open>sort.Slice\<close> with a \<open>less\<close> function, as an insertion sort.  The Go function does not fix the order
  of elements neither of which is less; here they keep the order of the list, which for the lists
  the code sorts is the unspecified iteration order of a map.
\<close>

fun insort_by :: "('a \<Rightarrow> 'a \<Rightarrow> bool) \<Rightarrow> 'a \<Rightarrow> 'a list \<Rightarrow> 'a list" where
  "insort_by lt x [] = [x]"
| "insort_by lt x (y # ys) = (if lt y x then y # insort_by lt x ys else x # y # ys)"

definition sort_slice :: "('a \<Rightarrow> 'a \<Rightarrow> bool) \<Rightarrow> 'a list \<Rightarrow> 'a list" where
  "sort_slice lt xs = foldr (insort_by lt) xs []"

lemma mset_insort_by [simp]: "mset (insort_by lt x ys) = add_mset x (mset ys)"
  by (induction ys) auto

lemma mset_sort_slice [simp]: "mset (sort_slice lt xs) = mset xs"
  by (induction xs) (auto simp: sort_slice_def)

lemma set_sort_slice [simp]: "set (sort_slice lt xs) = set xs"
  by (metis mset_sort_slice set_mset_mset)

lemma length_sort_slice [simp]: "length (sort_slice lt xs) = length xs"
  by (metis mset_sort_slice size_mset)

lemma distinct_sort_slice [simp]: "distinct (sort_slice lt xs) = distinct xs"
  by (metis mset_eq_imp_distinct_iff mset_sort_slice)

definition weak_order :: "('a \<Rightarrow> 'a \<Rightarrow> bool) \<Rightarrow> bool" where
  "weak_order lt \<longleftrightarrow> (\<forall>a b. lt a b \<longrightarrow> \<not> lt b a) \<and> (\<forall>a b c. \<not> lt b a \<longrightarrow> \<not> lt c b \<longrightarrow> \<not> lt c a)"

lemma sorted_insort_by:
  assumes "weak_order lt"
  shows "sorted_wrt (\<lambda>a b. \<not> lt b a) ys \<Longrightarrow> sorted_wrt (\<lambda>a b. \<not> lt b a) (insort_by lt x ys)"
proof (induction ys)
  case (Cons y ys)
  have set: "set (insort_by lt x ys) = insert x (set ys)"
    by (metis mset_insort_by set_mset_add_mset_insert set_mset_mset)
  show ?case
  proof (cases "lt y x")
    case True
    with assms have "\<not> lt x y" unfolding weak_order_def by blast
    with True Cons show ?thesis by (auto simp: set)
  next
    case False
    with assms have "\<not> lt z y \<Longrightarrow> \<not> lt z x" for z unfolding weak_order_def by blast
    with False Cons show ?thesis by auto
  qed
qed simp

lemma sorted_sort_slice: "weak_order lt \<Longrightarrow> sorted_wrt (\<lambda>a b. \<not> lt b a) (sort_slice lt xs)"
  by (induction xs) (auto simp: sort_slice_def intro: sorted_insort_by)

definition SortTrades :: "trade_view list \<Rightarrow> trade_view list" where
  "SortTrades = sort_slice (\<lambda>a b. if tv_created_at a = tv_created_at b then tv_id a > tv_id b
                                  else tv_created_at a > tv_created_at b)"

definition SortUsers :: "user_view list \<Rightarrow> user_view list" where
  "SortUsers = sort_slice (\<lambda>a b. if uv_colony_id a = uv_colony_id b then uv_username a < uv_username b
                                 else uv_colony_id a < uv_colony_id b)"

definition SortColonies :: "colony_view list \<Rightarrow> colony_view list" where
  "SortColonies = sort_slice (\<lambda>a b. cv_name a < cv_name b)"

definition SortAccounts :: "account_view list \<Rightarrow> account_view list" where
  "SortAccounts = sort_slice (\<lambda>a b. if av_colony_name a = av_colony_name b then av_username a < av_username b
                                    else av_colony_name a < av_colony_name b)"

section \<open>Views\<close>

definition toUserView :: "user \<Rightarrow> user_view" where
  "toUserView u =
   \<lparr>uv_id = u_id u, uv_username = u_username u, uv_display_name = u_display_name u,
    uv_colony_id = u_colony_id u, uv_roles = sort (u_roles u), uv_created_at = u_created_at u,
    uv_active = u_active u, uv_mfa_enabled = u_mfa_enabled u\<rparr>"

definition toColonyView :: "colony \<Rightarrow> colony_view" where
  "toColonyView c =
   \<lparr>cv_id = c_id c, cv_name = c_name c, cv_public_key = c_public_key c, cv_created_at = c_created_at c,
    cv_trusted_colonies = c_trusted_colonies c, cv_net_obligations = c_net_obligations c,
    cv_net_claims = c_net_claims c, cv_mint_cap = EffectiveMintCap c, cv_minted_total = c_minted_total c,
    cv_require_dual_control = c_require_dual_control c\<rparr>"

definition toTradeView :: "app_state \<Rightarrow> trade \<Rightarrow> trade_view" where
  "toTradeView s t =
     (let seller = map_of (st_users s) (t_seller_user_id t);
          buyer = map_of (st_users s) (t_buyer_user_id t);
          sellerColony = map_of (st_colonies s) (t_seller_colony_id t);
          buyerColony = map_of (st_colonies s) (t_buyer_colony_id t)
      in \<lparr>tv_id = t_id t, tv_asset = t_asset t, tv_price = t_price t,
          tv_seller_user_id = t_seller_user_id t,
          tv_seller_name = (case seller of None \<Rightarrow> [] | Some u \<Rightarrow> u_display_name u),
          tv_seller_colony_id = t_seller_colony_id t,
          tv_seller_colony_name = (case sellerColony of None \<Rightarrow> [] | Some c \<Rightarrow> c_name c),
          tv_buyer_user_id = t_buyer_user_id t,
          tv_buyer_name = (case buyer of None \<Rightarrow> [] | Some u \<Rightarrow> u_display_name u),
          tv_buyer_colony_id = t_buyer_colony_id t,
          tv_buyer_colony_name = (case buyerColony of None \<Rightarrow> [] | Some c \<Rightarrow> c_name c),
          tv_status = t_status t, tv_created_at = t_created_at t, tv_accepted_at = t_accepted_at t,
          tv_settled_at = t_settled_at t, tv_completed_at = t_completed_at t,
          tv_offer_envelope_id = t_offer_envelope_id t,
          tv_acceptance_envelope_id = t_acceptance_envelope_id t,
          tv_settlement_envelope_id = t_settlement_envelope_id t,
          tv_expires_at = t_expires_at t, tv_refunded_at = t_refunded_at t\<rparr>)"

text \<open>\<open>userViewFor\<close>: who is neither a super admin, nor the user, nor of the user's colony learns
  neither the roles, nor the creation time, nor the MFA state.\<close>

definition userViewFor :: "user \<Rightarrow> user \<Rightarrow> user_view" where
  "userViewFor actor u =
     (if HasRole actor ''super_admin'' \<or> u_id actor = u_id u \<or>
         (u_colony_id actor \<noteq> [] \<and> u_colony_id actor = u_colony_id u)
      then toUserView u
      else \<lparr>uv_id = u_id u, uv_username = u_username u, uv_display_name = u_display_name u,
            uv_colony_id = u_colony_id u, uv_roles = [], uv_created_at = [], uv_active = u_active u,
            uv_mfa_enabled = False\<rparr>)"

definition tradeVisibleToActor :: "trade \<Rightarrow> user \<Rightarrow> bool" where
  "tradeVisibleToActor t actor =
     (if HasRole actor ''super_admin'' then True
      else if u_id actor = t_seller_user_id t \<or> u_id actor = t_buyer_user_id t then True
      else if u_colony_id actor \<noteq> [] \<and>
              (u_colony_id actor = t_seller_colony_id t \<or> u_colony_id actor = t_buyer_colony_id t) then True
      else False)"

definition filterTradesForActor :: "app_state \<Rightarrow> user \<Rightarrow> trade_view list" where
  "filterTradesForActor s actor =
     SortTrades (map (\<lambda>(k, t). toTradeView s t) (filter (\<lambda>(k, t). tradeVisibleToActor t actor) (st_trades s)))"

lemma toTradeView_id [simp]: "tv_id (toTradeView s t) = t_id t"
  by (simp add: toTradeView_def Let_def)

lemma filterTradesForActor_set:
  "v \<in> set (filterTradesForActor s actor) \<longleftrightarrow>
   (\<exists>k t. (k, t) \<in> set (st_trades s) \<and> tradeVisibleToActor t actor \<and> v = toTradeView s t)"
  by (auto simp: filterTradesForActor_def SortTrades_def)

end
