(* ===== verification/Access.thy ===== *)
theory Access
  imports Views GoTime
begin

text \<open>
  Who may do what: roles over colonies, the users behind a bearer token and the sessions of
  \<open>service/common.go\<close>, with the predicates on users of \<open>domain/security.go\<close> they need.  A Go pointer
  to a user is the key it is stored under together with the record.  The lemmas characterise a
  successful token lookup and bound the sessions \<open>createSessionForUser\<close> leaves behind.
\<close>

section \<open>Roles over colonies\<close>

definition NormalizeUsername :: "string \<Rightarrow> string" where
  "NormalizeUsername username = to_lower (trim_space username)"

definition containsRole :: "string list \<Rightarrow> string \<Rightarrow> bool" where
  "containsRole roles role \<longleftrightarrow> list_ex (\<lambda>r. r = role) roles"

definition canManageColony :: "user \<Rightarrow> string \<Rightarrow> bool" where
  "canManageColony actor colonyID \<longleftrightarrow>
     HasRole actor ''super_admin'' \<or> (u_colony_id actor = colonyID \<and> HasRole actor ''colony_admin'')"

definition canRelay :: "user \<Rightarrow> string \<Rightarrow> bool" where
  "canRelay actor colonyID \<longleftrightarrow>
     HasRole actor ''super_admin'' \<or>
     (u_colony_id actor = colonyID \<and> (HasRole actor ''colony_admin'' \<or> HasRole actor ''relay_operator''))"

definition findUserByUsername :: "app_state \<Rightarrow> string \<Rightarrow> user option" where
  "findUserByUsername s username =
     map_option snd (find (\<lambda>(k, u). equal_fold (u_username u) username) (st_users s))"

definition userExistsByUsername :: "app_state \<Rightarrow> string \<Rightarrow> bool" where
  "userExistsByUsername s username \<longleftrightarrow> findUserByUsername s username \<noteq> None"

definition IsAdminUser :: "user \<Rightarrow> bool" where
  "IsAdminUser u \<longleftrightarrow> HasRole u ''super_admin'' \<or> HasRole u ''colony_admin''"

section \<open>The user behind a token\<close>

definition actorFromTokenNoMFA :: "ctx \<Rightarrow> app_state \<Rightarrow> string \<Rightarrow> (string \<times> user) result" where
  "actorFromTokenNoMFA cx s token =
     (if token = [] then bad (Unauthorized ''missing bearer token'')
      else case map_of (st_sessions s) token of
        None \<Rightarrow> bad (Unauthorized ''invalid session'')
      | Some sess \<Rightarrow>
          (case parse_rfc3339 (s_expires_at sess) of
             None \<Rightarrow> bad (Unauthorized ''session expired'')
           | Some expiresAt \<Rightarrow>
               if wall_clock cx > expiresAt then bad (Unauthorized ''session expired'')
               else case map_of (st_users s) (s_user_id sess) of
                 None \<Rightarrow> bad (Unauthorized ''user not found'')
               | Some user \<Rightarrow>
                   if \<not> u_active user then bad (Unauthorized ''user not found'')
                   else Inr (s_user_id sess, user)))"

definition mfa_enrollment_required :: app_error where
  "mfa_enrollment_required =
     \<lparr>err_status = 403, err_code = ''mfa_enrollment_required'',
      err_message = ''administrators must enable MFA before using the API'', err_reason = []\<rparr>"

definition actorFromToken :: "prims \<Rightarrow> ctx \<Rightarrow> app_state \<Rightarrow> string \<Rightarrow> (string \<times> user) result" where
  "actorFromToken pr cx s token =
     (case actorFromTokenNoMFA cx s token of
        Inl err \<Rightarrow> Inl err
      | Inr (k, user) \<Rightarrow>
          if admin_mfa_required pr \<and> IsAdminUser user \<and> \<not> u_mfa_enabled user
          then bad mfa_enrollment_required
          else Inr (k, user))"

section \<open>Sessions\<close>

definition MaxSessionsPerUser :: nat where
  "MaxSessionsPerUser = 10"

definition SessionTTL :: int where
  "SessionTTL = 24 * hour"

definition session_expired :: "ctx \<Rightarrow> session \<Rightarrow> bool" where
  "session_expired cx sess =
     (case parse_rfc3339 (s_expires_at sess) of None \<Rightarrow> True | Some exp \<Rightarrow> wall_clock cx > exp)"

text \<open>
  \<open>pruneSessions\<close>: the loop over the map drops what has expired and collects the user's other
  sessions; when these are more than \<open>keep\<close>, the first in the order of their creation strings go.
\<close>

definition pruneSessions :: "ctx \<Rightarrow> string \<Rightarrow> nat \<Rightarrow> app_state \<Rightarrow> app_state" where
  "pruneSessions cx userID keep s =
     (let live = filter (\<lambda>(tok, sess). \<not> session_expired cx sess) (st_sessions s);
          mine = map snd (filter (\<lambda>(tok, sess). s_user_id sess = userID) live)
      in if length mine \<le> keep then s\<lparr>st_sessions := live\<rparr>
         else let oldest = take (length mine - keep) (sort_slice (\<lambda>a b. s_created_at a < s_created_at b) mine)
              in s\<lparr>st_sessions := foldl (\<lambda>m sess. AList.delete (s_token sess) m) live oldest\<rparr>)"

definition createSessionForUser ::
    "prims \<Rightarrow> ctx \<Rightarrow> nat \<Rightarrow> user \<Rightarrow> auth_response handler" where
  "createSessionForUser pr cx draw user s =
     (case RandomBase64URL pr cx draw 32 of
        Inl err \<Rightarrow> (bad (InternalErr err), s)
      | Inr token \<Rightarrow>
          let s1 = pruneSessions cx (u_id user) (MaxSessionsPerUser - 1) s;
              t = wall_clock cx;
              sess = \<lparr>s_token = token, s_user_id = u_id user, s_created_at = format_rfc3339_nano t,
                      s_expires_at = format_rfc3339 (t + SessionTTL), s_last_seen_at = format_rfc3339 t\<rparr>
          in (Inr \<lparr>ar_token = token, ar_user = toUserView user\<rparr>,
              s1\<lparr>st_sessions := AList.update token sess (st_sessions s1)\<rparr>))"

section \<open>Facts\<close>

lemma actorFromTokenNoMFA_Inr:
  "actorFromTokenNoMFA cx s token = Inr (k, u) \<Longrightarrow>
   map_of (st_users s) k = Some u \<and> u_active u \<and> token \<noteq> [] \<and>
   (\<exists>sess exp. map_of (st_sessions s) token = Some sess \<and> s_user_id sess = k \<and>
      parse_rfc3339 (s_expires_at sess) = Some exp \<and> wall_clock cx \<le> exp)"
  by (auto simp: actorFromTokenNoMFA_def split: if_splits option.splits)

lemma actorFromToken_NoMFA:
  "actorFromToken pr cx s token = Inr (k, u) \<Longrightarrow> actorFromTokenNoMFA cx s token = Inr (k, u)"
  by (auto simp: actorFromToken_def split: if_splits sum.splits)

lemma actorFromToken_user:
  "actorFromToken pr cx s token = Inr (k, u) \<Longrightarrow> map_of (st_users s) k = Some u \<and> u_active u"
  using actorFromToken_NoMFA actorFromTokenNoMFA_Inr by blast

lemma pruneSessions_frame [simp, frame_simps]:
  "meta_created_at (pruneSessions cx uid n s) = meta_created_at s"
  "st_colonies (pruneSessions cx uid n s) = st_colonies s"
  "st_users (pruneSessions cx uid n s) = st_users s"
  "st_trades (pruneSessions cx uid n s) = st_trades s"
  "st_bundles (pruneSessions cx uid n s) = st_bundles s"
  "st_pending_actions (pruneSessions cx uid n s) = st_pending_actions s"
  by (simp_all add: pruneSessions_def Let_def)

subsection \<open>At most ten sessions per user\<close>

definition sessions_of :: "string \<Rightarrow> session gmap \<Rightarrow> nat" where
  "sessions_of u m = length (filter (\<lambda>(k, x). s_user_id x = u) m)"

definition sessions_ok :: "app_state \<Rightarrow> bool" where
  "sessions_ok s \<longleftrightarrow> gmap_ok (st_sessions s) \<and> gall (\<lambda>k x. s_token x = k) (st_sessions s)
     \<and> (\<forall>u. sessions_of u (st_sessions s) \<le> MaxSessionsPerUser)"

lemma sessions_of_update: "sessions_of u (AList.update k x m) \<le> sessions_of u m + (if s_user_id x = u then 1 else 0)"
  by (induction m) (auto simp: sessions_of_def)

lemma sessions_of_filter: "sessions_of u (filter P m) \<le> sessions_of u m"
  by (induction m) (auto simp: sessions_of_def)

lemma delete_filter: "AList.delete k m = filter (\<lambda>(i, x). i \<noteq> k) m"
  by (induction m) auto

lemma foldl_delete_filter:
  "foldl (\<lambda>m x. AList.delete (key x) m) m xs = filter (\<lambda>(i, x). i \<notin> key ` set xs) m"
  by (induction xs arbitrary: m) (auto simp: delete_filter case_prod_beta intro!: filter_cong)

lemma length_filter_image:
  assumes "distinct (map key xs)" and "set ys \<subseteq> set xs" and "distinct (map key ys)"
  shows "length (filter (\<lambda>x. key x \<notin> key ` set ys) xs) = length xs - length ys"
proof -
  have inj: "inj_on key (set xs)" and "distinct xs" using assms(1) by (simp_all add: distinct_map)
  have "{x \<in> set xs. key x \<notin> key ` set ys} = set xs - set ys"
    using inj assms(2) by (auto dest: inj_onD)
  moreover have "distinct ys" using assms(3) by (simp add: distinct_map)
  ultimately have "card (set (filter (\<lambda>x. key x \<notin> key ` set ys) xs)) = length xs - length ys"
    using \<open>distinct xs\<close> assms(2) by (simp add: card_Diff_subset distinct_card)
  then show ?thesis using \<open>distinct xs\<close> by (metis distinct_card distinct_filter)
qed

lemma tokens_distinct:
  assumes "gmap_ok m" and "gall (\<lambda>k x. s_token x = k) m"
  shows "distinct (map s_token (map snd (filter P m)))"
proof -
  have "map s_token (map snd (filter P m)) = map fst (filter P m)"
    using assms(2) by (auto simp: gall_def list_all_iff)
  with gmap_ok_filter [OF assms(1), of P] show ?thesis unfolding gmap_ok_def by (simp only:)
qed

text \<open>Whatever the creation order looks like, pruning leaves at most \<open>keep\<close> sessions of the user.\<close>

lemma pruneSessions_ok:
  assumes "sessions_ok s" and "keep \<le> MaxSessionsPerUser"
  shows "sessions_ok (pruneSessions cx u keep s) \<and> sessions_of u (st_sessions (pruneSessions cx u keep s)) \<le> keep"
proof -
  define live where "live = filter (\<lambda>(tok, sess). \<not> session_expired cx sess) (st_sessions s)"
  define P where "P = (\<lambda>(tok :: string, sess :: session). s_user_id sess = u)"
  define mine where "mine = map snd (filter P live)"
  have live: "gmap_ok live" "gall (\<lambda>k x. s_token x = k) live" "\<And>v. sessions_of v live \<le> MaxSessionsPerUser"
    using assms(1) sessions_of_filter order_trans unfolding live_def sessions_ok_def
    by (blast intro: gall_filter)+
  have len: "length mine = sessions_of u live" by (simp add: mine_def sessions_of_def P_def)
  show ?thesis
  proof (cases "length mine \<le> keep")
    case True
    with live len show ?thesis
      by (simp add: pruneSessions_def sessions_ok_def flip: live_def P_def mine_def)
  next
    case False
    define old where "old = take (length mine - keep) (sort_slice (\<lambda>a b. s_created_at a < s_created_at b) mine)"
    define rest where "rest = filter (\<lambda>(i, x). i \<notin> s_token ` set old) live"
    have st: "st_sessions (pruneSessions cx u keep s) = rest"
      using False unfolding pruneSessions_def Let_def live_def [symmetric] P_def [symmetric] mine_def [symmetric]
      by (simp add: foldl_delete_filter rest_def old_def)
    have dm: "distinct (map s_token mine)" unfolding mine_def by (rule tokens_distinct [OF live(1,2)])
    then have "distinct (map s_token (sort_slice (\<lambda>a b. s_created_at a < s_created_at b) mine))"
      by (simp add: distinct_map)
    then have do: "distinct (map s_token old)" by (simp add: old_def take_map [symmetric] distinct_take)
    have so: "set old \<subseteq> set mine" unfolding old_def by (metis set_sort_slice set_take_subset)
    have "sessions_of u rest = length (filter (\<lambda>x. s_token x \<notin> s_token ` set old) mine)"
      using live(2) unfolding sessions_of_def rest_def mine_def P_def by (induction live) auto
    also have "\<dots> = keep"
      using length_filter_image [OF dm so do] False by (simp add: old_def)
    finally have "sessions_of u rest = keep" .
    moreover have "sessions_of v rest \<le> MaxSessionsPerUser" for v
      using sessions_of_filter live(3) order_trans unfolding rest_def by blast
    ultimately show ?thesis using live(1,2) unfolding sessions_ok_def st
      by (auto simp: rest_def intro: gall_filter)
  qed
qed

lemma createSession_sessions:
  assumes "createSessionForUser pr cx draw user s = (x, s')" and "sessions_ok s"
  shows "sessions_ok s'"
proof (cases "RandomBase64URL pr cx draw 32")
  case (Inl e)
  with assms show ?thesis by (simp add: createSessionForUser_def)
next
  case (Inr token)
  define s1 where "s1 = pruneSessions cx (u_id user) (MaxSessionsPerUser - 1) s"
  have p: "sessions_ok s1" "sessions_of (u_id user) (st_sessions s1) \<le> MaxSessionsPerUser - 1"
    unfolding s1_def using pruneSessions_ok [OF assms(2), of "MaxSessionsPerUser - 1" cx "u_id user"] by simp_all
  from assms(1) Inr obtain sess where sess: "s_token sess = token" "s_user_id sess = u_id user"
    and s': "s' = s1\<lparr>st_sessions := AList.update token sess (st_sessions s1)\<rparr>"
    unfolding createSessionForUser_def s1_def Let_def by (simp add: that) force
  have "sessions_of v (AList.update token sess (st_sessions s1)) \<le> MaxSessionsPerUser" for v
    using sessions_of_update [of v token sess "st_sessions s1"] p sess
    by (cases "v = u_id user") (auto simp: sessions_ok_def MaxSessionsPerUser_def intro: order_trans)
  with p sess show ?thesis by (simp add: s' sessions_ok_def gall_update)
qed

end
