(* ===== verification/Credentials.thy ===== *)
theory Credentials
  imports Crypto GoTime
begin

text \<open>
  \<open>domain/password.go\<close>, \<open>domain/security.go\<close> and the PBKDF2 routine of \<open>domain/util.go\<close>: password
  hashes in PHC format and the legacy ones, the login lock, one-time codes and reset tokens.  The
  hash functions are the primitives of \<open>prims\<close>; the parsing of the stored strings (\<open>strings.Split\<close>,
  \<open>fmt.Sscanf\<close>) and everything around the primitives is written out.  The facts are the round trips
  (a fresh hash verifies, a fresh reset token splits back) and the bounds of a code's time step.
\<close>

section \<open>Password hashes\<close>

fun split_char :: "char \<Rightarrow> string \<Rightarrow> string list" where
  "split_char c [] = [[]]"
| "split_char c (x # xs) =
     (if x = c then [] # split_char c xs
      else case split_char c xs of [] \<Rightarrow> [[x]] | p # ps \<Rightarrow> (x # p) # ps)"

definition argonPrefix :: string where
  "argonPrefix = ''$argon2id$''"

definition HashPasswordArgon2id :: "prims \<Rightarrow> ctx \<Rightarrow> nat \<Rightarrow> string \<Rightarrow> string + string" where
  "HashPasswordArgon2id pr cx draw password =
     (case rand_read cx draw 16 of
        Inl err \<Rightarrow> Inl err
      | Inr salt \<Rightarrow>
          (let key = argon2_id_key pr password salt 2 (19 * 1024) 1 32
           in Inr (argonPrefix @ ''v='' @ show_nat 19 @ ''$m='' @ show_nat (19 * 1024) @ '',t='' @ show_nat 2 @
                '',p='' @ show_nat 1 @ ''$'' @ raw_b64_encode pr salt @ ''$'' @ raw_b64_encode pr key)))"

definition IsArgon2idHash :: "string \<Rightarrow> bool" where
  "IsArgon2idHash hash \<longleftrightarrow> has_prefix hash argonPrefix"

text \<open>
  One \<open>%d\<close> of \<open>fmt.Sscanf\<close>: leading blanks are skipped (a newline is an error), at least one digit is
  needed, the rest of the input is left for the next item; a signed target also takes a sign.
\<close>

definition skip_blanks :: "string \<Rightarrow> string" where
  "skip_blanks s = dropWhile (\<lambda>c. is_space c \<and> code c \<noteq> 10) s"

definition scan_digits :: "string \<Rightarrow> (nat \<times> string) option" where
  "scan_digits s =
     (if takeWhile is_digit s = [] then None
      else Some (digits_val 0 (takeWhile is_digit s), dropWhile is_digit s))"

definition scan_uint :: "nat \<Rightarrow> string \<Rightarrow> (nat \<times> string) option" where
  "scan_uint bits s =
     (case scan_digits (skip_blanks s) of
        None \<Rightarrow> None
      | Some (n, rest) \<Rightarrow> if n < 2 ^ bits then Some (n, rest) else None)"

definition scan_int :: "string \<Rightarrow> (int \<times> string) option" where
  "scan_int s =
     (let t = skip_blanks s;
          neg = (t \<noteq> [] \<and> hd t = CHR ''-'');
          u = (if t \<noteq> [] \<and> (hd t = CHR ''-'' \<or> hd t = CHR ''+'') then tl t else t)
      in case scan_digits u of
           None \<Rightarrow> None
         | Some (n, rest) \<Rightarrow>
             (let i = (if neg then - int n else int n) in if in_int64 i then Some (i, rest) else None))"

definition scan_literal :: "string \<Rightarrow> string \<Rightarrow> string option" where
  "scan_literal lit s = (if has_prefix s lit then Some (drop (length lit) s) else None)"

definition scan_version :: "string \<Rightarrow> int option" where
  "scan_version s =
     Option.bind (scan_literal ''v='' s) (\<lambda>s1.
     Option.bind (scan_int s1) (\<lambda>(v, _). Some v))"

definition scan_params :: "string \<Rightarrow> (nat \<times> nat \<times> nat) option" where
  "scan_params s =
     Option.bind (scan_literal ''m='' s) (\<lambda>s1.
     Option.bind (scan_uint 32 s1) (\<lambda>(mem, s2).
     Option.bind (scan_literal '',t='' s2) (\<lambda>s3.
     Option.bind (scan_uint 32 s3) (\<lambda>(t, s4).
     Option.bind (scan_literal '',p='' s4) (\<lambda>s5.
     Option.bind (scan_uint 8 s5) (\<lambda>(p, _). Some (mem, t, p)))))))"

definition VerifyArgon2id :: "prims \<Rightarrow> string \<Rightarrow> string \<Rightarrow> bool" where
  "VerifyArgon2id pr password phc =
     (let parts = split_char (CHR ''$'') phc
      in if length parts \<noteq> 6 then False
         else if scan_version (parts ! 2) \<noteq> Some 19 then False
         else case scan_params (parts ! 3) of
           None \<Rightarrow> False
         | Some (mem, t, p) \<Rightarrow>
             if mem = 0 \<or> mem > 256 * 1024 \<or> t = 0 \<or> t > 10 \<or> p = 0 \<or> p > 8 then False
             else case raw_b64_decode pr (parts ! 4) of
               Inl err \<Rightarrow> False
             | Inr salt \<Rightarrow>
                 (case raw_b64_decode pr (parts ! 5) of
                    Inl err \<Rightarrow> False
                  | Inr want \<Rightarrow>
                      if want = [] then False
                      else argon2_id_key pr password salt t mem p (length want) = want))"

section \<open>Legacy hashes\<close>

definition PasswordIterations :: nat where
  "PasswordIterations = 120000"

definition xor_byte :: "char \<Rightarrow> char \<Rightarrow> char" where
  "xor_byte a b = char_of (Bit_Operations.xor (code a) (code b))"

fun pbkdf2_rounds :: "prims \<Rightarrow> string \<Rightarrow> nat \<Rightarrow> string \<Rightarrow> string \<Rightarrow> string" where
  "pbkdf2_rounds pr password 0 u out = out"
| "pbkdf2_rounds pr password (Suc n) u out =
     (let u' = hmac_sha256 pr password u in pbkdf2_rounds pr password n u' (map2 xor_byte out u'))"

definition pbkdf2Block :: "prims \<Rightarrow> string \<Rightarrow> string \<Rightarrow> nat \<Rightarrow> nat \<Rightarrow> string" where
  "pbkdf2Block pr password salt iterations blockNum =
     (let u = hmac_sha256 pr password (salt @ map (\<lambda>sh. char_of (blockNum div 2 ^ sh mod 256)) [24, 16, 8, 0])
      in pbkdf2_rounds pr password (iterations - 1) u u)"

definition DerivePBKDF2 :: "prims \<Rightarrow> string \<Rightarrow> string \<Rightarrow> nat \<Rightarrow> nat \<Rightarrow> string" where
  "DerivePBKDF2 pr password salt iterations keyLen =
     (let numBlocks = (keyLen + 32 - 1) div 32
      in take keyLen (concat (map (pbkdf2Block pr password salt iterations) [1..<numBlocks + 1])))"

definition verifyLegacyPBKDF2 :: "prims \<Rightarrow> string \<Rightarrow> string \<Rightarrow> string \<Rightarrow> bool" where
  "verifyLegacyPBKDF2 pr password salt hash =
     (case b64_decode pr hash of
        Inl err \<Rightarrow> False
      | Inr expected \<Rightarrow> DerivePBKDF2 pr password salt PasswordIterations (length expected) = expected)"

text \<open>The second component reports a legacy hash.\<close>

definition VerifyPassword :: "prims \<Rightarrow> string \<Rightarrow> string \<Rightarrow> string \<Rightarrow> bool \<times> bool" where
  "VerifyPassword pr password salt hash =
     (if IsArgon2idHash hash then (VerifyArgon2id pr password hash, False)
      else (verifyLegacyPBKDF2 pr password salt hash, True))"

section \<open>Account security\<close>

definition MaxFailedLogins :: int where
  "MaxFailedLogins = 5"

definition LockoutDuration :: int where
  "LockoutDuration = 15 * minute"

definition ResetTokenTTL :: int where
  "ResetTokenTTL = hour"

definition MaxPasswordLen :: nat where
  "MaxPasswordLen = 256"

definition IsLocked :: "ctx \<Rightarrow> user \<Rightarrow> bool" where
  "IsLocked cx u =
     (if u_locked_until u = [] then False
      else case parse_rfc3339 (u_locked_until u) of None \<Rightarrow> True | Some until \<Rightarrow> lock_clock cx < until)"

text \<open>\<open>None\<close> is the nil error.\<close>

definition ValidNewPassword :: "string \<Rightarrow> app_error option" where
  "ValidNewPassword pw =
     (if length pw < 8 then Some (BadRequest (''password must be at least '' @ show_nat 8 @ '' characters''))
      else if length pw > MaxPasswordLen
        then Some (BadRequest (''password must be at most '' @ show_nat 256 @ '' bytes''))
      else None)"

section \<open>One-time codes\<close>

definition NewTOTPSecret :: "prims \<Rightarrow> ctx \<Rightarrow> nat \<Rightarrow> string + string" where
  "NewTOTPSecret pr cx draw =
     (case rand_read cx draw 20 of Inl err \<Rightarrow> Inl err | Inr b \<Rightarrow> Inr (raw_b32_encode pr b))"

definition to_upper :: "string \<Rightarrow> string" where
  "to_upper s = map (\<lambda>c. if 97 \<le> code c \<and> code c \<le> 122 then char_of (code c - 32) else c) s"

text \<open>HMAC-SHA1 gives 20 bytes, so no index below is out of range.\<close>

definition byte_at :: "string \<Rightarrow> nat \<Rightarrow> nat" where
  "byte_at s i = (if i < length s then code (s ! i) else 0)"

definition big_endian64 :: "int \<Rightarrow> string" where
  "big_endian64 n = map (\<lambda>sh. char_of (nat (n mod 2 ^ 64) div 2 ^ sh mod 256)) [56, 48, 40, 32, 24, 16, 8, 0]"

definition pad6 :: "nat \<Rightarrow> string" where
  "pad6 n = map (\<lambda>i. digit_char (n div 10 ^ i mod 10)) [5, 4, 3, 2, 1, 0]"

definition TotpAt :: "prims \<Rightarrow> string \<Rightarrow> int \<Rightarrow> string + string" where
  "TotpAt pr secret step =
     (case raw_b32_decode pr (to_upper secret) of
        Inl err \<Rightarrow> Inl err
      | Inr key \<Rightarrow>
          (let sum = hmac_sha1 pr key (big_endian64 step);
               off = byte_at sum (length sum - 1) mod 16;
               code = ((byte_at sum off mod 128) * 2 ^ 24 + byte_at sum (off + 1) * 2 ^ 16 +
                       byte_at sum (off + 2) * 2 ^ 8 + byte_at sum (off + 3)) mod 1000000
           in Inr (pad6 code)))"

text \<open>The loop over the skew window; \<open>None\<close> is the early \<open>return 0\<close>.\<close>

fun match_steps :: "prims \<Rightarrow> string \<Rightarrow> string \<Rightarrow> int \<Rightarrow> int list \<Rightarrow> int \<Rightarrow> int option" where
  "match_steps pr secret c lastStep [] matched = Some matched"
| "match_steps pr secret c lastStep (st # sts) matched =
     (case TotpAt pr secret st of
        Inl err \<Rightarrow> None
      | Inr want \<Rightarrow>
          match_steps pr secret c lastStep sts
            (if want = c \<and> st > lastStep \<and> matched = 0 then st else matched))"

definition totp_now :: "ctx \<Rightarrow> int" where
  "totp_now cx = (let secs = lock_clock cx div second in if 0 \<le> secs then secs div 30 else - ((- secs) div 30))"

definition VerifyTOTP :: "prims \<Rightarrow> ctx \<Rightarrow> string \<Rightarrow> string \<Rightarrow> int \<Rightarrow> int" where
  "VerifyTOTP pr cx secret c lastStep =
     (let c' = trim_space c
      in if length c' \<noteq> 6 then 0
         else let cur = totp_now cx
              in case match_steps pr secret c' lastStep [cur - 1, cur, cur + 1] 0 of
                   None \<Rightarrow> 0
                 | Some m \<Rightarrow> m)"

text \<open>\<open>url.PathEscape\<close> and \<open>url.QueryEscape\<close>.\<close>

definition unreserved :: "char \<Rightarrow> bool" where
  "unreserved c \<longleftrightarrow> (48 \<le> code c \<and> code c \<le> 57) \<or> (65 \<le> code c \<and> code c \<le> 90)
     \<or> (97 \<le> code c \<and> code c \<le> 122) \<or> c \<in> set ''-_.~''"

definition upper_hex :: "nat \<Rightarrow> char" where
  "upper_hex n = (if n < 10 then char_of (48 + n) else char_of (55 + n))"

definition percent :: "char \<Rightarrow> string" where
  "percent c = [CHR ''%'', upper_hex (code c div 16), upper_hex (code c mod 16)]"

definition path_escape :: "string \<Rightarrow> string" where
  "path_escape s = concat (map (\<lambda>c. if unreserved c \<or> c \<in> set ''$&+:=@'' then [c] else percent c) s)"

definition query_escape :: "string \<Rightarrow> string" where
  "query_escape s =
     concat (map (\<lambda>c. if unreserved c then [c] else if c = CHR '' '' then ''+'' else percent c) s)"

definition OtpauthURL :: "string \<Rightarrow> string \<Rightarrow> string" where
  "OtpauthURL username secret =
     ''otpauth://totp/'' @ path_escape (''Interstellar Trade'' @ '':'' @ username) @ ''?'' @
     ''algorithm=SHA1&digits=6&issuer='' @ query_escape ''Interstellar Trade'' @ ''&period=30&secret='' @
     query_escape secret"

section \<open>Reset tokens\<close>

definition NewResetToken :: "prims \<Rightarrow> ctx \<Rightarrow> nat \<Rightarrow> string \<Rightarrow> string + (string \<times> string)" where
  "NewResetToken pr cx draw userID =
     (case rand_read cx draw 32 of
        Inl err \<Rightarrow> Inl err
      | Inr b \<Rightarrow> (let secret = hex_encode b
                  in Inr (userID @ ''.'' @ secret, hex_encode (sha256 pr secret))))"

definition SplitResetToken :: "prims \<Rightarrow> string \<Rightarrow> (string \<times> string) option" where
  "SplitResetToken pr token =
     (case split_last (CHR ''.'') token of
        None \<Rightarrow> None
      | Some (userID, secret) \<Rightarrow>
          if userID = [] \<or> secret = [] then None else Some (userID, hex_encode (sha256 pr secret)))"

section \<open>A fresh hash verifies exactly the passwords with its key\<close>

text \<open>What \<open>encoding/base64\<close> documents of the unpadded alphabet: decoding inverts encoding, and the
  alphabet has no dollar sign.\<close>

definition raw_b64_ok :: "prims \<Rightarrow> bool" where
  "raw_b64_ok pr \<longleftrightarrow> (\<forall>s. raw_b64_decode pr (raw_b64_encode pr s) = Inr s) \<and>
     (\<forall>s. CHR ''$'' \<notin> set (raw_b64_encode pr s))"

lemma split_char_no: "c \<notin> set s \<Longrightarrow> split_char c s = [s]"
  by (induction s) auto

lemma split_char_append: "c \<notin> set s \<Longrightarrow> split_char c (s @ c # t) = s # split_char c t"
  by (induction s) auto

definition version_text :: string where
  "version_text = ''v='' @ show_nat 19"

definition params_text :: string where
  "params_text = ''m='' @ show_nat (19 * 1024) @ '',t='' @ show_nat 2 @ '',p='' @ show_nat 1"

lemma show_params:
  "show_nat 19 = ''19''" "show_nat (19 * 1024) = ''19456''" "show_nat 2 = ''2''" "show_nat 1 = ''1''"
  by (simp_all add: show_nat.simps digit_char_def char_of_def bit_0)

lemma version_text_eq: "version_text = ''v=19''"
  by (simp add: version_text_def show_params)

lemma params_text_eq: "params_text = ''m=19456,t=2,p=1''"
  by (simp only: params_text_def show_params append.simps)

lemmas scan_defs = scan_literal_def has_prefix_def skip_blanks_def is_space_def code_def
  scan_digits_def is_digit_def digit_val_def Let_def

lemma scan_version_19: "scan_version version_text = Some 19"
  by (simp add: version_text_eq scan_version_def scan_int_def scan_defs in_int64_def min_int64_def max_int64_def)

lemma scan_params_default: "scan_params params_text = Some (19 * 1024, 2, 1)"
  by (simp add: params_text_eq scan_params_def scan_uint_def scan_defs)

lemma no_dollar:
  "CHR ''$'' \<notin> set version_text" "CHR ''$'' \<notin> set params_text"
  "CHR ''$'' \<notin> set ''argon2id''" "CHR ''$'' \<notin> set []"
  by (simp_all add: version_text_eq params_text_eq)

lemma fresh_hash_parts:
  assumes "HashPasswordArgon2id pr cx draw password = Inr phc" and "rand_read cx draw 16 = Inr salt"
  shows "phc = [] @ CHR ''$'' # ''argon2id'' @ CHR ''$'' # version_text @ CHR ''$'' # params_text @ CHR ''$'' #
      raw_b64_encode pr salt @ CHR ''$'' # raw_b64_encode pr (argon2_id_key pr password salt 2 (19 * 1024) 1 32)"
  using assms
  by (simp add: HashPasswordArgon2id_def argonPrefix_def version_text_def params_text_def Let_def
      del: show_nat.simps)

lemma split_fresh_hash:
  assumes "raw_b64_ok pr" and "HashPasswordArgon2id pr cx draw password = Inr phc"
    and "rand_read cx draw 16 = Inr salt"
  shows "split_char (CHR ''$'') phc = [[], ''argon2id'', version_text, params_text, raw_b64_encode pr salt,
     raw_b64_encode pr (argon2_id_key pr password salt 2 (19 * 1024) 1 32)]"
proof -
  have "CHR ''$'' \<notin> set (raw_b64_encode pr x)" for x
    using assms(1) by (simp add: raw_b64_ok_def)
  then show ?thesis
    unfolding fresh_hash_parts [OF assms(2,3)]
    by (simp only: split_char_append split_char_no no_dollar not_False_eq_True)
qed

lemma VerifyPassword_fresh:
  assumes ok: "raw_b64_ok pr" and hash: "HashPasswordArgon2id pr cx draw password = Inr phc"
    and salt: "rand_read cx draw 16 = Inr salt"
    and len: "length (argon2_id_key pr password salt 2 (19 * 1024) 1 32) = 32"
  shows "VerifyPassword pr other any phc =
    (argon2_id_key pr other salt 2 (19 * 1024) 1 32 = argon2_id_key pr password salt 2 (19 * 1024) 1 32, False)"
proof -
  let ?key = "\<lambda>pw. argon2_id_key pr pw salt 2 (19 * 1024) 1 32"
  have "IsArgon2idHash phc"
    by (simp add: fresh_hash_parts [OF hash salt] IsArgon2idHash_def has_prefix_def argonPrefix_def)
  moreover have "VerifyArgon2id pr other phc = (?key other = ?key password)"
  proof -
    have dec: "raw_b64_decode pr (raw_b64_encode pr x) = Inr x" for x
      using ok by (simp add: raw_b64_ok_def)
    have "?key password \<noteq> []" using len by auto
    then show ?thesis
      unfolding VerifyArgon2id_def split_fresh_hash [OF ok hash salt] Let_def
      using len by (simp add: scan_version_19 scan_params_default dec)
  qed
  ultimately show ?thesis by (simp add: VerifyPassword_def)
qed

text \<open>The legacy routine has no guard against an empty stored hash: every password matches it.\<close>

lemma legacy_empty_hash:
  "b64_decode pr [] = Inr [] \<Longrightarrow> VerifyPassword pr password salt [] = (True, True)"
  by (simp add: VerifyPassword_def IsArgon2idHash_def has_prefix_def argonPrefix_def verifyLegacyPBKDF2_def
      DerivePBKDF2_def)

section \<open>Codes and tokens\<close>

lemma match_steps_Some:
  "match_steps pr secret c lastStep sts m = Some r \<Longrightarrow> r \<noteq> m \<Longrightarrow>
   r \<in> set sts \<and> r > lastStep \<and> TotpAt pr secret r = Inr c"
proof (induction pr secret c lastStep sts m rule: match_steps.induct)
  case (2 pr secret c lastStep st sts matched)
  then obtain w where w: "TotpAt pr secret st = Inr w" by (cases "TotpAt pr secret st") auto
  let ?m = "if w = c \<and> st > lastStep \<and> matched = 0 then st else matched"
  from 2(2) w have rec: "match_steps pr secret c lastStep sts ?m = Some r" by simp
  show ?case
  proof (cases "r = ?m")
    case True
    with 2(3) have "w = c \<and> st > lastStep \<and> r = st" by (simp split: if_splits)
    with w show ?thesis by simp
  next
    case False
    with 2(1) [OF w rec] show ?thesis by simp
  qed
qed simp

lemma VerifyTOTP_nonzero:
  assumes "VerifyTOTP pr cx secret c lastStep = r" and "r \<noteq> 0"
  shows "lastStep < r \<and> \<bar>r - totp_now cx\<bar> \<le> 1 \<and> TotpAt pr secret r = Inr (trim_space c)"
proof -
  from assms have "match_steps pr secret (trim_space c) lastStep [totp_now cx - 1, totp_now cx, totp_now cx + 1] 0 = Some r"
    by (simp add: VerifyTOTP_def Let_def del: match_steps.simps split: if_splits option.splits)
  from match_steps_Some [OF this assms(2)] show ?thesis by auto
qed

lemma length_pad6 [simp]: "length (pad6 n) = 6"
  by (simp add: pad6_def)

lemma hex_encode_chars:
  assumes "\<forall>n \<in> set [0..<16]. hex_digit n \<noteq> c"
  shows "c \<notin> set (hex_encode s)"
proof -
  have "code x div 16 < 16" "code x mod 16 < 16" for x
    using code_less [of x] by (simp_all add: less_mult_imp_div_less)
  with assms have "hex_digit (code x div 16) \<noteq> c" "hex_digit (code x mod 16) \<noteq> c" for x by simp_all
  then show ?thesis by (auto simp: hex_encode_def dest: sym)
qed

lemma hex_no_dot: "CHR ''.'' \<notin> set (hex_encode s)"
  by (rule hex_encode_chars) code_simp

lemma hex_no_dollar: "CHR ''$'' \<notin> set (hex_encode s)"
  by (rule hex_encode_chars) code_simp

lemma SplitResetToken_fresh:
  assumes "NewResetToken pr cx draw userID = Inr (token, hash)" and "userID \<noteq> []"
    and "rand_read cx draw 32 = Inr b" and "length b = 32"
  shows "SplitResetToken pr token = Some (userID, hash)"
proof -
  from assms(1,3) have tok: "token = userID @ CHR ''.'' # hex_encode b"
    and h: "hash = hex_encode (sha256 pr (hex_encode b))"
    by (auto simp: NewResetToken_def Let_def)
  have "split_last (CHR ''.'') token = Some (userID, hex_encode b)"
    by (simp add: tok split_last_Some hex_no_dot)
  moreover have "hex_encode b \<noteq> []"
    using assms(4) length_hex_encode [of b] by (metis length_0_conv mult_eq_0_iff numeral_neq_zero)
  ultimately show ?thesis using assms(2) by (simp add: SplitResetToken_def h)
qed


end
