(* ===== verification/Admin.thy ===== *)
theory Admin
  imports Store Access Credentials
begin

text \<open>
  \<open>service/admin.go\<close>: colonies, trust between colonies, users, and the creation of money.  Each
  operation is the whole handler: its checks in the order of the code, the callback run by the
  store and the ledger entry it writes.  \<open>CreateUser\<close> reads, hashes the password and then updates in
  a second transaction; the second transaction is \<open>CreateUser_commit\<close>, which may run in any later
  state.  Pointers into the state are keys: \<open>colony_at\<close> reads through one.
\<close>

definition zero_colony :: colony where
  "zero_colony =
   \<lparr>c_id = [], c_name = [], c_public_key = [], c_private_key = [], c_created_at = [], c_trusted_colonies = [],
    c_accounts = [], c_processed_envelopes = [], c_outbox = [], c_ledger = [], c_next_ledger_seq = 0,
    c_last_ledger_hash = [], c_net_obligations = [], c_net_claims = [], c_minted_total = 0, c_mint_cap = 0,
    c_require_dual_control = False\<rparr>"

text \<open>Reading through a pointer held by a running handler, whose key is in the map.\<close>

definition colony_at :: "app_state \<Rightarrow> string \<Rightarrow> colony" where
  "colony_at s k = gget zero_colony (st_colonies s) k"

definition generateEd25519Keypair :: "prims \<Rightarrow> ctx \<Rightarrow> nat \<Rightarrow> string + (string \<times> string)" where
  "generateEd25519Keypair pr cx draw =
     (case gen_key cx draw of
        Inl err \<Rightarrow> Inl err
      | Inr (pub, priv) \<Rightarrow> Inr (b64_encode pr pub, b64_encode pr priv))"

section \<open>Colonies\<close>

definition CreateColony :: "prims \<Rightarrow> ctx \<Rightarrow> string \<Rightarrow> string \<Rightarrow> colony_view handler" where
  "CreateColony pr cx token req_name s =
     (let name = trim_space req_name
      in if name = [] then (bad (BadRequest ''colony name is required''), s)
         else StoreUpdateScoped cx (\<lambda>s.
           case actorFromToken pr cx s token of
             Inl err \<Rightarrow> (Inl err, s)
           | Inr (ak, actor) \<Rightarrow>
               if \<not> HasRole actor ''super_admin''
               then (bad (Forbidden ''only super_admin can create colonies''), s)
               else if list_ex (\<lambda>(k, c). equal_fold (c_name c) name) (st_colonies s)
               then (bad (Conflict ''colony name already exists''), s)
               else case NewID cx 0 ''col'' of
                 Inl err \<Rightarrow> (bad (InternalErr err), s)
               | Inr colonyID \<Rightarrow>
                   (case generateEd25519Keypair pr cx 0 of
                      Inl err \<Rightarrow> (bad (InternalErr err), s)
                    | Inr (pub, priv) \<Rightarrow>
                        let colony = zero_colony\<lparr>c_id := colonyID, c_name := name, c_public_key := pub,
                              c_private_key := priv, c_created_at := format_rfc3339 (now cx),
                              c_trusted_colonies := [(colonyID, pub)]\<rparr>;
                            s1 = s\<lparr>st_colonies := AList.update colonyID colony (st_colonies s)\<rparr>;
                            s2 = upd_colony colonyID (appendLedger pr cx ''colony_created'' (u_id actor)
                                   (go_map [(''colony_id'', JStr colonyID), (''name'', JStr name)])) s1
                        in (Inr (toColonyView (colony_at s2 colonyID)), s2))) s)"

definition TrustPeer :: "prims \<Rightarrow> ctx \<Rightarrow> string \<Rightarrow> string \<Rightarrow> string \<Rightarrow> colony_view handler" where
  "TrustPeer pr cx token colonyID peerColonyID s =
     (if trim_space peerColonyID = [] then (bad (BadRequest ''peer_colony_id is required''), s)
      else StoreUpdateScoped cx (\<lambda>s.
        case actorFromToken pr cx s token of
          Inl err \<Rightarrow> (Inl err, s)
        | Inr (ak, actor) \<Rightarrow>
            (case map_of (st_colonies s) colonyID of
               None \<Rightarrow> (bad (NotFound ''colony not found''), s)
             | Some colony \<Rightarrow>
                 (case map_of (st_colonies s) peerColonyID of
                    None \<Rightarrow> (bad (NotFound ''peer colony not found''), s)
                  | Some peer \<Rightarrow>
                      if \<not> canManageColony actor colonyID
                      then (bad (Forbidden ''not allowed to trust peers for this colony''), s)
                      else
                        let s1 = upd_colony colonyID (\<lambda>c. c\<lparr>c_trusted_colonies :=
                              AList.update (c_id peer) (c_public_key peer) (c_trusted_colonies c)\<rparr>) s;
                            s2 = upd_colony colonyID (appendLedger pr cx ''peer_trusted'' (u_id actor)
                              (go_map [(''peer_colony_id'', JStr (c_id peer))])) s1
                        in (Inr (toColonyView (colony_at s2 colonyID)), s2)))) s)"

section \<open>Users\<close>

definition newUser ::
    "prims \<Rightarrow> ctx \<Rightarrow> string \<Rightarrow> string \<Rightarrow> string \<Rightarrow> string \<Rightarrow> string list \<Rightarrow> user result" where
  "newUser pr cx username displayName passwordHash colonyID roles =
     (case NewID cx 0 ''usr'' of
        Inl err \<Rightarrow> bad (InternalErr err)
      | Inr ident \<Rightarrow>
          (case generateEd25519Keypair pr cx 0 of
             Inl err \<Rightarrow> bad (InternalErr err)
           | Inr (pub, priv) \<Rightarrow>
               Inr \<lparr>u_id = ident, u_username = username, u_display_name = displayName, u_colony_id = colonyID,
                 u_roles = roles, u_password_salt = [], u_password_hash = passwordHash, u_public_key = pub,
                 u_private_key = priv, u_created_at = format_rfc3339 (now cx), u_active = True,
                 u_failed_logins = 0, u_locked_until = [], u_mfa_enabled = False, u_mfa_secret = [],
                 u_mfa_pending_secret = [], u_mfa_last_step = 0, u_reset_token_hash = [],
                 u_reset_expires_at = [], u_password_changed_at = []\<rparr>))"

record create_user_request =
  cu_username :: string
  cu_display_name :: string
  cu_password :: string
  cu_colony_id :: string
  cu_roles :: "string list"

definition requested_roles :: "create_user_request \<Rightarrow> string list" where
  "requested_roles req =
     (let roles = NormalizeRoles (cu_roles req) in if roles = [] then [''trader''] else roles)"

definition CreateUser_authorize :: "prims \<Rightarrow> ctx \<Rightarrow> string \<Rightarrow> create_user_request \<Rightarrow> app_state \<Rightarrow> unit result" where
  "CreateUser_authorize pr cx token req s =
     StoreReadScoped (\<lambda>s.
       case actorFromToken pr cx s token of
         Inl err \<Rightarrow> Inl err
       | Inr (ak, actor) \<Rightarrow>
           if map_of (st_colonies s) (cu_colony_id req) \<noteq> None \<and> \<not> canManageColony actor (cu_colony_id req)
           then bad (Forbidden ''not allowed to create users in this colony'')
           else Inr ()) s"

definition CreateUser_commit ::
    "prims \<Rightarrow> ctx \<Rightarrow> string \<Rightarrow> create_user_request \<Rightarrow> string \<Rightarrow> user_view handler" where
  "CreateUser_commit pr cx token req passwordHash s =
     (let username = NormalizeUsername (cu_username req);
          roles = requested_roles req;
          colonyID = cu_colony_id req
      in StoreUpdateScoped cx (\<lambda>s.
        case actorFromToken pr cx s token of
          Inl err \<Rightarrow> (Inl err, s)
        | Inr (ak, actor) \<Rightarrow>
            if userExistsByUsername s username then (bad (Conflict ''username already exists''), s)
            else case map_of (st_colonies s) colonyID of
              None \<Rightarrow> (bad (NotFound ''colony not found''), s)
            | Some colony \<Rightarrow>
                if \<not> canManageColony actor colonyID
                then (bad (Forbidden ''not allowed to create users in this colony''), s)
                else if containsRole roles ''super_admin'' \<and> \<not> HasRole actor ''super_admin''
                then (bad (Forbidden ''only super_admin can assign super_admin''), s)
                else
                  let display = (if trim_space (cu_display_name req) = [] then username
                                 else trim_space (cu_display_name req))
                  in case newUser pr cx username display passwordHash colonyID roles of
                       Inl err \<Rightarrow> (Inl err, s)
                     | Inr user \<Rightarrow>
                         let acc = \<lparr>a_user_id = u_id user, a_colony_id = colonyID, a_balance = 0\<rparr>;
                             s1 = s\<lparr>st_users := AList.update (u_id user) user (st_users s)\<rparr>;
                             s2 = upd_colony colonyID (\<lambda>c. c\<lparr>c_accounts := AList.update (u_id user) acc (c_accounts c)\<rparr>) s1;
                             s3 = upd_colony colonyID (appendLedger pr cx ''user_created'' (u_id actor)
                               (go_map [(''user_id'', JStr (u_id user)), (''username'', JStr (u_username user)),
                                        (''roles'', JArr (map JStr (u_roles user)))])) s2
                         in (Inr (toUserView user), s3)) s)"

text \<open>The salt of the new password is draw 1; the identifier and the key pair are draw 0.\<close>

definition CreateUser :: "prims \<Rightarrow> ctx \<Rightarrow> string \<Rightarrow> create_user_request \<Rightarrow> user_view handler" where
  "CreateUser pr cx token req s =
     (if NormalizeUsername (cu_username req) = [] \<or> length (cu_password req) < 8
         \<or> length (cu_password req) > MaxPasswordLen
      then (bad (BadRequest ''username and password of at least 8 characters are required''), s)
      else case CreateUser_authorize pr cx token req s of
        Inl err \<Rightarrow> (Inl err, s)
      | Inr _ \<Rightarrow>
          (case HashPasswordArgon2id pr cx 1 (cu_password req) of
             Inl err \<Rightarrow> (bad (InternalErr err), s)
           | Inr passwordHash \<Rightarrow> CreateUser_commit pr cx token req passwordHash s))"

section \<open>Creating money\<close>

record mint_request =
  mr_colony_id :: string
  mr_user_id :: string
  mr_amount :: int

record mint_outcome =
  mo_account :: "account_view option"
  mo_pending :: "pending_action option"

definition PendingActionTTL :: int where
  "PendingActionTTL = 72 * hour"

text \<open>\<open>newPendingAction\<close> of \<open>service/approvals.go\<close>; the caller goes on to fill the action in, so the
  result is its key and the action as stored.\<close>

definition newPendingAction ::
    "ctx \<Rightarrow> user \<Rightarrow> string \<Rightarrow> string \<Rightarrow> (string \<times> pending_action) handler" where
  "newPendingAction cx proposer typ colonyID s =
     (case NewID cx 0 ''act'' of
        Inl err \<Rightarrow> (bad (InternalErr err), s)
      | Inr ident \<Rightarrow>
          let pa = \<lparr>p_id = ident, p_type = typ, p_colony_id = colonyID, p_user_id = [], p_trade_id = [],
                    p_amount = 0, p_mint_cap = None, p_require_dual = None, p_proposed_by = u_id proposer,
                    p_proposed_at = format_rfc3339 (now cx),
                    p_expires_at = format_rfc3339 (now cx + PendingActionTTL), p_status = ''pending'',
                    p_decided_by = [], p_decided_at = []\<rparr>
          in (Inr (ident, pa), s\<lparr>st_pending_actions := AList.update ident pa (st_pending_actions s)\<rparr>))"

definition put_action :: "string \<Rightarrow> pending_action \<Rightarrow> app_state \<Rightarrow> app_state" where
  "put_action k pa s = s\<lparr>st_pending_actions := AList.update k pa (st_pending_actions s)\<rparr>"

definition applyMint ::
    "prims \<Rightarrow> ctx \<Rightarrow> string \<Rightarrow> string \<Rightarrow> int \<Rightarrow> string \<Rightarrow> string \<Rightarrow> account_view handler" where
  "applyMint pr cx ck userID amount actorID approvedBy s =
     (let colony = colony_at s ck
      in case (map_of (c_accounts colony) userID, map_of (st_users s) userID) of
           (Some acc, Some user) \<Rightarrow>
             (case AddChecked (c_minted_total colony) amount of
                Inl err \<Rightarrow> (Inl err, s)
              | Inr newTotal \<Rightarrow>
                  if newTotal > EffectiveMintCap colony then (bad (Conflict ''mint cap exceeded''), s)
                  else case AddChecked (a_balance acc) amount of
                    Inl err \<Rightarrow> (Inl err, s)
                  | Inr newBalance \<Rightarrow>
                      let s1 = upd_colony ck (\<lambda>c. c\<lparr>c_minted_total := newTotal\<rparr>) s;
                          s2 = upd_colony ck (upd_account userID (\<lambda>a. a\<lparr>a_balance := newBalance\<rparr>)) s1;
                          payload = [(''user_id'', JStr (u_id user)), (''amount'', JInt amount),
                                     (''new_balance'', JInt newBalance), (''minted_total'', JInt newTotal)] @
                                    (if approvedBy \<noteq> [] then [(''approved_by'', JStr approvedBy)] else []);
                          s3 = upd_colony ck (appendLedger pr cx ''funds_minted'' actorID (go_map payload)) s2
                      in (Inr \<lparr>av_user_id = u_id user, av_username = u_username user,
                             av_display_name = u_display_name user, av_colony_id = c_id colony,
                             av_colony_name = c_name colony, av_balance = newBalance\<rparr>, s3))
         | _ \<Rightarrow> (bad (NotFound ''account not found''), s))"

definition mint :: "prims \<Rightarrow> ctx \<Rightarrow> string \<Rightarrow> mint_request \<Rightarrow> bool \<Rightarrow> mint_outcome handler" where
  "mint pr cx token req allowPropose s =
     (if \<not> ValidAmount (mr_amount req)
      then (bad (BadRequest ''amount must be positive and at most the per-mint limit''), s)
      else StoreUpdateScoped cx (\<lambda>s.
        case actorFromToken pr cx s token of
          Inl err \<Rightarrow> (Inl err, s)
        | Inr (ak, actor) \<Rightarrow>
            let ck = mr_colony_id req
            in if \<not> canManageColony actor ck then (bad (Forbidden ''not allowed to mint in this colony''), s)
               else case map_of (st_colonies s) ck of
                 None \<Rightarrow> (bad (NotFound ''colony not found''), s)
               | Some colony \<Rightarrow>
                   if map_of (c_accounts colony) (mr_user_id req) = None
                   then (bad (NotFound ''account not found''), s)
                   else if map_of (st_users s) (mr_user_id req) = None
                   then (bad (NotFound ''user not found''), s)
                   else if c_require_dual_control colony
                   then if \<not> allowPropose
                     then (bad (Conflict ''colony requires dual control; propose the mint via the approvals flow''), s)
                     else if (case AddChecked (c_minted_total colony) (mr_amount req) of Inl _ \<Rightarrow> True | Inr _ \<Rightarrow> False)
                             \<or> wrap64 (c_minted_total colony + mr_amount req) > EffectiveMintCap colony
                     then (bad (Conflict ''mint cap exceeded''), s)
                     else (case newPendingAction cx actor ''mint'' (c_id colony) s of
                         (Inl err, s1) \<Rightarrow> (Inl err, s1)
                       | (Inr (pk, pa), s1) \<Rightarrow>
                           let pa' = pa\<lparr>p_user_id := mr_user_id req, p_amount := mr_amount req\<rparr>;
                               s2 = put_action pk pa' s1;
                               s3 = upd_colony ck (appendLedger pr cx ''mint_proposed'' (u_id actor)
                                 (go_map [(''action_id'', JStr (p_id pa')), (''user_id'', JStr (mr_user_id req)),
                                          (''amount'', JInt (mr_amount req))])) s2
                           in (Inr \<lparr>mo_account = None, mo_pending = Some pa'\<rparr>, s3))
                   else (case applyMint pr cx ck (mr_user_id req) (mr_amount req) (u_id actor) [] s of
                       (Inl err, s1) \<Rightarrow> (Inl err, s1)
                     | (Inr view, s1) \<Rightarrow> (Inr \<lparr>mo_account = Some view, mo_pending = None\<rparr>, s1))) s)"

definition MintOrPropose :: "prims \<Rightarrow> ctx \<Rightarrow> string \<Rightarrow> mint_request \<Rightarrow> mint_outcome handler" where
  "MintOrPropose pr cx token req = mint pr cx token req True"

text \<open>\<open>Mint\<close> reads through \<open>out.Account\<close>, which a mint that does not propose always sets.\<close>

definition Mint :: "prims \<Rightarrow> ctx \<Rightarrow> string \<Rightarrow> mint_request \<Rightarrow> account_view handler" where
  "Mint pr cx token req s =
     (case mint pr cx token req False s of
        (Inl err, s1) \<Rightarrow> (Inl err, s1)
      | (Inr out, s1) \<Rightarrow>
          (case mo_account out of
             None \<Rightarrow> (Inl (Panic ''nil pointer dereference''), s1)
           | Some view \<Rightarrow> (Inr view, s1)))"

end
