(* ===== verification/Lifecycle.thy ===== *)
theory Lifecycle
  imports Admin
begin

text \<open>
  \<open>service/trade_lifecycle.go\<close>: expiry, refunds and cancellation of trades.  The functions that work
  on an envelope take the keys of the two colonies, of the trade and the envelope; they are called
  from the bundle import (theory \<open>Import\<close>).  \<open>applyRefund\<close> is the single place where a refund touches
  a balance; \<open>SweepExpired\<close> is the background job.
\<close>

definition isExpired :: "trade \<Rightarrow> int \<Rightarrow> bool" where
  "isExpired t at =
     (if t_expires_at t = [] then False
      else case parse_rfc3339 (t_expires_at t) of None \<Rightarrow> False | Some exp \<Rightarrow> at > exp)"

definition acceptedAfterExpiry :: "trade \<Rightarrow> string \<Rightarrow> bool result" where
  "acceptedAfterExpiry t acceptedAt =
     (if t_expires_at t = [] then Inr False
      else case parse_rfc3339 (t_expires_at t) of
        None \<Rightarrow> Inr False
      | Some exp \<Rightarrow>
          (case parse_rfc3339 acceptedAt of
             None \<Rightarrow> bad (BadRequest ''invalid accepted_at'')
           | Some at \<Rightarrow> Inr (at > exp)))"

section \<open>Pointers\<close>

definition zero_trade :: trade where
  "zero_trade =
   \<lparr>t_id = [], t_asset = [], t_price = 0, t_seller_user_id = [], t_buyer_user_id = [], t_seller_colony_id = [],
    t_buyer_colony_id = [], t_status = OtherStatus [], t_offer_envelope_id = [], t_acceptance_envelope_id = [],
    t_settlement_envelope_id = [], t_seller_signature = [], t_buyer_signature = [], t_created_at = [],
    t_accepted_at = [], t_settled_at = [], t_completed_at = [], t_expires_at = [], t_refunded_at = [],
    t_cancel_envelope_id = [], t_refund_envelope_id = []\<rparr>"

definition trade_at :: "app_state \<Rightarrow> string \<Rightarrow> trade" where
  "trade_at s k = gget zero_trade (st_trades s) k"

definition push_outbox :: "envelope \<Rightarrow> colony \<Rightarrow> colony" where
  "push_outbox env c = c\<lparr>c_outbox := c_outbox c @ [env]\<rparr>"

definition new_envelope :: "string \<Rightarrow> string \<Rightarrow> string \<Rightarrow> string \<Rightarrow> json \<Rightarrow> string \<Rightarrow> envelope" where
  "new_envelope envID typ from_id to_id payload created =
   \<lparr>e_id = envID, e_type = typ, e_from_colony_id = from_id, e_to_colony_id = to_id, e_payload = Some payload,
    e_colony_signature = [], e_created_at = created\<rparr>"

text \<open>\<open>AdvanceTrade\<close> through a pointer.\<close>

definition advance_at :: "string \<Rightarrow> trade_status \<Rightarrow> app_state \<Rightarrow> app_state result" where
  "advance_at tk to s =
     (case AdvanceTrade (trade_at s tk) to of
        Inl err \<Rightarrow> Inl err
      | Inr t' \<Rightarrow> Inr (upd_trade tk (\<lambda>_. t') s))"

text \<open>What an import of one envelope returns: the key of the trade and whether it was applied.\<close>

type_synonym import_result = "string \<times> bool"

section \<open>Refunds\<close>

definition decideRefund ::
    "prims \<Rightarrow> ctx \<Rightarrow> nat \<Rightarrow> string \<Rightarrow> string \<Rightarrow> string \<Rightarrow> envelope \<Rightarrow> string \<Rightarrow> import_result handler" where
  "decideRefund pr cx draw source target tk trigger reason s =
     (let trade = trade_at s tk;
          src = colony_at s source;
          tgt = colony_at s target;
          decidedAt = format_rfc3339 (now cx);
          payload = encode_refund \<lparr>rp_trade_id = t_id trade, rp_buyer_user_id = t_buyer_user_id trade,
            rp_buyer_colony_id = c_id src, rp_seller_colony_id = c_id tgt, rp_refund_amount = t_price trade,
            rp_reason = reason, rp_decided_at = decidedAt\<rparr>
      in case NewID cx draw ''env'' of
           Inl err \<Rightarrow> (bad (InternalErr err), s)
         | Inr envID \<Rightarrow>
             (let env0 = new_envelope envID ''refund'' (c_id tgt) (c_id src) payload decidedAt
              in case SignEnvelope pr tgt env0 of
                   Inl err \<Rightarrow> (Inl (internal err), s)
                 | Inr sig \<Rightarrow>
                     (let env = env0\<lparr>e_colony_signature := sig\<rparr>
                      in case advance_at tk StatusRefundPendingExport s of
                           Inl err \<Rightarrow> (Inl err, s)
                         | Inr s1 \<Rightarrow>
                             let s2 = (if e_type trigger = ''cancel_request''
                                       then upd_trade tk (\<lambda>t. t\<lparr>t_cancel_envelope_id := e_id trigger\<rparr>) s1
                                       else if e_type trigger = ''acceptance''
                                       then upd_trade tk (\<lambda>t. t\<lparr>t_acceptance_envelope_id := e_id trigger\<rparr>) s1
                                       else s1);
                                 s3 = upd_trade tk (\<lambda>t. t\<lparr>t_refund_envelope_id := envID\<rparr>) s2;
                                 s4 = upd_colony target (push_outbox env) s3;
                                 s5 = upd_colony target (appendLedger pr cx ''trade_refund_decided''
                                   (t_seller_user_id trade)
                                   (go_map [(''trade_id'', JStr (t_id trade)),
                                            (''trigger_envelope_id'', JStr (e_id trigger)),
                                            (''refund_envelope_id'', JStr envID), (''reason'', JStr reason)])) s4
                             in (Inr (tk, True), s5))))"

definition applyRefund ::
    "prims \<Rightarrow> ctx \<Rightarrow> string \<Rightarrow> string \<Rightarrow> string \<Rightarrow> (string \<times> json) list \<Rightarrow> unit handler" where
  "applyRefund pr cx tk actorID ledgerType extra s =
     (let trade = trade_at s tk;
          ck = t_buyer_colony_id trade
      in case map_of (st_colonies s) ck of
           None \<Rightarrow> (bad (NotFound ''buyer colony not found''), s)
         | Some colony \<Rightarrow>
             (case map_of (c_accounts colony) (t_buyer_user_id trade) of
                None \<Rightarrow> (bad (NotFound ''buyer account not found''), s)
              | Some acc \<Rightarrow>
                  (case AddChecked (a_balance acc) (t_price trade) of
                     Inl err \<Rightarrow> (Inl err, s)
                   | Inr newBalance \<Rightarrow>
                       (case advance_at tk StatusRefunded s of
                          Inl err \<Rightarrow> (Inl err, s)
                        | Inr s1 \<Rightarrow>
                            let s2 = upd_colony ck (upd_account (t_buyer_user_id trade)
                                  (\<lambda>a. a\<lparr>a_balance := newBalance\<rparr>)) s1;
                                s3 = upd_trade tk (\<lambda>t. t\<lparr>t_refunded_at := format_rfc3339 (now cx)\<rparr>) s2;
                                payload = foldl (\<lambda>m (k, v). AList.update k v m)
                                  [(''trade_id'', JStr (t_id trade)), (''refund_amount'', JInt (t_price trade)),
                                   (''new_balance'', JInt newBalance)] extra;
                                s4 = upd_colony ck (appendLedger pr cx ledgerType actorID (go_map payload)) s3
                            in (Inr (), s4)))))"

section \<open>Imports that end a trade\<close>

definition importCancel ::
    "prims \<Rightarrow> ctx \<Rightarrow> nat \<Rightarrow> string \<Rightarrow> string \<Rightarrow> envelope \<Rightarrow> import_result handler" where
  "importCancel pr cx draw source target env s =
     (let src = colony_at s source; tgt = colony_at s target
      in case decode_cancel (e_payload env) of
           None \<Rightarrow> (bad (BadRequest ''invalid cancel payload''), s)
         | Some payload \<Rightarrow>
             if cp_buyer_colony_id payload \<noteq> c_id src
             then (bad (BadRequest ''cancel buyer colony does not match envelope source''), s)
             else case map_of (st_users s) (cp_buyer_user_id payload) of
               None \<Rightarrow> (bad (BadRequest ''cancel buyer unknown or not in source colony''), s)
             | Some buyer \<Rightarrow>
                 if u_colony_id buyer \<noteq> c_id src
                 then (bad (BadRequest ''cancel buyer unknown or not in source colony''), s)
                 else case VerifyWithPublicKey pr (u_public_key buyer)
                     (CancelUserSignable (cp_trade_id payload) (cp_buyer_user_id payload)
                        (cp_buyer_colony_id payload) (cp_requested_at payload)) (cp_buyer_signature payload) of
                   Some (Panic msg) \<Rightarrow> (Inl (Panic msg), s)
                 | Some _ \<Rightarrow> (bad (BadRequest ''invalid buyer signature''), s)
                 | None \<Rightarrow>
                     (let tk = cp_trade_id payload
                      in case map_of (st_trades s) tk of
                           None \<Rightarrow> (bad (NotFound ''trade not found''), s)
                         | Some trade \<Rightarrow>
                             if t_seller_colony_id trade \<noteq> c_id tgt \<or> t_buyer_colony_id trade \<noteq> c_id src
                                \<or> t_buyer_user_id trade \<noteq> u_id buyer
                             then (bad (BadRequest ''cancel payload does not match trade''), s)
                             else case ClassifyStep (t_status trade) StatusAcceptancePendingExport of
                               StepApply \<Rightarrow> decideRefund pr cx draw source target tk env
                                 ''cancel requested by buyer before acceptance was credited'' s
                             | StepTooEarly \<Rightarrow> (bad (Conflict (''trade is '' @ status_text (t_status trade) @
                                 ''; nothing to cancel yet'')), s)
                             | StepDuplicate \<Rightarrow> (Inr (tk, False), s)))"

definition importRefund ::
    "prims \<Rightarrow> ctx \<Rightarrow> string \<Rightarrow> string \<Rightarrow> envelope \<Rightarrow> import_result handler" where
  "importRefund pr cx source target env s =
     (let src = colony_at s source; tgt = colony_at s target
      in case decode_refund (e_payload env) of
           None \<Rightarrow> (bad (BadRequest ''invalid refund payload''), s)
         | Some payload \<Rightarrow>
             (let tk = rp_trade_id payload
              in case map_of (st_trades s) tk of
                   None \<Rightarrow> (bad (NotFound ''trade not found''), s)
                 | Some trade \<Rightarrow>
                     if rp_seller_colony_id payload \<noteq> c_id src \<or> rp_buyer_colony_id payload \<noteq> c_id tgt
                        \<or> t_seller_colony_id trade \<noteq> c_id src \<or> t_buyer_colony_id trade \<noteq> c_id tgt
                        \<or> t_buyer_user_id trade \<noteq> rp_buyer_user_id payload
                        \<or> t_price trade \<noteq> rp_refund_amount payload
                     then (bad (BadRequest ''refund payload does not match trade''), s)
                     else case ClassifyStep (t_status trade) StatusRefundPendingExport of
                       StepApply \<Rightarrow>
                         (case applyRefund pr cx tk (t_buyer_user_id trade) ''trade_refunded''
                             [(''refund_envelope_id'', JStr (e_id env))] s of
                            (Inl err, s1) \<Rightarrow> (Inl err, s1)
                          | (Inr _, s1) \<Rightarrow> (Inr (tk, True), s1))
                     | StepTooEarly \<Rightarrow> (bad (Conflict (''trade is '' @ status_text (t_status trade) @
                         ''; refund was not decided by the seller colony'')), s)
                     | StepDuplicate \<Rightarrow> (Inr (tk, False), s)))"

section \<open>Cancellation\<close>

definition CancelTrade_update :: "prims \<Rightarrow> ctx \<Rightarrow> string \<Rightarrow> string \<Rightarrow> trade_view handler" where
  "CancelTrade_update pr cx token tradeID s =
      (case actorFromToken pr cx s token of
         Inl err \<Rightarrow> (Inl err, s)
       | Inr (ak, actor) \<Rightarrow>
           (case map_of (st_trades s) tradeID of
              None \<Rightarrow> (bad (NotFound ''trade not found''), s)
            | Some trade \<Rightarrow>
                if \<not> HasRole actor ''super_admin'' \<and> \<not> HasRole actor ''trader''
                then (bad (Forbidden ''trader role is required''), s)
                else if t_status trade = StatusOfferPendingExport \<or> t_status trade = StatusOfferReceived
                then
                  (if u_id actor \<noteq> t_seller_user_id trade \<and> \<not> HasRole actor ''super_admin''
                   then (bad (Forbidden ''only the seller can cancel an unaccepted offer''), s)
                   else case advance_at tradeID StatusCancelled s of
                     Inl err \<Rightarrow> (Inl err, s)
                   | Inr s1 \<Rightarrow>
                       let s2 = upd_colony (t_seller_colony_id trade) (appendLedger pr cx ''trade_offer_cancelled''
                             (u_id actor) (go_map [(''trade_id'', JStr (t_id trade))])) s1
                       in (Inr (toTradeView s2 (trade_at s2 tradeID)), s2))
                else if t_status trade = StatusAcceptancePendingExport
                then
                  (case map_of (st_users s) (t_buyer_user_id trade) of
                     None \<Rightarrow> (bad (NotFound ''buyer not found''), s)
                   | Some buyer \<Rightarrow>
                       if u_id actor \<noteq> u_id buyer \<and> \<not> HasRole actor ''super_admin''
                       then (bad (Forbidden ''only the buyer can request cancellation of an acceptance''), s)
                       else let ck = u_colony_id buyer
                            in case map_of (st_colonies s) ck of
                              None \<Rightarrow> (bad (NotFound ''buyer colony not found''), s)
                            | Some buyerColony \<Rightarrow>
                                let requestedAt = format_rfc3339 (now cx)
                                in case SignWithPrivateKey pr (u_private_key buyer)
                                     (CancelUserSignable (t_id trade) (u_id buyer) (u_colony_id buyer) requestedAt) of
                                   Inl err \<Rightarrow> (Inl (internal err), s)
                                 | Inr sig \<Rightarrow>
                                     (case NewID cx 0 ''env'' of
                                        Inl err \<Rightarrow> (bad (InternalErr err), s)
                                      | Inr envID \<Rightarrow>
                                          let payload = encode_cancel \<lparr>cp_trade_id = t_id trade,
                                                cp_buyer_user_id = u_id buyer, cp_buyer_colony_id = u_colony_id buyer,
                                                cp_requested_at = requestedAt, cp_buyer_signature = sig\<rparr>;
                                              env0 = new_envelope envID ''cancel_request'' (u_colony_id buyer)
                                                (t_seller_colony_id trade) payload requestedAt
                                          in case SignEnvelope pr buyerColony env0 of
                                               Inl err \<Rightarrow> (Inl (internal err), s)
                                             | Inr esig \<Rightarrow>
                                                 let s1 = upd_colony ck (push_outbox (env0\<lparr>e_colony_signature := esig\<rparr>)) s;
                                                     s2 = upd_trade tradeID (\<lambda>t. t\<lparr>t_cancel_envelope_id := envID\<rparr>) s1;
                                                     s3 = upd_colony ck (appendLedger pr cx ''trade_cancel_requested''
                                                       (u_id actor) (go_map [(''trade_id'', JStr (t_id trade)),
                                                                             (''envelope_id'', JStr envID)])) s2
                                                 in (Inr (toTradeView s3 (trade_at s3 tradeID)), s3)))
                else (bad (Conflict (''trade cannot be cancelled in state '' @ status_text (t_status trade))), s)))"

definition CancelTrade :: "prims \<Rightarrow> ctx \<Rightarrow> string \<Rightarrow> string \<Rightarrow> trade_view handler" where
  "CancelTrade pr cx token tradeID = StoreUpdateScoped cx (CancelTrade_update pr cx token tradeID)"

section \<open>The expiry sweep\<close>

definition due :: "ctx \<Rightarrow> trade \<Rightarrow> bool" where
  "due cx t \<longleftrightarrow> (t_status t = StatusOfferPendingExport \<or> t_status t = StatusOfferReceived) \<and> isExpired t (now cx)"

text \<open>The loop over the trades of the state at its start; expiring one trade does not change another.\<close>

fun sweep :: "prims \<Rightarrow> ctx \<Rightarrow> string list \<Rightarrow> nat \<Rightarrow> nat handler" where
  "sweep pr cx [] n s = (Inr n, s)"
| "sweep pr cx (tk # tks) n s =
     (let t = trade_at s tk
      in if \<not> due cx t then sweep pr cx tks n s
         else case advance_at tk StatusExpired s of
           Inl err \<Rightarrow> (Inl err, s)
         | Inr s1 \<Rightarrow>
             sweep pr cx tks (n + 1)
               (upd_colony (t_seller_colony_id t) (appendLedger pr cx ''trade_offer_expired'' []
                  (go_map [(''trade_id'', JStr (t_id t)), (''expires_at'', JStr (t_expires_at t))])) s1))"

definition SweepExpired :: "prims \<Rightarrow> ctx \<Rightarrow> nat handler" where
  "SweepExpired pr cx s =
     (let n = length (filter (\<lambda>(k, t). due cx t) (st_trades s))
      in if n = 0 then (Inr 0, s)
         else StoreUpdateScoped cx (\<lambda>s. sweep pr cx (map fst (st_trades s)) 0 s) s)"

end
