(* ===== verification/Trade.thy ===== *)
theory Trade
  imports Lifecycle
begin

text \<open>
  The first half of \<open>service/trade.go\<close>: an offer is created by its seller, accepted by its buyer
  (who is debited at once), and the envelopes waiting in a colony's outbox are exported as a bundle.
\<close>

definition DefaultOfferTTL :: int where
  "DefaultOfferTTL = 7 * 24 * hour"

definition MinOfferTTL :: int where
  "MinOfferTTL = 60 * second"

definition MaxOfferTTL :: int where
  "MaxOfferTTL = 90 * 24 * hour"

record create_offer_request =
  co_seller_user_id :: string
  co_buyer_user_id :: string
  co_asset :: string
  co_price :: int
  co_ttl_seconds :: int

text \<open>\<open>time.Duration(req.TTLSeconds) * time.Second\<close> wraps around.\<close>

definition offer_ttl :: "create_offer_request \<Rightarrow> int result" where
  "offer_ttl req =
     (if co_ttl_seconds req = 0 then Inr DefaultOfferTTL
      else let ttl = wrap64 (co_ttl_seconds req * second)
           in if ttl < MinOfferTTL \<or> ttl > MaxOfferTTL
              then bad (BadRequest ''ttl_seconds must be between 60 and 7776000'')
              else Inr ttl)"

definition CreateOffer_update ::
    "prims \<Rightarrow> ctx \<Rightarrow> string \<Rightarrow> create_offer_request \<Rightarrow> string \<Rightarrow> int \<Rightarrow> trade_view handler" where
  "CreateOffer_update pr cx token req asset ttl s =
      (case actorFromToken pr cx s token of
        Inl err \<Rightarrow> (Inl err, s)
      | Inr (ak, actor) \<Rightarrow>
          (case (map_of (st_users s) (co_seller_user_id req), map_of (st_users s) (co_buyer_user_id req)) of
             (Some seller, Some buyer) \<Rightarrow>
               if u_colony_id seller = [] \<or> u_colony_id buyer = []
               then (bad (BadRequest ''seller and buyer must belong to colonies''), s)
               else if u_id seller = u_id buyer
               then (bad (BadRequest ''seller and buyer must be different users''), s)
               else if u_colony_id seller = u_colony_id buyer
               then (bad (BadRequest ''this POC expects inter-colony trades''), s)
               else if u_id actor \<noteq> u_id seller \<and> \<not> HasRole actor ''super_admin''
               then (bad (Forbidden ''only the seller can create this offer''), s)
               else if \<not> HasRole actor ''super_admin'' \<and> \<not> HasRole actor ''trader''
               then (bad (Forbidden ''trader role is required''), s)
               else let sk = u_colony_id seller
               in (case (map_of (st_colonies s) sk, map_of (st_colonies s) (u_colony_id buyer)) of
                 (Some sellerColony, Some buyerColony) \<Rightarrow>
                   (case NewID cx 0 ''trd'' of
                      Inl err \<Rightarrow> (bad (InternalErr err), s)
                    | Inr tradeID \<Rightarrow>
                        let createdAt = format_rfc3339 (now cx);
                            expiresAt = format_rfc3339 (now cx + ttl)
                        in case SignWithPrivateKey pr (u_private_key seller)
                             (OfferUserSignable tradeID asset (co_price req) (u_id seller) (u_colony_id seller)
                                (u_id buyer) (u_colony_id buyer) createdAt expiresAt) of
                           Inl err \<Rightarrow> (Inl (internal err), s)
                         | Inr sellerSig \<Rightarrow>
                             let payload = encode_offer \<lparr>op_trade_id = tradeID, op_asset = asset,
                                   op_price = co_price req, op_seller_user_id = u_id seller,
                                   op_seller_name = u_display_name seller,
                                   op_seller_colony_id = u_colony_id seller, op_buyer_user_id = u_id buyer,
                                   op_buyer_name = u_display_name buyer,
                                   op_buyer_colony_id = u_colony_id buyer, op_created_at = createdAt,
                                   op_expires_at = expiresAt, op_seller_signature = sellerSig\<rparr>
                             in case NewID cx 1 ''env'' of
                                  Inl err \<Rightarrow> (bad (InternalErr err), s)
                                | Inr envID \<Rightarrow>
                                    let env0 = new_envelope envID ''offer'' (u_colony_id seller)
                                          (u_colony_id buyer) payload createdAt
                                    in case SignEnvelope pr sellerColony env0 of
                                         Inl err \<Rightarrow> (Inl (internal err), s)
                                       | Inr esig \<Rightarrow>
                                           let s1 = upd_colony sk (push_outbox (env0\<lparr>e_colony_signature := esig\<rparr>)) s;
                                               trade = zero_trade\<lparr>t_id := tradeID, t_asset := asset,
                                                 t_price := co_price req, t_seller_user_id := u_id seller,
                                                 t_buyer_user_id := u_id buyer,
                                                 t_seller_colony_id := u_colony_id seller,
                                                 t_buyer_colony_id := u_colony_id buyer,
                                                 t_status := StatusOfferPendingExport,
                                                 t_offer_envelope_id := envID,
                                                 t_seller_signature := sellerSig, t_created_at := createdAt,
                                                 t_expires_at := expiresAt\<rparr>;
                                               s2 = s1\<lparr>st_trades := AList.update tradeID trade (st_trades s1)\<rparr>;
                                               s3 = upd_colony sk (appendLedger pr cx ''trade_offer_created''
                                                 (u_id actor) (go_map [(''trade_id'', JStr tradeID),
                                                   (''asset'', JStr asset), (''price'', JInt (co_price req)),
                                                   (''buyer_user_id'', JStr (u_id buyer)),
                                                   (''envelope_id'', JStr envID),
                                                   (''expires_at'', JStr expiresAt)])) s2
                                           in (Inr (toTradeView s3 trade), s3))
               | _ \<Rightarrow> (bad (NotFound ''seller or buyer colony not found''), s))
           | _ \<Rightarrow> (bad (NotFound ''seller or buyer not found''), s)))"

definition CreateOffer :: "prims \<Rightarrow> ctx \<Rightarrow> string \<Rightarrow> create_offer_request \<Rightarrow> trade_view handler" where
  "CreateOffer pr cx token req s =
     (let asset = trim_space (co_asset req)
      in if asset = [] \<or> \<not> ValidAmount (co_price req)
         then (bad (BadRequest ''asset and a positive price within limits are required''), s)
         else case offer_ttl req of
           Inl err \<Rightarrow> (Inl err, s)
         | Inr ttl \<Rightarrow> StoreUpdateScoped cx (CreateOffer_update pr cx token req asset ttl) s)"


definition AcceptTrade_update :: "prims \<Rightarrow> ctx \<Rightarrow> string \<Rightarrow> string \<Rightarrow> trade_view handler" where
  "AcceptTrade_update pr cx token tradeID s =
      (case actorFromToken pr cx s token of
         Inl err \<Rightarrow> (Inl err, s)
       | Inr (ak, actor) \<Rightarrow>
           (case map_of (st_trades s) tradeID of
              None \<Rightarrow> (bad (NotFound ''trade not found''), s)
            | Some trade \<Rightarrow>
                if t_status trade \<noteq> StatusOfferReceived
                then (bad (Conflict ''trade is not ready for acceptance''), s)
                else if isExpired trade (now cx) then (bad (Conflict ''offer has expired''), s)
                else case map_of (st_users s) (t_buyer_user_id trade) of
                  None \<Rightarrow> (bad (NotFound ''buyer not found''), s)
                | Some buyer \<Rightarrow>
                    if u_id actor \<noteq> u_id buyer \<and> \<not> HasRole actor ''super_admin''
                    then (bad (Forbidden ''only the buyer can accept this trade''), s)
                    else if \<not> HasRole actor ''super_admin'' \<and> \<not> HasRole actor ''trader''
                    then (bad (Forbidden ''trader role is required''), s)
                    else let ck = u_colony_id buyer
                    in (case map_of (st_colonies s) ck of
                      None \<Rightarrow> (bad (NotFound ''buyer colony not found''), s)
                    | Some buyerColony \<Rightarrow>
                        (case map_of (c_accounts buyerColony) (u_id buyer) of
                           None \<Rightarrow> (bad (NotFound ''buyer account not found''), s)
                         | Some acc \<Rightarrow>
                             if a_balance acc < t_price trade
                             then (bad (Conflict ''insufficient buyer balance''), s)
                             else let acceptedAt = format_rfc3339 (now cx)
                             in case SignWithPrivateKey pr (u_private_key buyer)
                                  (AcceptanceUserSignable (t_id trade) (u_id buyer) (u_colony_id buyer)
                                     (t_price trade) acceptedAt) of
                                Inl err \<Rightarrow> (Inl (internal err), s)
                              | Inr buyerSig \<Rightarrow>
                                  let payload = encode_acceptance \<lparr>ap_trade_id = t_id trade,
                                        ap_buyer_user_id = u_id buyer, ap_buyer_colony_id = u_colony_id buyer,
                                        ap_debit_amount = t_price trade, ap_accepted_at = acceptedAt,
                                        ap_buyer_signature = buyerSig\<rparr>
                                  in case NewID cx 0 ''env'' of
                                       Inl err \<Rightarrow> (bad (InternalErr err), s)
                                     | Inr envID \<Rightarrow>
                                         let env0 = new_envelope envID ''acceptance'' (u_colony_id buyer)
                                               (t_seller_colony_id trade) payload acceptedAt
                                         in case SignEnvelope pr buyerColony env0 of
                                              Inl err \<Rightarrow> (Inl (internal err), s)
                                            | Inr esig \<Rightarrow>
                                                let newBal = wrap64 (a_balance acc - t_price trade);
                                                    s1 = upd_colony ck (upd_account (u_id buyer)
                                                           (\<lambda>a. a\<lparr>a_balance := newBal\<rparr>)) s;
                                                    s2 = upd_colony ck (push_outbox (env0\<lparr>e_colony_signature := esig\<rparr>)) s1
                                                in case advance_at tradeID StatusAcceptancePendingExport s2 of
                                                     Inl err \<Rightarrow> (Inl err, s2)
                                                   | Inr s3 \<Rightarrow>
                                                       let s4 = upd_trade tradeID (\<lambda>t. t\<lparr>t_accepted_at := acceptedAt,
                                                             t_buyer_signature := buyerSig,
                                                             t_acceptance_envelope_id := envID\<rparr>) s3;
                                                           s5 = upd_colony ck (appendLedger pr cx ''trade_accepted''
                                                             (u_id actor) (go_map [(''trade_id'', JStr (t_id trade)),
                                                               (''debit_amount'', JInt (t_price trade)),
                                                               (''new_balance'', JInt newBal),
                                                               (''envelope_id'', JStr envID)])) s4
                                                       in (Inr (toTradeView s5 (trade_at s5 tradeID)), s5)))))"

definition AcceptTrade :: "prims \<Rightarrow> ctx \<Rightarrow> string \<Rightarrow> string \<Rightarrow> trade_view handler" where
  "AcceptTrade pr cx token tradeID = StoreUpdateScoped cx (AcceptTrade_update pr cx token tradeID)"

definition ExportBundle :: "prims \<Rightarrow> ctx \<Rightarrow> string \<Rightarrow> string \<Rightarrow> string \<Rightarrow> relay_bundle handler" where
  "ExportBundle pr cx token colonyID toColonyID s =
     (if colonyID = [] \<or> toColonyID = []
      then (bad (BadRequest ''colony_id and to_colony_id are required''), s)
      else StoreUpdateScoped cx (\<lambda>s.
        case actorFromToken pr cx s token of
          Inl err \<Rightarrow> (Inl err, s)
        | Inr (ak, actor) \<Rightarrow>
            if \<not> canRelay actor colonyID
            then (bad (Forbidden ''not allowed to export for this colony''), s)
            else case map_of (st_colonies s) colonyID of
              None \<Rightarrow> (bad (NotFound ''colony not found''), s)
            | Some colony \<Rightarrow>
                if map_of (st_colonies s) toColonyID = None
                then (bad (NotFound ''destination colony not found''), s)
                else
                  let messages = filter (\<lambda>env. e_to_colony_id env = toColonyID) (c_outbox colony);
                      remaining = filter (\<lambda>env. e_to_colony_id env \<noteq> toColonyID) (c_outbox colony);
                      s1 = upd_colony colonyID (\<lambda>c. c\<lparr>c_outbox := remaining\<rparr>) s
                  in case NewID cx 0 ''bdl'' of
                       Inl err \<Rightarrow> (bad (InternalErr err), s1)
                     | Inr bundleID \<Rightarrow>
                         let bndl = \<lparr>b_id = bundleID, b_from_colony_id = colonyID, b_to_colony_id = toColonyID,
                               b_exported_at = format_rfc3339 (now cx), b_messages = map Some messages\<rparr>;
                             s2 = s1\<lparr>st_bundles := AList.update bundleID bndl (st_bundles s1)\<rparr>;
                             s3 = upd_colony colonyID (appendLedger pr cx ''bundle_exported'' (u_id actor)
                               (go_map [(''bundle_id'', JStr bundleID), (''to_colony_id'', JStr toColonyID),
                                        (''message_count'', JInt (int (length messages)))])) s2
                         in (Inr bndl, s3)) s)"

end
