(* ===== verification/Import.thy ===== *)
theory Import
  imports Trade
begin

text \<open>
  The second half of \<open>service/trade.go\<close>: importing a bundle.  \<open>import_messages\<close> is the loop over the
  bundle's envelopes, \<open>importEnvelope\<close> dispatches on the envelope's type, and one function per type
  applies it: an offer creates or confirms the trade, an acceptance credits the seller and emits the
  settlement (or a refund when it came too late), a settlement completes the trade.  The draw number
  of an envelope's random bytes is its position in the bundle.
\<close>

section \<open>One envelope\<close>

definition importOffer ::
    "prims \<Rightarrow> ctx \<Rightarrow> string \<Rightarrow> string \<Rightarrow> envelope \<Rightarrow> import_result handler" where
  "importOffer pr cx source target env s =
     (let src = colony_at s source; tgt = colony_at s target
      in case decode_offer (e_payload env) of
           None \<Rightarrow> (bad (BadRequest ''invalid offer payload''), s)
         | Some payload \<Rightarrow>
             if op_seller_colony_id payload \<noteq> c_id src \<or> op_buyer_colony_id payload \<noteq> c_id tgt
             then (bad (BadRequest ''offer colonies do not match envelope route''), s)
             else if \<not> ValidAmount (op_price payload) \<or> trim_space (op_asset payload) = []
             then (bad (BadRequest ''offer has invalid asset or price''), s)
             else case (map_of (st_users s) (op_seller_user_id payload), map_of (st_users s) (op_buyer_user_id payload)) of
               (Some seller, Some buyer) \<Rightarrow>
                 if u_colony_id seller \<noteq> c_id src \<or> u_colony_id buyer \<noteq> c_id tgt
                 then (bad (BadRequest ''offer users do not belong to the stated colonies''), s)
                 else (case VerifyWithPublicKey pr (u_public_key seller)
                     (OfferUserSignable (op_trade_id payload) (op_asset payload) (op_price payload)
                        (op_seller_user_id payload) (op_seller_colony_id payload) (op_buyer_user_id payload)
                        (op_buyer_colony_id payload) (op_created_at payload) (op_expires_at payload))
                     (op_seller_signature payload) of
                   Some (Panic msg) \<Rightarrow> (Inl (Panic msg), s)
                 | Some _ \<Rightarrow> (bad (BadRequest ''invalid seller signature''), s)
                 | None \<Rightarrow>
                     (let tk = op_trade_id payload;
                          finish = (\<lambda>s1. (Inr (tk, True),
                            upd_colony target (appendLedger pr cx ''trade_offer_imported'' (u_id buyer)
                              (go_map [(''trade_id'', JStr (t_id (trade_at s1 tk))), (''from_colony_id'', JStr (c_id src)),
                                       (''offer_envelope_id'', JStr (e_id env))])) s1))
                      in case map_of (st_trades s) tk of
                           None \<Rightarrow>
                             let trade = zero_trade\<lparr>t_id := op_trade_id payload, t_asset := op_asset payload,
                                   t_price := op_price payload, t_seller_user_id := op_seller_user_id payload,
                                   t_buyer_user_id := op_buyer_user_id payload,
                                   t_seller_colony_id := op_seller_colony_id payload,
                                   t_buyer_colony_id := op_buyer_colony_id payload,
                                   t_created_at := op_created_at payload,
                                   t_seller_signature := op_seller_signature payload,
                                   t_status := StatusOfferReceived, t_offer_envelope_id := e_id env,
                                   t_expires_at := op_expires_at payload\<rparr>
                             in finish (s\<lparr>st_trades := AList.update tk trade (st_trades s)\<rparr>)
                         | Some trade \<Rightarrow>
                             if t_expires_at trade \<noteq> op_expires_at payload \<or> t_asset trade \<noteq> op_asset payload
                                \<or> t_price trade \<noteq> op_price payload
                                \<or> t_seller_user_id trade \<noteq> op_seller_user_id payload
                                \<or> t_buyer_user_id trade \<noteq> op_buyer_user_id payload
                                \<or> t_seller_colony_id trade \<noteq> op_seller_colony_id payload
                                \<or> t_buyer_colony_id trade \<noteq> op_buyer_colony_id payload
                             then (bad (BadRequest ''offer does not match existing trade''), s)
                             else (case StepTrade trade StatusOfferPendingExport StatusOfferReceived of
                               Inl err \<Rightarrow> (Inl err, s)
                             | Inr (applied, trade') \<Rightarrow>
                                 if \<not> applied then (Inr (tk, False), s)
                                 else finish (upd_trade tk (\<lambda>_. trade'\<lparr>t_offer_envelope_id := e_id env,
                                        t_seller_signature := op_seller_signature payload\<rparr>) s))))
             | _ \<Rightarrow> (bad (NotFound ''seller or buyer not found''), s))"

text \<open>
  \<open>importAcceptance\<close> after its \<open>switch\<close>: the checked additions, the settlement envelope, and then the
  mutations.
\<close>

definition creditAcceptance ::
    "prims \<Rightarrow> ctx \<Rightarrow> nat \<Rightarrow> string \<Rightarrow> string \<Rightarrow> string \<Rightarrow> envelope \<Rightarrow> acceptance_payload \<Rightarrow> user \<Rightarrow> account \<Rightarrow>
     import_result handler" where
  "creditAcceptance pr cx draw source target tk env payload seller sellerAcc s =
     (let src = colony_at s source; tgt = colony_at s target; trade = trade_at s tk
      in case AddChecked (a_balance sellerAcc) (t_price trade) of
           Inl err \<Rightarrow> (Inl err, s)
         | Inr newBalance \<Rightarrow>
             (case AddChecked (gget 0 (c_net_claims tgt) (c_id src)) (t_price trade) of
                Inl err \<Rightarrow> (Inl err, s)
              | Inr newClaims \<Rightarrow>
                  (case AddChecked (gget 0 (c_net_obligations src) (c_id tgt)) (t_price trade) of
                     Inl err \<Rightarrow> (Inl err, s)
                   | Inr newObligations \<Rightarrow>
                       let settledAt = format_rfc3339 (now cx);
                           settlement = encode_settlement \<lparr>sp_trade_id = t_id trade, sp_seller_user_id = u_id seller,
                             sp_seller_colony_id = c_id tgt, sp_credit_amount = t_price trade,
                             sp_accepted_from_colony = c_id src, sp_settled_at = settledAt\<rparr>
                       in case NewID cx draw ''env'' of
                            Inl err \<Rightarrow> (bad (InternalErr err), s)
                          | Inr envID \<Rightarrow>
                              let env0 = new_envelope envID ''settlement'' (c_id tgt) (c_id src) settlement settledAt
                              in case SignEnvelope pr tgt env0 of
                                   Inl err \<Rightarrow> (Inl (internal err), s)
                                 | Inr sig \<Rightarrow>
                                     (case advance_at tk StatusSettlementPendingExport s of
                                        Inl err \<Rightarrow> (Inl err, s)
                                      | Inr s1 \<Rightarrow>
                                          let s2 = upd_colony target (upd_account (u_id seller)
                                                (\<lambda>a. a\<lparr>a_balance := newBalance\<rparr>)) s1;
                                              s3 = upd_colony target (\<lambda>c. c\<lparr>c_net_claims :=
                                                AList.update (c_id src) newClaims (c_net_claims c)\<rparr>) s2;
                                              s4 = upd_colony source (\<lambda>c. c\<lparr>c_net_obligations :=
                                                AList.update (c_id tgt) newObligations (c_net_obligations c)\<rparr>) s3;
                                              s5 = upd_trade tk (\<lambda>t. t\<lparr>t_accepted_at := ap_accepted_at payload,
                                                t_acceptance_envelope_id := e_id env,
                                                t_buyer_signature := ap_buyer_signature payload,
                                                t_settled_at := settledAt\<rparr>) s4;
                                              s6 = upd_colony target (push_outbox (env0\<lparr>e_colony_signature := sig\<rparr>)) s5;
                                              s7 = upd_trade tk (\<lambda>t. t\<lparr>t_settlement_envelope_id := envID\<rparr>) s6;
                                              s8 = upd_colony target (appendLedger pr cx ''trade_acceptance_imported''
                                                (u_id seller) (go_map [(''trade_id'', JStr (t_id trade)),
                                                  (''acceptance_envelope_id'', JStr (e_id env)),
                                                  (''credited_amount'', JInt (t_price trade)),
                                                  (''new_balance'', JInt newBalance),
                                                  (''settlement_envelope_id'', JStr envID)])) s7
                                          in (Inr (tk, True), s8)))))"

definition importAcceptance ::
    "prims \<Rightarrow> ctx \<Rightarrow> nat \<Rightarrow> string \<Rightarrow> string \<Rightarrow> envelope \<Rightarrow> import_result handler" where
  "importAcceptance pr cx draw source target env s =
     (let src = colony_at s source; tgt = colony_at s target
      in case decode_acceptance (e_payload env) of
           None \<Rightarrow> (bad (BadRequest ''invalid acceptance payload''), s)
         | Some payload \<Rightarrow>
             if ap_buyer_colony_id payload \<noteq> c_id src
             then (bad (BadRequest ''acceptance buyer colony does not match envelope source''), s)
             else case map_of (st_users s) (ap_buyer_user_id payload) of
               None \<Rightarrow> (bad (NotFound ''buyer not found''), s)
             | Some buyer \<Rightarrow>
                 if u_colony_id buyer \<noteq> c_id src
                 then (bad (BadRequest ''buyer does not belong to the source colony''), s)
                 else (case VerifyWithPublicKey pr (u_public_key buyer)
                     (AcceptanceUserSignable (ap_trade_id payload) (ap_buyer_user_id payload)
                        (ap_buyer_colony_id payload) (ap_debit_amount payload) (ap_accepted_at payload))
                     (ap_buyer_signature payload) of
                   Some (Panic msg) \<Rightarrow> (Inl (Panic msg), s)
                 | Some _ \<Rightarrow> (bad (BadRequest ''invalid buyer signature''), s)
                 | None \<Rightarrow>
                     (let tk = ap_trade_id payload
                      in case map_of (st_trades s) tk of
                           None \<Rightarrow> (bad (NotFound ''trade not found''), s)
                         | Some trade \<Rightarrow>
                             if t_seller_colony_id trade \<noteq> c_id tgt \<or> t_buyer_colony_id trade \<noteq> c_id src
                                \<or> t_buyer_user_id trade \<noteq> u_id buyer \<or> t_price trade \<noteq> ap_debit_amount payload
                             then (bad (BadRequest ''acceptance payload does not match trade''), s)
                             else case map_of (st_users s) (t_seller_user_id trade) of
                               None \<Rightarrow> (bad (NotFound ''seller not found''), s)
                             | Some seller \<Rightarrow>
                                 (case map_of (c_accounts tgt) (u_id seller) of
                                    None \<Rightarrow> (bad (NotFound ''seller account not found''), s)
                                  | Some sellerAcc \<Rightarrow>
                                      if t_status trade = StatusAcceptancePendingExport
                                      then
                                        (case acceptedAfterExpiry trade (ap_accepted_at payload) of
                                           Inl err \<Rightarrow> (Inl err, s)
                                         | Inr True \<Rightarrow> decideRefund pr cx draw source target tk env
                                             ''acceptance arrived after offer expiry'' s
                                         | Inr False \<Rightarrow>
                                             creditAcceptance pr cx draw source target tk env payload seller sellerAcc s)
                                      else if t_status trade = StatusExpired \<or> t_status trade = StatusCancelled
                                      then
                                        (if t_acceptance_envelope_id trade = []
                                         then (bad (Conflict ''acceptance for a closed offer without a recorded debit''), s)
                                         else decideRefund pr cx draw source target tk env
                                           (''offer was '' @ status_text (t_status trade) @ '' before acceptance arrived'') s)
                                      else if ClassifyStep (t_status trade) StatusAcceptancePendingExport = StepTooEarly
                                      then (bad (Conflict (''trade is '' @ status_text (t_status trade) @ '', expected '' @
                                              status_text StatusAcceptancePendingExport)), s)
                                      else (Inr (tk, False), s)))))"

definition importSettlement ::
    "prims \<Rightarrow> ctx \<Rightarrow> string \<Rightarrow> string \<Rightarrow> envelope \<Rightarrow> import_result handler" where
  "importSettlement pr cx source target env s =
     (let src = colony_at s source; tgt = colony_at s target
      in case decode_settlement (e_payload env) of
           None \<Rightarrow> (bad (BadRequest ''invalid settlement payload''), s)
         | Some payload \<Rightarrow>
             (let tk = sp_trade_id payload
              in case map_of (st_trades s) tk of
                   None \<Rightarrow> (bad (NotFound ''trade not found''), s)
                 | Some trade \<Rightarrow>
                     if sp_seller_colony_id payload \<noteq> c_id src \<or> sp_accepted_from_colony payload \<noteq> c_id tgt
                        \<or> sp_seller_user_id payload \<noteq> t_seller_user_id trade
                        \<or> t_buyer_colony_id trade \<noteq> c_id tgt \<or> t_seller_colony_id trade \<noteq> c_id src
                        \<or> t_price trade \<noteq> sp_credit_amount payload
                     then (bad (BadRequest ''settlement payload does not match trade''), s)
                     else (case StepTrade trade StatusSettlementPendingExport StatusCompleted of
                       Inl err \<Rightarrow> (Inl err, s)
                     | Inr (applied, trade') \<Rightarrow>
                         if \<not> applied then (Inr (tk, False), s)
                         else
                           let completedAt = format_rfc3339 (now cx);
                               s1 = upd_trade tk (\<lambda>_. trade'\<lparr>t_settled_at := sp_settled_at payload,
                                      t_completed_at := completedAt, t_settlement_envelope_id := e_id env\<rparr>) s;
                               s2 = upd_colony target (appendLedger pr cx ''trade_completed'' (t_buyer_user_id trade)
                                 (go_map [(''trade_id'', JStr (t_id trade)),
                                          (''settlement_envelope_id'', JStr (e_id env)),
                                          (''completed_at'', JStr completedAt)])) s1
                           in (Inr (tk, True), s2))))"

definition importEnvelope ::
    "prims \<Rightarrow> ctx \<Rightarrow> nat \<Rightarrow> string \<Rightarrow> string \<Rightarrow> envelope \<Rightarrow> import_result handler" where
  "importEnvelope pr cx draw source target env s =
     (if e_type env = ''offer'' then importOffer pr cx source target env s
      else if e_type env = ''acceptance'' then importAcceptance pr cx draw source target env s
      else if e_type env = ''settlement'' then importSettlement pr cx source target env s
      else if e_type env = ''cancel_request'' then importCancel pr cx draw source target env s
      else if e_type env = ''refund'' then importRefund pr cx source target env s
      else (bad (BadRequest ''unsupported envelope type''), s))"

section \<open>A bundle\<close>

record import_bundle_result =
  ib_bundle_id :: string
  ib_imported_count :: nat
  ib_skipped_duplicates :: nat
  ib_generated_outbox :: int
  ib_processed_types :: "string list"
  ib_trades :: "trade_view list"

text \<open>The error text of \<open>fmt.Sprintf("%v", err)\<close>.\<close>

fun error_text :: "go_error \<Rightarrow> string" where
  "error_text (AppErr e) = err_message e"
| "error_text (PlainErr m) = m"
| "error_text (Panic m) = m"

fun import_messages ::
    "prims \<Rightarrow> ctx \<Rightarrow> nat \<Rightarrow> string \<Rightarrow> string \<Rightarrow> envelope option list \<Rightarrow> import_bundle_result \<Rightarrow>
     import_bundle_result handler" where
  "import_messages pr cx i source target [] res s = (Inr res, s)"
| "import_messages pr cx i source target (None # msgs) res s = import_messages pr cx (Suc i) source target msgs res s"
| "import_messages pr cx i source target (Some env # msgs) res s =
     (let src = colony_at s source; tgt = colony_at s target
      in if e_to_colony_id env \<noteq> c_id tgt \<or> e_from_colony_id env \<noteq> c_id src
         then (bad (BadRequest ''bundle contains message with mismatched route''), s)
         else if gget False (c_processed_envelopes tgt) (e_id env)
         then import_messages pr cx (Suc i) source target msgs
                (res\<lparr>ib_skipped_duplicates := ib_skipped_duplicates res + 1\<rparr>) s
         else case verifyEnvelope pr src env of
           Some (Panic msg) \<Rightarrow> (Inl (Panic msg), s)
         | Some err \<Rightarrow> (bad (BadRequest (''invalid envelope '' @ e_id env @ '': '' @ error_text err)), s)
         | None \<Rightarrow>
             (case importEnvelope pr cx i source target env s of
                (Inl err, s1) \<Rightarrow> (Inl err, s1)
              | (Inr (tk, applied), s1) \<Rightarrow>
                  let s2 = upd_colony target (\<lambda>c. c\<lparr>c_processed_envelopes :=
                             AList.update (e_id env) True (c_processed_envelopes c)\<rparr>) s1
                  in if \<not> applied
                     then import_messages pr cx (Suc i) source target msgs
                            (res\<lparr>ib_skipped_duplicates := ib_skipped_duplicates res + 1\<rparr>) s2
                     else import_messages pr cx (Suc i) source target msgs
                            (res\<lparr>ib_imported_count := ib_imported_count res + 1,
                                 ib_processed_types := ib_processed_types res @ [e_type env],
                                 ib_trades := ib_trades res @ [toTradeView s2 (trade_at s2 tk)]\<rparr>) s2))"

definition ImportBundle ::
    "prims \<Rightarrow> ctx \<Rightarrow> string \<Rightarrow> string \<Rightarrow> relay_bundle \<Rightarrow> import_bundle_result handler" where
  "ImportBundle pr cx token colonyID bndl s =
     (if colonyID = [] then (bad (BadRequest ''colony_id is required''), s)
      else StoreUpdateScoped cx (\<lambda>s.
        case actorFromToken pr cx s token of
          Inl err \<Rightarrow> (Inl err, s)
        | Inr (ak, actor) \<Rightarrow>
            if \<not> canRelay actor colonyID
            then (bad (Forbidden ''not allowed to import for this colony''), s)
            else case map_of (st_colonies s) colonyID of
              None \<Rightarrow> (bad (NotFound ''target colony not found''), s)
            | Some tgt \<Rightarrow>
                if b_to_colony_id bndl \<noteq> colonyID
                then (bad (BadRequest ''bundle destination does not match target colony''), s)
                else case map_of (st_colonies s) (b_from_colony_id bndl) of
                  None \<Rightarrow> (bad (NotFound ''source colony not found''), s)
                | Some src \<Rightarrow>
                    if gget [] (c_trusted_colonies tgt) (c_id src) \<noteq> c_public_key src
                    then (bad (Forbidden ''target colony does not trust the source colony''), s)
                    else (case import_messages pr cx 0 (b_from_colony_id bndl) colonyID (b_messages bndl)
                        \<lparr>ib_bundle_id = b_id bndl, ib_imported_count = 0, ib_skipped_duplicates = 0,
                         ib_generated_outbox = 0, ib_processed_types = [], ib_trades = []\<rparr> s of
                      (Inl err, s1) \<Rightarrow> (Inl err, s1)
                    | (Inr res, s1) \<Rightarrow>
                        let res' = res\<lparr>ib_generated_outbox :=
                              int (length (c_outbox (colony_at s1 colonyID))) - int (length (c_outbox tgt))\<rparr>;
                            s2 = s1\<lparr>st_bundles := AList.update (b_id bndl) bndl (st_bundles s1)\<rparr>;
                            s3 = upd_colony colonyID (appendLedger pr cx ''bundle_imported'' (u_id actor)
                              (go_map [(''bundle_id'', JStr (b_id bndl)), (''from_colony_id'', JStr (c_id src)),
                                       (''imported_count'', JInt (int (ib_imported_count res'))),
                                       (''skipped_duplicates'', JInt (int (ib_skipped_duplicates res')))])) s2
                        in (Inr res', s3))) s)"

end
