(* ===== verification/Approvals.thy ===== *)
theory Approvals
  imports Import
begin

text \<open>
  \<open>service/approvals.go\<close>: supply policy and dual control.  Some actions are only proposed by one
  administrator and take effect when a different one approves.
\<close>

section \<open>Policy\<close>

record policy_request =
  pq_mint_cap :: "int option"
  pq_require_dual_control :: "bool option"

record policy_outcome =
  po_colony :: "colony_view option"
  po_pending :: "pending_action option"

text \<open>\<open>None\<close> is the nil error.\<close>

definition validatePolicy :: "colony \<Rightarrow> policy_request \<Rightarrow> app_error option" where
  "validatePolicy c req =
     (case pq_mint_cap req of
        None \<Rightarrow> None
      | Some cap \<Rightarrow>
          if cap \<le> 0 \<or> cap < c_minted_total c \<or> cap > DefaultMintCap
          then Some (BadRequest ''mint_cap must be positive, at least the amount already minted, and at most the platform maximum'')
          else None)"

definition applyPolicy ::
    "prims \<Rightarrow> ctx \<Rightarrow> string \<Rightarrow> policy_request \<Rightarrow> string \<Rightarrow> string \<Rightarrow> unit handler" where
  "applyPolicy pr cx ck req actorID approvedBy s =
     (case validatePolicy (colony_at s ck) req of
        Some err \<Rightarrow> (bad err, s)
      | None \<Rightarrow>
          let s1 = (case pq_mint_cap req of None \<Rightarrow> s | Some cap \<Rightarrow> upd_colony ck (\<lambda>c. c\<lparr>c_mint_cap := cap\<rparr>) s);
              s2 = (case pq_require_dual_control req of
                      None \<Rightarrow> s1
                    | Some b \<Rightarrow> upd_colony ck (\<lambda>c. c\<lparr>c_require_dual_control := b\<rparr>) s1);
              payload = [(''mint_cap'', JInt (EffectiveMintCap (colony_at s2 ck))),
                         (''require_dual_control'', JBool (c_require_dual_control (colony_at s2 ck)))] @
                        (if approvedBy \<noteq> [] then [(''approved_by'', JStr approvedBy)] else []);
              s3 = upd_colony ck (appendLedger pr cx ''policy_changed'' actorID (go_map payload)) s2
          in (Inr (), s3))"

definition SetPolicy :: "prims \<Rightarrow> ctx \<Rightarrow> string \<Rightarrow> string \<Rightarrow> policy_request \<Rightarrow> policy_outcome handler" where
  "SetPolicy pr cx token colonyID req s =
     (if pq_mint_cap req = None \<and> pq_require_dual_control req = None
      then (bad (BadRequest ''mint_cap or require_dual_control is required''), s)
      else StoreUpdateScoped cx (\<lambda>s.
        case actorFromToken pr cx s token of
          Inl err \<Rightarrow> (Inl err, s)
        | Inr (ak, actor) \<Rightarrow>
            if \<not> HasRole actor ''super_admin''
            then (bad (Forbidden ''only super_admin can change supply policy''), s)
            else case map_of (st_colonies s) colonyID of
              None \<Rightarrow> (bad (NotFound ''colony not found''), s)
            | Some colony \<Rightarrow>
                (case validatePolicy colony req of
                   Some err \<Rightarrow> (bad err, s)
                 | None \<Rightarrow>
                     if c_require_dual_control colony
                     then (case newPendingAction cx actor ''policy'' colonyID s of
                         (Inl err, s1) \<Rightarrow> (Inl err, s1)
                       | (Inr (pk, pa), s1) \<Rightarrow>
                           let pa' = pa\<lparr>p_mint_cap := pq_mint_cap req, p_require_dual := pq_require_dual_control req\<rparr>;
                               s2 = put_action pk pa' s1;
                               s3 = upd_colony colonyID (appendLedger pr cx ''policy_proposed'' (u_id actor)
                                 (go_map [(''action_id'', JStr (p_id pa'))])) s2
                           in (Inr \<lparr>po_colony = None, po_pending = Some pa'\<rparr>, s3))
                     else (case applyPolicy pr cx colonyID req (u_id actor) [] s of
                         (Inl err, s1) \<Rightarrow> (Inl err, s1)
                       | (Inr _, s1) \<Rightarrow>
                           (Inr \<lparr>po_colony = Some (toColonyView (colony_at s1 colonyID)), po_pending = None\<rparr>, s1)))) s)"

section \<open>Force refunds\<close>

definition ProposeForceRefund :: "prims \<Rightarrow> ctx \<Rightarrow> string \<Rightarrow> string \<Rightarrow> pending_action handler" where
  "ProposeForceRefund pr cx token tradeID =
     StoreUpdateScoped cx (\<lambda>s.
       case actorFromToken pr cx s token of
         Inl err \<Rightarrow> (Inl err, s)
       | Inr (ak, actor) \<Rightarrow>
           (case map_of (st_trades s) tradeID of
              None \<Rightarrow> (bad (NotFound ''trade not found''), s)
            | Some trade \<Rightarrow>
                if \<not> canManageColony actor (t_buyer_colony_id trade)
                then (bad (Forbidden ''only an admin of the buyer colony can propose a force refund''), s)
                else if \<not> IsEscrowed (t_status trade)
                then (bad (Conflict (''trade is not in escrow ('' @ status_text (t_status trade) @ '')'')), s)
                else (case newPendingAction cx actor ''force_refund'' (t_buyer_colony_id trade) s of
                    (Inl err, s1) \<Rightarrow> (Inl err, s1)
                  | (Inr (pk, pa), s1) \<Rightarrow>
                      let pa' = pa\<lparr>p_trade_id := t_id trade, p_amount := t_price trade\<rparr>;
                          s2 = put_action pk pa' s1;
                          s3 = upd_colony (t_buyer_colony_id trade) (appendLedger pr cx ''force_refund_proposed''
                            (u_id actor) (go_map [(''action_id'', JStr (p_id pa')), (''trade_id'', JStr (t_id trade))])) s2
                      in (Inr pa', s3))))"

section \<open>Decisions\<close>

definition ListApprovals :: "prims \<Rightarrow> ctx \<Rightarrow> string \<Rightarrow> app_state \<Rightarrow> pending_action list result" where
  "ListApprovals pr cx token =
     StoreReadScoped (\<lambda>s.
       case actorFromToken pr cx s token of
         Inl err \<Rightarrow> Inl err
       | Inr (ak, actor) \<Rightarrow>
           Inr (sort_slice (\<lambda>a b. p_proposed_at a > p_proposed_at b \<or>
                  (p_proposed_at a = p_proposed_at b \<and> p_id a > p_id b))
                (map snd (filter (\<lambda>(k, pa). canManageColony actor (p_colony_id pa)) (st_pending_actions s)))))"

text \<open>The \<open>switch\<close> over the action's type, run when the decision is to approve.\<close>

definition executeAction ::
    "prims \<Rightarrow> ctx \<Rightarrow> string \<Rightarrow> pending_action \<Rightarrow> user \<Rightarrow> unit handler" where
  "executeAction pr cx ck pa actor s =
     (if p_type pa = ''mint''
      then (case applyMint pr cx ck (p_user_id pa) (p_amount pa) (p_proposed_by pa) (u_id actor) s of
              (Inl err, s1) \<Rightarrow> (Inl err, s1)
            | (Inr _, s1) \<Rightarrow> (Inr (), s1))
      else if p_type pa = ''force_refund''
      then (case map_of (st_trades s) (p_trade_id pa) of
              None \<Rightarrow> (bad (Conflict ''trade is no longer in escrow''), s)
            | Some trade \<Rightarrow>
                if \<not> IsEscrowed (t_status trade) then (bad (Conflict ''trade is no longer in escrow''), s)
                else applyRefund pr cx (p_trade_id pa) (u_id actor) ''trade_force_refunded''
                  [(''proposed_by'', JStr (p_proposed_by pa)), (''approved_by'', JStr (u_id actor))] s)
      else if p_type pa = ''policy''
      then applyPolicy pr cx ck \<lparr>pq_mint_cap = p_mint_cap pa, pq_require_dual_control = p_require_dual pa\<rparr>
             (p_proposed_by pa) (u_id actor) s
      else (bad (InternalErr (''unknown action type '' @ p_type pa)), s))"

definition DecideApproval :: "prims \<Rightarrow> ctx \<Rightarrow> string \<Rightarrow> string \<Rightarrow> bool \<Rightarrow> pending_action handler" where
  "DecideApproval pr cx token actionID approve =
     StoreUpdateScoped cx (\<lambda>s.
       case actorFromToken pr cx s token of
         Inl err \<Rightarrow> (Inl err, s)
       | Inr (ak, actor) \<Rightarrow>
           (case map_of (st_pending_actions s) actionID of
              None \<Rightarrow> (bad (NotFound ''approval not found''), s)
            | Some pa \<Rightarrow>
                if \<not> canManageColony actor (p_colony_id pa)
                then (bad (Forbidden ''not allowed to decide this approval''), s)
                else if u_id actor = p_proposed_by pa
                then (bad (Forbidden ''the proposer cannot decide their own proposal''), s)
                else if p_status pa \<noteq> ''pending''
                then (bad (Conflict (''approval already '' @ p_status pa)), s)
                else if (case parse_rfc3339 (p_expires_at pa) of None \<Rightarrow> True | Some exp \<Rightarrow> now cx > exp)
                then (bad (Conflict ''approval has expired''), s)
                else case map_of (st_colonies s) (p_colony_id pa) of
                  None \<Rightarrow> (bad (NotFound ''colony not found''), s)
                | Some colony \<Rightarrow>
                    let ck = p_colony_id pa;
                        finish = (\<lambda>status s1.
                          let pa' = pa\<lparr>p_status := status, p_decided_by := u_id actor,
                                p_decided_at := format_rfc3339 (now cx)\<rparr>
                          in (Inr pa', s1\<lparr>st_pending_actions := AList.map_entry actionID (\<lambda>_. pa') (st_pending_actions s1)\<rparr>))
                    in if approve
                       then (case executeAction pr cx ck pa actor s of
                           (Inl err, s1) \<Rightarrow> (Inl err, s1)
                         | (Inr _, s1) \<Rightarrow> finish ''approved'' s1)
                       else finish ''rejected'' (upd_colony ck (appendLedger pr cx ''approval_rejected'' (u_id actor)
                              (go_map [(''action_id'', JStr (p_id pa)), (''type'', JStr (p_type pa))])) s)))"

end
