(* ===== verification/Sessions.thy ===== *)
theory Sessions
  imports Approvals
begin

text \<open>
  \<open>service/auth.go\<close>: the first administrator, login and logout.  Passwords are hashed and verified
  outside the store's lock, so \<open>Login\<close> is a read, some pure work and one or two updates; each update
  is a definition of its own (\<open>noteLoginFailure_update\<close>, \<open>Login_commit\<close>) which may run in any later
  state.  \<open>BurnPasswordCheck\<close> only spends time and is left out.
\<close>

definition NeedsBootstrap :: "app_state \<Rightarrow> bool result" where
  "NeedsBootstrap = StoreReadScoped (\<lambda>s. Inr (UserCount s = 0))"

record bootstrap_request =
  br_username :: string
  br_display_name :: string
  br_password :: string

definition Bootstrap_commit ::
    "prims \<Rightarrow> ctx \<Rightarrow> string \<Rightarrow> string \<Rightarrow> string \<Rightarrow> auth_response handler" where
  "Bootstrap_commit pr cx username display hash =
     StoreUpdateScoped cx (\<lambda>s.
       if length (st_users s) > 0 then (bad (Conflict ''bootstrap has already been completed''), s)
       else if userExistsByUsername s username then (bad (Conflict ''username already exists''), s)
       else case newUser pr cx username display hash [] [''super_admin''] of
         Inl err \<Rightarrow> (Inl err, s)
       | Inr user \<Rightarrow>
           createSessionForUser pr cx 2 user (s\<lparr>st_users := AList.update (u_id user) user (st_users s)\<rparr>))"

definition Bootstrap :: "prims \<Rightarrow> ctx \<Rightarrow> bootstrap_request \<Rightarrow> auth_response handler" where
  "Bootstrap pr cx req s =
     (let username = NormalizeUsername (br_username req)
      in if username = [] \<or> length (br_password req) < 8 \<or> length (br_password req) > MaxPasswordLen
         then (bad (BadRequest ''username and password of at least 8 characters are required''), s)
         else
           let display = (if trim_space (br_display_name req) = [] then username else trim_space (br_display_name req))
           in case NeedsBootstrap s of
                Inl err \<Rightarrow> (Inl err, s)
              | Inr needs \<Rightarrow>
                  if \<not> needs then (bad (Conflict ''bootstrap has already been completed''), s)
                  else case HashPasswordArgon2id pr cx 1 (br_password req) of
                    Inl err \<Rightarrow> (bad (InternalErr err), s)
                  | Inr hash \<Rightarrow> Bootstrap_commit pr cx username display hash s)"

section \<open>Login\<close>

record login_request =
  lr_username :: string
  lr_password :: string
  lr_totp_code :: string

definition invalidCreds :: "string \<Rightarrow> app_error" where
  "invalidCreds reason = (Unauthorized ''invalid credentials'')\<lparr>err_reason := reason\<rparr>"

definition mfa_required :: app_error where
  "mfa_required = (Unauthorized ''a one-time code is required'')\<lparr>err_code := ''mfa_required'', err_reason := ''mfa_code_missing''\<rparr>"

text \<open>The update of \<open>noteLoginFailure\<close>; its caller ignores the error.\<close>

definition noteLoginFailure_update :: "ctx \<Rightarrow> string \<Rightarrow> bool handler" where
  "noteLoginFailure_update cx userID =
     StoreUpdateScoped cx (\<lambda>s.
       case map_of (st_users s) userID of
         None \<Rightarrow> (Inr False, s)
       | Some u \<Rightarrow>
           let n = wrap64 (u_failed_logins u + 1)
           in if n \<ge> MaxFailedLogins
              then (Inr True, upd_user userID (\<lambda>u. u\<lparr>u_failed_logins := 0,
                      u_locked_until := format_rfc3339 (lock_clock cx + LockoutDuration)\<rparr>) s)
              else (Inr False, upd_user userID (\<lambda>u. u\<lparr>u_failed_logins := n\<rparr>) s))"

definition noteLoginFailure :: "ctx \<Rightarrow> string \<Rightarrow> app_state \<Rightarrow> bool \<times> app_state" where
  "noteLoginFailure cx userID s =
     (case noteLoginFailure_update cx userID s of
        (Inl err, s1) \<Rightarrow> (False, s1)
      | (Inr locked, s1) \<Rightarrow> (locked, s1))"

record cred =
  cr_id :: string
  cr_salt :: string
  cr_hash :: string
  cr_secret :: string
  cr_last_step :: int
  cr_ok :: bool
  cr_locked :: bool
  cr_mfa :: bool

definition zero_cred :: cred where
  "zero_cred = \<lparr>cr_id = [], cr_salt = [], cr_hash = [], cr_secret = [], cr_last_step = 0, cr_ok = False,
     cr_locked = False, cr_mfa = False\<rparr>"

definition Login_lookup :: "ctx \<Rightarrow> string \<Rightarrow> app_state \<Rightarrow> cred" where
  "Login_lookup cx username s =
     (case findUserByUsername s username of
        None \<Rightarrow> zero_cred
      | Some u \<Rightarrow>
          if \<not> u_active u then zero_cred
          else \<lparr>cr_id = u_id u, cr_salt = u_password_salt u, cr_hash = u_password_hash u, cr_secret = u_mfa_secret u,
                cr_last_step = u_mfa_last_step u, cr_ok = True, cr_locked = IsLocked cx u, cr_mfa = u_mfa_enabled u\<rparr>)"

definition Login_commit ::
    "prims \<Rightarrow> ctx \<Rightarrow> login_request \<Rightarrow> cred \<Rightarrow> string \<Rightarrow> auth_response handler" where
  "Login_commit pr cx req c upgraded =
     StoreUpdateScoped cx (\<lambda>s.
       case map_of (st_users s) (cr_id c) of
         None \<Rightarrow> (bad (invalidCreds ''changed_during_login''), s)
       | Some user \<Rightarrow>
           if \<not> u_active user \<or> u_password_hash user \<noteq> cr_hash c \<or> IsLocked cx user
           then (bad (invalidCreds ''changed_during_login''), s)
           else
             let step = VerifyTOTP pr cx (u_mfa_secret user) (lr_totp_code req) (u_mfa_last_step user)
             in if u_mfa_enabled user \<and> step = 0 then (bad (invalidCreds ''totp_replay''), s)
                else
                  let user1 = (if u_mfa_enabled user then user\<lparr>u_mfa_last_step := step\<rparr> else user);
                      user2 = (if upgraded \<noteq> [] then user1\<lparr>u_password_hash := upgraded, u_password_salt := []\<rparr> else user1);
                      user3 = user2\<lparr>u_failed_logins := 0, u_locked_until := []\<rparr>
                  in createSessionForUser pr cx 0 user3 (upd_user (cr_id c) (\<lambda>_. user3) s))"

definition Login_failed :: "ctx \<Rightarrow> cred \<Rightarrow> string \<Rightarrow> auth_response handler" where
  "Login_failed cx c reason s =
     (case noteLoginFailure cx (cr_id c) s of
        (locked, s1) \<Rightarrow> (bad (invalidCreds (if locked then reason @ ''_lockout_started'' else reason)), s1))"

definition Login :: "prims \<Rightarrow> ctx \<Rightarrow> login_request \<Rightarrow> auth_response handler" where
  "Login pr cx req s =
     (let username = NormalizeUsername (lr_username req)
      in if username = [] \<or> lr_password req = []
         then (bad (BadRequest ''username and password are required''), s)
         else if length (lr_password req) > MaxPasswordLen then (bad (invalidCreds ''oversized_password''), s)
         else
           let c = Login_lookup cx username s
           in if \<not> cr_ok c then (bad (invalidCreds ''unknown_or_inactive''), s)
              else if cr_locked c then (bad (invalidCreds ''locked''), s)
              else
                let (matched, legacy) = VerifyPassword pr (lr_password req) (cr_salt c) (cr_hash c)
                in if \<not> matched then Login_failed cx c ''bad_password'' s
                   else if cr_mfa c \<and> trim_space (lr_totp_code req) = [] then (bad mfa_required, s)
                   else if cr_mfa c \<and> VerifyTOTP pr cx (cr_secret c) (lr_totp_code req) (cr_last_step c) = 0
                   then Login_failed cx c ''bad_totp'' s
                   else if legacy
                   then (case HashPasswordArgon2id pr cx 1 (lr_password req) of
                           Inl err \<Rightarrow> (bad (InternalErr err), s)
                         | Inr h \<Rightarrow> Login_commit pr cx req c h s)
                   else Login_commit pr cx req c [] s)"

definition Logout :: "ctx \<Rightarrow> string \<Rightarrow> unit handler" where
  "Logout cx token =
     StoreUpdateScoped cx (\<lambda>s. (Inr (), s\<lparr>st_sessions := AList.delete token (st_sessions s)\<rparr>))"

definition Me :: "ctx \<Rightarrow> string \<Rightarrow> app_state \<Rightarrow> user_view result" where
  "Me cx token =
     StoreReadScoped (\<lambda>s.
       case actorFromTokenNoMFA cx s token of
         Inl err \<Rightarrow> Inl err
       | Inr (ak, actor) \<Rightarrow> Inr (toUserView actor))"

end
