(* ===== verification/UserAdmin.thy ===== *)
theory UserAdmin
  imports Sessions
begin

text \<open>
  \<open>service/security.go\<close>: MFA enrolment, password resets and changes, and the administration of other
  users.  As in theory \<open>Sessions\<close>, an operation that hashes a password between a read and an update
  has its update as a definition of its own.
\<close>

definition ActorID :: "ctx \<Rightarrow> string \<Rightarrow> app_state \<Rightarrow> string" where
  "ActorID cx token s =
     (if token = [] then []
      else case actorFromTokenNoMFA cx s token of Inl err \<Rightarrow> [] | Inr (ak, u) \<Rightarrow> u_id u)"

section \<open>MFA\<close>

record mfa_enrollment =
  me_secret :: string
  me_otpauth_url :: string

definition EnrollMFA :: "prims \<Rightarrow> ctx \<Rightarrow> string \<Rightarrow> mfa_enrollment handler" where
  "EnrollMFA pr cx token =
     StoreUpdateScoped cx (\<lambda>s.
       case actorFromTokenNoMFA cx s token of
         Inl err \<Rightarrow> (Inl err, s)
       | Inr (ak, actor) \<Rightarrow>
           if u_mfa_enabled actor
           then (bad (Conflict ''MFA is already enabled; ask an administrator to reset it first''), s)
           else case NewTOTPSecret pr cx 0 of
             Inl err \<Rightarrow> (bad (InternalErr err), s)
           | Inr secret \<Rightarrow>
               (Inr \<lparr>me_secret = secret, me_otpauth_url = OtpauthURL (u_username actor) secret\<rparr>,
                upd_user ak (\<lambda>u. u\<lparr>u_mfa_pending_secret := secret\<rparr>) s))"

definition ConfirmMFA :: "prims \<Rightarrow> ctx \<Rightarrow> string \<Rightarrow> string \<Rightarrow> user_view handler" where
  "ConfirmMFA pr cx token c =
     StoreUpdateScoped cx (\<lambda>s.
       case actorFromTokenNoMFA cx s token of
         Inl err \<Rightarrow> (Inl err, s)
       | Inr (ak, actor) \<Rightarrow>
           if u_mfa_pending_secret actor = [] then (bad (Conflict ''no MFA enrolment in progress''), s)
           else
             let step = VerifyTOTP pr cx (u_mfa_pending_secret actor) c 0
             in if step = 0 then (bad (BadRequest ''invalid code''), s)
                else
                  let actor' = actor\<lparr>u_mfa_secret := u_mfa_pending_secret actor, u_mfa_pending_secret := [],
                        u_mfa_enabled := True, u_mfa_last_step := step\<rparr>
                  in (Inr (toUserView actor'), upd_user ak (\<lambda>_. actor') s))"

section \<open>Administration of other users\<close>

text \<open>\<open>None\<close> is the nil error; the target is nil when its ID is unknown.\<close>

definition authorizeUserAdmin :: "user \<Rightarrow> user option \<Rightarrow> app_error option" where
  "authorizeUserAdmin actor target =
     (case target of
        None \<Rightarrow> Some (NotFound ''user not found'')
      | Some tgt \<Rightarrow>
          if u_id actor = u_id tgt then Some (Forbidden ''administrators cannot modify their own account here'')
          else if HasRole tgt ''super_admin'' \<and> \<not> HasRole actor ''super_admin''
          then Some (Forbidden ''only super_admin can administer a super_admin'')
          else if \<not> canManageColony actor (u_colony_id tgt)
          then Some (Forbidden ''not allowed to administer this user'')
          else None)"

definition dropSessions :: "string \<Rightarrow> string \<Rightarrow> app_state \<Rightarrow> app_state" where
  "dropSessions userID keep s =
     s\<lparr>st_sessions := filter (\<lambda>(tok, sess). \<not> (s_user_id sess = userID \<and> tok \<noteq> keep)) (st_sessions s)\<rparr>"

text \<open>
  The callbacks that administer another user share their beginning: the actor, the target and the
  authorisation.
\<close>

definition with_target ::
    "prims \<Rightarrow> ctx \<Rightarrow> string \<Rightarrow> string \<Rightarrow> (user \<Rightarrow> user \<Rightarrow> 'a handler) \<Rightarrow> 'a handler" where
  "with_target pr cx token userID k s =
     (case actorFromToken pr cx s token of
        Inl err \<Rightarrow> (Inl err, s)
      | Inr (ak, actor) \<Rightarrow>
          (case authorizeUserAdmin actor (map_of (st_users s) userID) of
             Some err \<Rightarrow> (bad err, s)
           | None \<Rightarrow>
               (case map_of (st_users s) userID of
                  None \<Rightarrow> (Inl (Panic ''nil pointer dereference''), s)
                | Some target \<Rightarrow> k actor target s)))"

record reset_token_view =
  rt_user_id :: string
  rt_reset_token :: string
  rt_expires_at :: string

definition IssueResetToken :: "prims \<Rightarrow> ctx \<Rightarrow> string \<Rightarrow> string \<Rightarrow> reset_token_view handler" where
  "IssueResetToken pr cx token userID =
     StoreUpdateScoped cx (with_target pr cx token userID (\<lambda>actor target s.
       case NewResetToken pr cx 0 (u_id target) of
         Inl err \<Rightarrow> (bad (InternalErr err), s)
       | Inr (tok, hash) \<Rightarrow>
           let exp = format_rfc3339 (lock_clock cx + ResetTokenTTL)
           in (Inr \<lparr>rt_user_id = u_id target, rt_reset_token = tok, rt_expires_at = exp\<rparr>,
               upd_user userID (\<lambda>u. u\<lparr>u_reset_token_hash := hash, u_reset_expires_at := exp\<rparr>) s)))"

definition reset_error :: "string \<Rightarrow> app_error" where
  "reset_error reason = (BadRequest ''invalid or expired reset token'')\<lparr>err_reason := reason\<rparr>"

definition valid_reset :: "ctx \<Rightarrow> string \<Rightarrow> user option \<Rightarrow> bool" where
  "valid_reset cx hash uo =
     (case uo of
        None \<Rightarrow> False
      | Some u \<Rightarrow>
          if \<not> u_active u \<or> u_reset_token_hash u = [] \<or> u_reset_token_hash u \<noteq> hash then False
          else case parse_rfc3339 (u_reset_expires_at u) of None \<Rightarrow> False | Some exp \<Rightarrow> lock_clock cx < exp)"

definition CompleteReset_commit :: "ctx \<Rightarrow> string \<Rightarrow> string \<Rightarrow> string \<Rightarrow> unit handler" where
  "CompleteReset_commit cx userID hash newHash =
     StoreUpdateScoped cx (\<lambda>s.
       if \<not> valid_reset cx hash (map_of (st_users s) userID) then (bad (reset_error ''consumed_or_expired''), s)
       else (Inr (), dropSessions userID [] (upd_user userID (\<lambda>u. u\<lparr>u_password_hash := newHash, u_password_salt := [],
              u_reset_token_hash := [], u_reset_expires_at := [], u_failed_logins := 0, u_locked_until := [],
              u_password_changed_at := format_rfc3339 (now cx)\<rparr>) s)))"

definition CompleteReset :: "prims \<Rightarrow> ctx \<Rightarrow> string \<Rightarrow> string \<Rightarrow> unit handler" where
  "CompleteReset pr cx resetToken newPassword s =
     (case ValidNewPassword newPassword of
        Some err \<Rightarrow> (bad err, s)
      | None \<Rightarrow>
          (case SplitResetToken pr resetToken of
             None \<Rightarrow> (bad (reset_error ''malformed''), s)
           | Some (userID, hash) \<Rightarrow>
               if \<not> valid_reset cx hash (map_of (st_users s) userID)
               then (bad (reset_error ''unknown_or_expired''), s)
               else case HashPasswordArgon2id pr cx 0 newPassword of
                 Inl err \<Rightarrow> (bad (InternalErr err), s)
               | Inr newHash \<Rightarrow> CompleteReset_commit cx userID hash newHash s))"

definition ChangePassword_commit :: "ctx \<Rightarrow> string \<Rightarrow> string \<Rightarrow> string \<Rightarrow> unit handler" where
  "ChangePassword_commit cx token oldHash newHash =
     StoreUpdateScoped cx (\<lambda>s.
       case actorFromTokenNoMFA cx s token of
         Inl err \<Rightarrow> (Inl err, s)
       | Inr (ak, u) \<Rightarrow>
           if u_password_hash u \<noteq> oldHash then (bad (Conflict ''password changed concurrently; retry''), s)
           else (Inr (), dropSessions (u_id u) token (upd_user ak (\<lambda>u. u\<lparr>u_password_hash := newHash,
                  u_password_salt := [], u_password_changed_at := format_rfc3339 (now cx)\<rparr>) s)))"

definition ChangePassword :: "prims \<Rightarrow> ctx \<Rightarrow> string \<Rightarrow> string \<Rightarrow> string \<Rightarrow> unit handler" where
  "ChangePassword pr cx token currentPassword newPassword s =
     (case ValidNewPassword newPassword of
        Some err \<Rightarrow> (bad err, s)
      | None \<Rightarrow>
          (case actorFromTokenNoMFA cx s token of
             Inl err \<Rightarrow> (Inl err, s)
           | Inr (ak, u) \<Rightarrow>
               if IsLocked cx u then (bad (invalidCreds ''locked''), s)
               else if \<not> fst (VerifyPassword pr currentPassword (u_password_salt u) (u_password_hash u))
               then (case noteLoginFailure cx (u_id u) s of
                       (_, s1) \<Rightarrow> (bad (Forbidden ''current password is incorrect''), s1))
               else case HashPasswordArgon2id pr cx 0 newPassword of
                 Inl err \<Rightarrow> (bad (InternalErr err), s)
               | Inr newHash \<Rightarrow> ChangePassword_commit cx token (u_password_hash u) newHash s))"

definition ResetMFA :: "prims \<Rightarrow> ctx \<Rightarrow> string \<Rightarrow> string \<Rightarrow> user_view handler" where
  "ResetMFA pr cx token userID =
     StoreUpdateScoped cx (with_target pr cx token userID (\<lambda>actor target s.
       let target' = target\<lparr>u_mfa_enabled := False, u_mfa_secret := [], u_mfa_pending_secret := [],
             u_mfa_last_step := 0\<rparr>
       in (Inr (toUserView target'), dropSessions (u_id target) [] (upd_user userID (\<lambda>_. target') s))))"

definition SetUserActive :: "prims \<Rightarrow> ctx \<Rightarrow> string \<Rightarrow> string \<Rightarrow> bool \<Rightarrow> user_view handler" where
  "SetUserActive pr cx token userID active =
     StoreUpdateScoped cx (with_target pr cx token userID (\<lambda>actor target s.
       if u_active target = active then (Inr (toUserView target), s)
       else
         let target1 = target\<lparr>u_active := active\<rparr>;
             target2 = (if active then target1\<lparr>u_failed_logins := 0, u_locked_until := []\<rparr> else target1);
             s1 = upd_user userID (\<lambda>_. target2) s;
             s2 = (if \<not> active then dropSessions (u_id target) [] s1 else s1);
             typ = (if active then ''user_reactivated'' else ''user_deactivated'');
             s3 = upd_colony (u_colony_id target) (appendLedger pr cx typ (u_id actor)
                    (go_map [(''user_id'', JStr (u_id target))])) s2
         in (Inr (toUserView target2), s3)))"

definition SetUserRoles :: "prims \<Rightarrow> ctx \<Rightarrow> string \<Rightarrow> string \<Rightarrow> string list \<Rightarrow> user_view handler" where
  "SetUserRoles pr cx token userID req_roles s =
     (let roles = NormalizeRoles req_roles
      in if roles = [] then (bad (BadRequest ''at least one valid role is required''), s)
         else StoreUpdateScoped cx (with_target pr cx token userID (\<lambda>actor target s.
           if containsRole roles ''super_admin'' \<and> \<not> HasRole actor ''super_admin''
           then (bad (Forbidden ''only super_admin can assign super_admin''), s)
           else
             let target' = target\<lparr>u_roles := roles\<rparr>;
                 s1 = upd_user userID (\<lambda>_. target') s;
                 s2 = upd_colony (u_colony_id target) (appendLedger pr cx ''user_roles_changed'' (u_id actor)
                        (go_map [(''user_id'', JStr (u_id target)), (''from'', JArr (map JStr (u_roles target))),
                                 (''to'', JArr (map JStr roles))])) s1
             in (Inr (toUserView target'), s2))) s)"

end
