(* ===== verification/Queries.thy ===== *)
theory Queries
  imports UserAdmin
begin

text \<open>
  The read-only requests of \<open>service/view.go\<close>.  A read never changes the state (theory \<open>Store\<close>), so
  what matters is who sees what and that a page of the ledger is the page that was asked for.
\<close>

record dashboard_counts =
  dc_colonies :: nat
  dc_users :: nat
  dc_trades :: nat
  dc_accounts :: nat

record colony_summary =
  cs_colony :: colony_view
  cs_accounts :: nat
  cs_trades_involved :: nat

record dashboard =
  d_user :: user_view
  d_counts :: dashboard_counts
  d_colony_summaries :: "colony_summary list"
  d_recent_trades :: "trade_view list"

definition colony_summary_for :: "app_state \<Rightarrow> string \<Rightarrow> colony_summary" where
  "colony_summary_for s colonyID =
     (let c = colony_at s colonyID;
          involved = length (filter (\<lambda>(k, t). t_seller_colony_id t = colonyID \<or> t_buyer_colony_id t = colonyID)
                       (st_trades s))
      in case st_counts s of
           None \<Rightarrow> \<lparr>cs_colony = toColonyView c, cs_accounts = length (c_accounts c), cs_trades_involved = involved\<rparr>
         | Some n \<Rightarrow> \<lparr>cs_colony = toColonyView c, cs_accounts = gget 0 (n_accounts_by_colony n) colonyID,
                      cs_trades_involved = gget 0 (n_trades_by_colony n) colonyID\<rparr>)"

definition Dashboard :: "prims \<Rightarrow> ctx \<Rightarrow> string \<Rightarrow> app_state \<Rightarrow> dashboard result" where
  "Dashboard pr cx token =
     StoreReadScoped (\<lambda>s.
       case actorFromToken pr cx s token of
         Inl err \<Rightarrow> Inl err
       | Inr (ak, actor) \<Rightarrow>
           let trades = filterTradesForActor s actor;
               counts = (case st_counts s of
                   None \<Rightarrow> \<lparr>dc_colonies = length (st_colonies s), dc_users = length (st_users s),
                            dc_trades = length trades,
                            dc_accounts = sum_list (map (\<lambda>(k, c). length (c_accounts c)) (st_colonies s))\<rparr>
                 | Some n \<Rightarrow> \<lparr>dc_colonies = n_colonies n, dc_users = n_users n,
                              dc_trades = n_visible_trades n, dc_accounts = n_accounts n\<rparr>);
               colonyIDs = sort (map (\<lambda>(k, c). c_id c)
                 (filter (\<lambda>(k, c). HasRole actor ''super_admin'' \<or> u_colony_id actor = c_id c) (st_colonies s)))
           in Inr \<lparr>d_user = toUserView actor, d_counts = counts,
                   d_colony_summaries = map (colony_summary_for s) colonyIDs,
                   d_recent_trades = take 10 trades\<rparr>)"

definition ListColonies :: "prims \<Rightarrow> ctx \<Rightarrow> string \<Rightarrow> app_state \<Rightarrow> colony_view list result" where
  "ListColonies pr cx token =
     StoreReadScoped (\<lambda>s.
       case actorFromToken pr cx s token of
         Inl err \<Rightarrow> Inl err
       | Inr (ak, actor) \<Rightarrow> Inr (SortColonies (map (\<lambda>(k, c). toColonyView c) (st_colonies s))))"

definition ListUsers :: "prims \<Rightarrow> ctx \<Rightarrow> string \<Rightarrow> app_state \<Rightarrow> user_view list result" where
  "ListUsers pr cx token =
     StoreReadScoped (\<lambda>s.
       case actorFromToken pr cx s token of
         Inl err \<Rightarrow> Inl err
       | Inr (ak, actor) \<Rightarrow> Inr (SortUsers (map (\<lambda>(k, u). userViewFor actor u) (st_users s))))"

definition account_views :: "app_state \<Rightarrow> colony \<Rightarrow> account_view list" where
  "account_views s c =
     List.map_filter (\<lambda>(userID, acc).
       case map_of (st_users s) userID of
         None \<Rightarrow> None
       | Some user \<Rightarrow> Some \<lparr>av_user_id = a_user_id acc, av_username = u_username user,
           av_display_name = u_display_name user, av_colony_id = a_colony_id acc, av_colony_name = c_name c,
           av_balance = a_balance acc\<rparr>) (c_accounts c)"

definition ListAccounts :: "prims \<Rightarrow> ctx \<Rightarrow> string \<Rightarrow> app_state \<Rightarrow> account_view list result" where
  "ListAccounts pr cx token =
     StoreReadScoped (\<lambda>s.
       case actorFromToken pr cx s token of
         Inl err \<Rightarrow> Inl err
       | Inr (ak, actor) \<Rightarrow>
           Inr (SortAccounts (concat (map (\<lambda>(k, c). account_views s c)
             (filter (\<lambda>(k, c). HasRole actor ''super_admin'' \<or> u_colony_id actor = c_id c) (st_colonies s))))))"

definition ListTrades :: "prims \<Rightarrow> ctx \<Rightarrow> string \<Rightarrow> app_state \<Rightarrow> trade_view list result" where
  "ListTrades pr cx token =
     StoreReadScoped (\<lambda>s.
       case actorFromToken pr cx s token of
         Inl err \<Rightarrow> Inl err
       | Inr (ak, actor) \<Rightarrow> Inr (filterTradesForActor s actor))"

definition GetTrade :: "prims \<Rightarrow> ctx \<Rightarrow> string \<Rightarrow> string \<Rightarrow> app_state \<Rightarrow> trade_view result" where
  "GetTrade pr cx token tradeID =
     StoreReadScoped (\<lambda>s.
       case actorFromToken pr cx s token of
         Inl err \<Rightarrow> Inl err
       | Inr (ak, actor) \<Rightarrow>
           (case map_of (st_trades s) tradeID of
              None \<Rightarrow> bad (NotFound ''trade not found'')
            | Some t \<Rightarrow>
                if \<not> tradeVisibleToActor t actor then bad (Forbidden ''not allowed to view this trade'')
                else Inr (toTradeView s t)))"

section \<open>Pages of a ledger\<close>

text \<open>\<open>sort.Search\<close>: binary search for the first index below \<open>n\<close> where the predicate holds.\<close>

function search_between :: "(nat \<Rightarrow> bool) \<Rightarrow> nat \<Rightarrow> nat \<Rightarrow> nat" where
  "search_between P i j =
     (if i < j then (let h = (i + j) div 2 in if \<not> P h then search_between P (h + 1) j else search_between P i h)
      else i)"
  by auto
termination
  by (relation "measure (\<lambda>(P, i, j). j - i)") auto

declare search_between.simps [simp del]

definition sort_search :: "nat \<Rightarrow> (nat \<Rightarrow> bool) \<Rightarrow> nat" where
  "sort_search n P = search_between P 0 n"

definition ledger_limit :: "int \<Rightarrow> int" where
  "ledger_limit limit =
     (let limit' = (if limit \<le> 0 then DefaultLedgerLimit else limit)
      in if limit' > MaxLedgerLimit then MaxLedgerLimit else limit')"

definition ledger_page :: "ledger_entry list \<Rightarrow> int \<Rightarrow> int \<Rightarrow> ledger_entry list" where
  "ledger_page entries limit beforeSeq =
     (let end = (if beforeSeq > 0 then sort_search (length entries) (\<lambda>i. le_seq (entries ! i) \<ge> beforeSeq)
                 else length entries);
          start = end - nat limit
      in take (end - start) (drop start entries))"

definition ListLedgerPage ::
    "prims \<Rightarrow> ctx \<Rightarrow> string \<Rightarrow> string \<Rightarrow> int \<Rightarrow> int \<Rightarrow> app_state \<Rightarrow> ledger_entry list result" where
  "ListLedgerPage pr cx token colonyID limit beforeSeq =
     StoreReadScoped (\<lambda>s.
       case actorFromToken pr cx s token of
         Inl err \<Rightarrow> Inl err
       | Inr (ak, actor) \<Rightarrow>
           (case map_of (st_colonies s) colonyID of
              None \<Rightarrow> bad (NotFound ''colony not found'')
            | Some c \<Rightarrow>
                if \<not> HasRole actor ''super_admin'' \<and> u_colony_id actor \<noteq> colonyID
                then bad (Forbidden ''not allowed to read this colony ledger'')
                else Inr (ledger_page (c_ledger c) (ledger_limit limit) beforeSeq)))"

definition ListLedger :: "prims \<Rightarrow> ctx \<Rightarrow> string \<Rightarrow> string \<Rightarrow> int \<Rightarrow> app_state \<Rightarrow> ledger_entry list result" where
  "ListLedger pr cx token colonyID limit = ListLedgerPage pr cx token colonyID limit 0"

text \<open>On a monotone predicate the search returns the number of indices below \<open>n\<close> before it holds.\<close>

definition splits_at :: "(nat \<Rightarrow> bool) \<Rightarrow> nat \<Rightarrow> nat \<Rightarrow> bool" where
  "splits_at P n m \<longleftrightarrow> m \<le> n \<and> (\<forall>k < m. \<not> P k) \<and> (\<forall>k. m \<le> k \<longrightarrow> k < n \<longrightarrow> P k)"

lemma search_between_splits:
  assumes mono: "\<And>a b. P a \<Longrightarrow> a \<le> b \<Longrightarrow> b < n \<Longrightarrow> P b"
  shows "i \<le> j \<Longrightarrow> j \<le> n \<Longrightarrow> (\<forall>k < i. \<not> P k) \<Longrightarrow> (\<forall>k. j \<le> k \<longrightarrow> k < n \<longrightarrow> P k) \<Longrightarrow>
    splits_at P n (search_between P i j)"
proof (induction "j - i" arbitrary: i j rule: less_induct)
  case less
  note step = search_between.simps [of P i j]
  show ?case
  proof (cases "i < j")
    case False
    with less.prems have "i = j" by simp
    moreover have "search_between P i j = i" using False by (simp add: step)
    ultimately show ?thesis using less.prems by (simp add: splits_at_def)
  next
    case True
    define h where "h = (i + j) div 2"
    have h: "i \<le> h" "h < j" using True by (auto simp: h_def)
    show ?thesis
    proof (cases "P h")
      case True
      have "\<forall>k. h \<le> k \<longrightarrow> k < n \<longrightarrow> P k" using mono [OF True] by blast
      with less.prems h have "splits_at P n (search_between P i h)"
        by (intro less.hyps) auto
      with True \<open>i < j\<close> show ?thesis by (simp add: step h_def)
    next
      case False
      have "\<not> P k" if "k < h + 1" for k
      proof
        assume "P k"
        with that h less.prems mono [of k h] have "P h" by simp
        with False show False by simp
      qed
      with less.prems h have "splits_at P n (search_between P (h + 1) j)"
        by (intro less.hyps) auto
      with False \<open>i < j\<close> show ?thesis by (simp add: step h_def)
    qed
  qed
qed

lemma sort_search_splits:
  "(\<And>a b. P a \<Longrightarrow> a \<le> b \<Longrightarrow> b < n \<Longrightarrow> P b) \<Longrightarrow> splits_at P n (sort_search n P)"
  unfolding sort_search_def by (rule search_between_splits) auto

lemma splits_at_unique: "splits_at P n m \<Longrightarrow> splits_at P n m' \<Longrightarrow> m = m'"
  unfolding splits_at_def by (metis le_less_linear nat_less_le order.strict_trans2)

lemma chain_ok_seq:
  "chain_ok pr i prev es \<Longrightarrow> k < length es \<Longrightarrow> le_seq (es ! k) = wrap64 (int (i + k) + 1)"
proof (induction es arbitrary: i prev k)
  case (Cons e es)
  then show ?case by (cases k) (auto simp: add.commute add.left_commute)
qed simp

lemma wrap64_small: "n < 2 ^ 63 - 1 \<Longrightarrow> wrap64 (int n + 1) = int n + 1"
  by (rule wrap64_id) (simp add: in_int64_def min_int64_def max_int64_def)

lemma ledger_page_end:
  assumes chain: "chain_ok pr 0 [] es" and len: "length es < 2 ^ 63 - 1" and before: "before > 0"
  shows "sort_search (length es) (\<lambda>i. le_seq (es ! i) \<ge> before) = min (nat before - 1) (length es)"
proof -
  have seq: "le_seq (es ! k) = int k + 1" if "k < length es" for k
    using chain_ok_seq [OF chain that] that len by (simp add: wrap64_small)
  let ?P = "\<lambda>i. le_seq (es ! i) \<ge> before"
  have "splits_at ?P (length es) (sort_search (length es) ?P)"
    by (rule sort_search_splits) (use seq in auto)
  moreover have "splits_at ?P (length es) (min (nat before - 1) (length es))"
    using before by (auto simp: splits_at_def seq)
  ultimately show ?thesis by (rule splits_at_unique)
qed

lemma ledger_page_slice:
  assumes "chain_ok pr 0 [] es" and "length es < 2 ^ 63 - 1"
  shows "ledger_page es limit before =
    (let e = (if before > 0 then min (nat before - 1) (length es) else length es)
     in take (nat limit) (drop (e - nat limit) (take e es)))"
proof -
  have "take (e - (e - n)) (drop (e - n) es) = take n (drop (e - n) (take e es))" if "e \<le> length es" for e n
    using that by (simp add: drop_take min_def)
  with ledger_page_end [OF assms, of before] show ?thesis by (simp add: ledger_page_def Let_def)
qed

lemma ListTrades_GetTrade:
  assumes "gmap_ok (st_trades s)" and "ListTrades pr cx tok s = Inr vs"
  shows "v \<in> set vs \<longleftrightarrow> (\<exists>k. GetTrade pr cx tok k s = Inr v)"
proof -
  from assms(2) obtain ak actor where a: "actorFromToken pr cx s tok = Inr (ak, actor)" "vs = filterTradesForActor s actor"
    by (auto simp: ListTrades_def StoreReadScoped_def split: sum.splits)
  have "GetTrade pr cx tok k s = Inr v \<longleftrightarrow>
      (\<exists>t. map_of (st_trades s) k = Some t \<and> tradeVisibleToActor t actor \<and> v = toTradeView s t)" for k
    using a(1) by (auto simp: GetTrade_def StoreReadScoped_def split: option.splits)
  moreover have "map_of (st_trades s) k = Some t \<longleftrightarrow> (k, t) \<in> set (st_trades s)" for k t
    using assms(1) by (auto simp: gmap_ok_def)
  ultimately show ?thesis by (auto simp: a(2) filterTradesForActor_set)
qed


end
