(* ===== verification/Money.thy ===== *)
theory Money
  imports Queries
begin

text \<open>
  Where the money is.  \<open>VerifyStateIntegrity\<close> of \<open>storage/pg_migrate.go\<close> is the check a state must
  pass before a migration; \<open>money_ok\<close> is the invariant of the running system that implies it: well
  formed maps, no negative balance, minted totals below the caps, hash-chained ledgers, and the
  conservation of money as an equation of unbounded integers, of which the code checks the residue
  modulo \<open>2^64\<close>.  The operations change the state by a few kinds of updates; each kind has one lemma
  on the structural part \<open>struct_ok\<close> and one on the \<open>gap\<close> between the two sides of the equation.
\<close>

section \<open>The integrity check\<close>

fun check_ledger :: "prims \<Rightarrow> string \<Rightarrow> nat \<Rightarrow> string \<Rightarrow> ledger_entry list \<Rightarrow> string option" where
  "check_ledger pr cid i prev [] = None"
| "check_ledger pr cid i prev (e # es) =
     (if le_seq e \<noteq> wrap64 (int i + 1)
      then Some (''colony '' @ cid @ '': ledger entry '' @ show_nat i @ '' has seq '' @ show_int (le_seq e) @ '' (gap or reorder)'')
      else if le_prev_hash e \<noteq> prev
      then Some (''colony '' @ cid @ '': ledger seq '' @ show_int (le_seq e) @ '' breaks the hash chain'')
      else if HashLedgerEntry pr (le_seq e) (le_colony_id e) (le_time e) (le_type e) (le_actor_user_id e)
                (le_payload e) (le_prev_hash e) \<noteq> le_hash e
      then Some (''colony '' @ cid @ '': ledger seq '' @ show_int (le_seq e) @ '' has a wrong hash'')
      else check_ledger pr cid (Suc i) (le_hash e) es)"

text \<open>The loop over the accounts: an error, or the running sum of the balances.\<close>

fun check_accounts :: "string \<Rightarrow> account gmap \<Rightarrow> int \<Rightarrow> string + int" where
  "check_accounts cid [] balances = Inr balances"
| "check_accounts cid ((k, a) # as) balances =
     (if a_balance a < 0 then Inl (''colony '' @ cid @ '': negative balance for '' @ a_user_id a)
      else check_accounts cid as (wrap64 (balances + a_balance a)))"

fun check_colonies :: "prims \<Rightarrow> colony gmap \<Rightarrow> int \<Rightarrow> int \<Rightarrow> string + (int \<times> int)" where
  "check_colonies pr [] balances minted = Inr (balances, minted)"
| "check_colonies pr ((cid, c) # cs) balances minted =
     (case check_ledger pr cid 0 [] (c_ledger c) of
        Some err \<Rightarrow> Inl err
      | None \<Rightarrow>
          if c_next_ledger_seq c \<noteq> wrap64 (int (length (c_ledger c)))
          then Inl (''colony '' @ cid @ '': next_ledger_seq '' @ show_int (c_next_ledger_seq c) @
                 '' != ledger length '' @ show_nat (length (c_ledger c)))
          else case check_accounts cid (c_accounts c) balances of
            Inl err \<Rightarrow> Inl err
          | Inr balances' \<Rightarrow> check_colonies pr cs balances' (wrap64 (minted + c_minted_total c)))"

definition escrow_of :: "trade \<Rightarrow> int" where
  "escrow_of t = (if IsEscrowed (t_status t) then t_price t else 0)"

text \<open>\<open>None\<close> is the nil error; the colonies are visited in the order of their keys.\<close>

definition VerifyStateIntegrity :: "prims \<Rightarrow> app_state \<Rightarrow> string option" where
  "VerifyStateIntegrity pr s =
     (case check_colonies pr (sort_key fst (st_colonies s)) 0 0 of
        Inl err \<Rightarrow> Some err
      | Inr (balances, minted) \<Rightarrow>
          let escrow = foldl (\<lambda>acc (k, t). if IsEscrowed (t_status t) then wrap64 (acc + t_price t) else acc) 0 (st_trades s)
          in if wrap64 (balances + escrow) \<noteq> minted
             then Some (''conservation violated: balances '' @ show_int balances @ '' + escrow '' @
               show_int escrow @ '' != minted '' @ show_int minted)
             else None)"

section \<open>Totals and the invariant\<close>

definition colony_balances :: "colony \<Rightarrow> int" where
  "colony_balances c = gsum a_balance (c_accounts c)"

definition total_balances :: "app_state \<Rightarrow> int" where
  "total_balances s = gsum colony_balances (st_colonies s)"

definition total_escrow :: "app_state \<Rightarrow> int" where
  "total_escrow s = gsum escrow_of (st_trades s)"

definition total_minted :: "app_state \<Rightarrow> int" where
  "total_minted s = gsum c_minted_total (st_colonies s)"

definition account_ok :: "account \<Rightarrow> bool" where
  "account_ok a \<longleftrightarrow> 0 \<le> a_balance a \<and> a_balance a \<le> max_int64"

text \<open>A colony that records no minted money has never minted any, so the repair at load has nothing to do.\<close>

definition minted_seen :: "colony \<Rightarrow> bool" where
  "minted_seen c \<longleftrightarrow> (c_minted_total c = 0 \<longrightarrow> list_all (\<lambda>e. le_type e \<noteq> ''funds_minted'') (c_ledger c))"

definition colony_ok :: "prims \<Rightarrow> colony \<Rightarrow> bool" where
  "colony_ok pr c \<longleftrightarrow> gmap_ok (c_accounts c) \<and> gall (\<lambda>k a. account_ok a) (c_accounts c)
     \<and> 0 \<le> c_minted_total c \<and> c_minted_total c \<le> EffectiveMintCap c \<and> c_mint_cap c \<le> DefaultMintCap
     \<and> ledger_ok pr c \<and> minted_seen c"

text \<open>A trade that has not been accepted, or was closed before it was, records no acceptance.\<close>

definition unaccepted :: "trade_status \<Rightarrow> bool" where
  "unaccepted st \<longleftrightarrow> st \<in> {StatusOfferPendingExport, StatusOfferReceived, StatusExpired, StatusCancelled}"

definition trade_ok :: "trade \<Rightarrow> bool" where
  "trade_ok t \<longleftrightarrow> ValidAmount (t_price t) \<and> (unaccepted (t_status t) \<longrightarrow> t_acceptance_envelope_id t = [])"

definition struct_ok :: "prims \<Rightarrow> app_state \<Rightarrow> bool" where
  "struct_ok pr s \<longleftrightarrow> gmap_ok (st_colonies s) \<and> gmap_ok (st_trades s)
     \<and> gall (\<lambda>k c. colony_ok pr c) (st_colonies s) \<and> gall (\<lambda>k t. trade_ok t) (st_trades s)"

definition gap :: "app_state \<Rightarrow> int" where
  "gap s = total_balances s + total_escrow s - total_minted s"

definition money_ok :: "prims \<Rightarrow> app_state \<Rightarrow> bool" where
  "money_ok pr s \<longleftrightarrow> struct_ok pr s \<and> gap s = 0"

section \<open>Reading through updates\<close>

lemma upd_frames [simp]:
  "st_colonies (upd_trade k g s) = st_colonies s" "st_users (upd_trade k g s) = st_users s"
  "st_sessions (upd_trade k g s) = st_sessions s" "st_pending_actions (upd_trade k g s) = st_pending_actions s"
  "st_trades (upd_colony k f s) = st_trades s" "st_users (upd_colony k f s) = st_users s"
  "st_sessions (upd_colony k f s) = st_sessions s" "st_pending_actions (upd_colony k f s) = st_pending_actions s"
  "st_colonies (upd_user k h s) = st_colonies s" "st_trades (upd_user k h s) = st_trades s"
  "st_sessions (upd_user k h s) = st_sessions s" "st_pending_actions (upd_user k h s) = st_pending_actions s"
  "st_bundles (upd_trade k g s) = st_bundles s" "st_bundles (upd_colony k f s) = st_bundles s"
  "st_bundles (upd_user k h s) = st_bundles s"
  by (simp_all add: upd_trade_def upd_colony_def upd_user_def)

lemma upd_lookups [simp]:
  "map_of (st_colonies (upd_colony k f s)) i =
     (if i = k then map_option f (map_of (st_colonies s) i) else map_of (st_colonies s) i)"
  "map_of (st_trades (upd_trade k g s)) i =
     (if i = k then map_option g (map_of (st_trades s) i) else map_of (st_trades s) i)"
  "map_of (st_users (upd_user k h s)) i =
     (if i = k then map_option h (map_of (st_users s) i) else map_of (st_users s) i)"
  by (simp_all add: upd_colony_def upd_trade_def upd_user_def)

lemma at_lookup [simp]:
  "map_of (st_colonies s) k = Some c \<Longrightarrow> colony_at s k = c"
  "map_of (st_trades s) k = Some t \<Longrightarrow> trade_at s k = t"
  by (simp_all add: colony_at_def trade_at_def gget_def)

lemma at_frames [simp]:
  "colony_at (upd_trade k g s) i = colony_at s i" "trade_at (upd_colony k f s) i = trade_at s i"
  "colony_at (upd_user k h s) i = colony_at s i" "trade_at (upd_user k h s) i = trade_at s i"
  by (simp_all add: colony_at_def trade_at_def)

lemma advance_at_Inr:
  "advance_at tk to s = Inr s' \<Longrightarrow> map_of (st_trades s) tk = Some t \<Longrightarrow>
   TransitionAllowed (t_status t) to \<and> s' = upd_trade tk (\<lambda>_. t\<lparr>t_status := to\<rparr>) s"
  by (auto simp: advance_at_def AdvanceTrade_Inr split: sum.splits)

section \<open>Quiet updates\<close>

text \<open>Updates of a colony or trade that touch nothing the invariant looks at, ledgers apart.\<close>

definition quiet :: "prims \<Rightarrow> (colony \<Rightarrow> colony) \<Rightarrow> bool" where
  "quiet pr f \<longleftrightarrow> (\<forall>c. c_accounts (f c) = c_accounts c \<and> c_minted_total (f c) = c_minted_total c
     \<and> c_mint_cap (f c) = c_mint_cap c \<and> (ledger_ok pr c \<longrightarrow> ledger_ok pr (f c)) \<and> (minted_seen c \<longrightarrow> minted_seen (f c)))"

lemma minted_seen_append:
  "typ \<noteq> ''funds_minted'' \<Longrightarrow> minted_seen c \<Longrightarrow> minted_seen (appendLedger pr cx typ actor payload c)"
  by (simp add: minted_seen_def appendLedger_def Let_def)

lemma quiet_append [simp, intro]: "typ \<noteq> ''funds_minted'' \<Longrightarrow> quiet pr (appendLedger pr cx typ actor payload)"
  by (simp add: quiet_def minted_seen_append)

text \<open>An update that keeps the money and the ledger is quiet.\<close>

lemma quietI:
  assumes "\<And>c. c_accounts (f c) = c_accounts c" "\<And>c. c_minted_total (f c) = c_minted_total c"
    "\<And>c. c_mint_cap (f c) = c_mint_cap c" "\<And>c. c_ledger (f c) = c_ledger c"
    "\<And>c. c_next_ledger_seq (f c) = c_next_ledger_seq c" "\<And>c. c_last_ledger_hash (f c) = c_last_ledger_hash c"
  shows "quiet pr f"
  by (simp add: quiet_def ledger_ok_def minted_seen_def assms)

lemma quiet_intros [simp, intro]:
  "quiet pr (push_outbox env)"
  "quiet pr (\<lambda>c. c\<lparr>c_outbox := ob c\<rparr>)"
  "quiet pr (\<lambda>c. c\<lparr>c_processed_envelopes := pe c\<rparr>)"
  "quiet pr (\<lambda>c. c\<lparr>c_trusted_colonies := tc c\<rparr>)"
  "quiet pr (\<lambda>c. c\<lparr>c_net_claims := nc c\<rparr>)"
  "quiet pr (\<lambda>c. c\<lparr>c_net_obligations := no c\<rparr>)"
  "quiet pr (\<lambda>c. c\<lparr>c_require_dual_control := b\<rparr>)"
  by (rule quietI; simp add: push_outbox_def)+

lemma quiet_colony_ok: "quiet pr f \<Longrightarrow> colony_ok pr c \<Longrightarrow> colony_ok pr (f c)"
  by (simp add: quiet_def colony_ok_def EffectiveMintCap_def split: if_splits)

definition quiet_trade :: "(trade \<Rightarrow> trade) \<Rightarrow> bool" where
  "quiet_trade g \<longleftrightarrow> (\<forall>t. t_price (g t) = t_price t \<and> t_status (g t) = t_status t \<and>
     t_acceptance_envelope_id (g t) = t_acceptance_envelope_id t)"

lemma quiet_trade_intros [simp, intro]:
  "quiet_trade (\<lambda>t. t\<lparr>t_cancel_envelope_id := x\<rparr>)"
  "quiet_trade (\<lambda>t. t\<lparr>t_refund_envelope_id := x\<rparr>)"
  "quiet_trade (\<lambda>t. t\<lparr>t_settlement_envelope_id := x\<rparr>)"
  "quiet_trade (\<lambda>t. t\<lparr>t_refunded_at := x\<rparr>)"
  by (simp_all add: quiet_trade_def)

lemma struct_quiet [simp]: "struct_ok pr s \<Longrightarrow> quiet pr f \<Longrightarrow> struct_ok pr (upd_colony k f s)"
  by (auto simp: struct_ok_def upd_colony_def intro: gall_map_entry quiet_colony_ok)

lemma push_outbox_frame [simp, frame_simps]:
  "c_accounts (push_outbox e c) = c_accounts c" "c_minted_total (push_outbox e c) = c_minted_total c"
  "c_id (push_outbox e c) = c_id c" "c_net_claims (push_outbox e c) = c_net_claims c"
  "c_net_obligations (push_outbox e c) = c_net_obligations c"
  by (simp_all add: push_outbox_def)

lemma gap_quiet [simp]:
  "(\<And>c. c_accounts (f c) = c_accounts c) \<Longrightarrow> (\<And>c. c_minted_total (f c) = c_minted_total c) \<Longrightarrow>
   gap (upd_colony k f s) = gap s"
  by (simp add: gap_def total_balances_def total_escrow_def total_minted_def upd_colony_def
      gsum_map_entry_same colony_balances_def)

lemma struct_quiet_trade [simp]: "struct_ok pr s \<Longrightarrow> quiet_trade g \<Longrightarrow> struct_ok pr (upd_trade k g s)"
  by (auto simp: struct_ok_def upd_trade_def quiet_trade_def trade_ok_def intro: gall_map_entry)

lemma gap_quiet_trade [simp]: "quiet_trade g \<Longrightarrow> gap (upd_trade k g s) = gap s"
  by (simp add: gap_def total_balances_def total_escrow_def total_minted_def upd_trade_def
      gsum_map_entry_same quiet_trade_def escrow_of_def)

text \<open>The rest of the state plays no part.\<close>

lemma struct_gap_frames [simp]:
  "struct_ok pr (s\<lparr>st_bundles := b\<rparr>) = struct_ok pr s" "gap (s\<lparr>st_bundles := b\<rparr>) = gap s"
  "struct_ok pr (s\<lparr>st_pending_actions := p\<rparr>) = struct_ok pr s" "gap (s\<lparr>st_pending_actions := p\<rparr>) = gap s"
  "struct_ok pr (s\<lparr>st_users := u\<rparr>) = struct_ok pr s" "gap (s\<lparr>st_users := u\<rparr>) = gap s"
  "struct_ok pr (s\<lparr>st_sessions := ss\<rparr>) = struct_ok pr s" "gap (s\<lparr>st_sessions := ss\<rparr>) = gap s"
  "struct_ok pr (s\<lparr>meta_updated_at := t\<rparr>) = struct_ok pr s" "gap (s\<lparr>meta_updated_at := t\<rparr>) = gap s"
  by (simp_all add: struct_ok_def gap_def total_balances_def total_escrow_def total_minted_def)

lemma struct_gap_upd_user [simp]:
  "struct_ok pr (upd_user k h s) = struct_ok pr s" "gap (upd_user k h s) = gap s"
  by (simp_all add: upd_user_def)

lemma struct_lookup:
  assumes "struct_ok pr s"
  shows "map_of (st_colonies s) k = Some c \<Longrightarrow> colony_ok pr c"
    and "map_of (st_trades s) k = Some t \<Longrightarrow> trade_ok t"
  using assms by (auto simp: struct_ok_def dest: gall_lookup)

lemma colony_account: "colony_ok pr c \<Longrightarrow> map_of (c_accounts c) u = Some a \<Longrightarrow> account_ok a"
  by (auto simp: colony_ok_def dest: gall_lookup)

section \<open>Updates that move money\<close>

lemma struct_update_colony:
  assumes "struct_ok pr s" and "map_of (st_colonies s) k = Some c" and "colony_ok pr (f c)"
  shows "struct_ok pr (upd_colony k f s)"
  using assms by (auto simp: struct_ok_def upd_colony_def intro: gall_map_entry)

lemma gap_update_colony:
  assumes "struct_ok pr s" and "map_of (st_colonies s) k = Some c"
  shows "gap (upd_colony k f s) =
    gap s + (colony_balances (f c) - colony_balances c) - (c_minted_total (f c) - c_minted_total c)"
  using assms
  by (simp add: gap_def total_balances_def total_escrow_def total_minted_def upd_colony_def struct_ok_def
      gsum_map_entry)

text \<open>Setting a balance, a minted total, a cap.\<close>

lemma set_balance:
  assumes "struct_ok pr s" and "map_of (st_colonies s) ck = Some c" and "map_of (c_accounts c) u = Some a"
    and "0 \<le> b" and "b \<le> max_int64"
  shows "struct_ok pr (upd_colony ck (upd_account u (\<lambda>a. a\<lparr>a_balance := b\<rparr>)) s)"
    and "gap (upd_colony ck (upd_account u (\<lambda>a. a\<lparr>a_balance := b\<rparr>)) s) = gap s - a_balance a + b"
proof -
  let ?f = "upd_account u (\<lambda>a. a\<lparr>a_balance := b\<rparr>)"
  have c: "colony_ok pr c" using struct_lookup assms by blast
  have frame: "c_minted_total (?f c) = c_minted_total c" "c_mint_cap (?f c) = c_mint_cap c"
    "ledger_ok pr (?f c) = ledger_ok pr c" "minted_seen (?f c) = minted_seen c" "EffectiveMintCap (?f c) = EffectiveMintCap c"
    "c_accounts (?f c) = AList.map_entry u (\<lambda>a. a\<lparr>a_balance := b\<rparr>) (c_accounts c)"
    by (simp_all add: upd_account_def ledger_ok_def minted_seen_def EffectiveMintCap_def)
  have "colony_ok pr (?f c)"
    using c assms(4,5) by (auto simp: colony_ok_def frame account_ok_def intro: gall_map_entry)
  then show "struct_ok pr (upd_colony ck ?f s)" by (rule struct_update_colony [OF assms(1,2)])
  have "colony_balances (?f c) = colony_balances c - a_balance a + b"
    using c assms(3) by (simp add: colony_balances_def frame colony_ok_def gsum_map_entry)
  then show "gap (upd_colony ck ?f s) = gap s - a_balance a + b"
    by (simp add: gap_update_colony [OF assms(1,2)] frame)
qed

lemma set_minted:
  assumes "struct_ok pr s" and "map_of (st_colonies s) ck = Some c" and "0 < m" and "m \<le> EffectiveMintCap c"
  shows "struct_ok pr (upd_colony ck (\<lambda>c. c\<lparr>c_minted_total := m\<rparr>) s)"
    and "gap (upd_colony ck (\<lambda>c. c\<lparr>c_minted_total := m\<rparr>) s) = gap s + c_minted_total c - m"
proof -
  have "colony_ok pr (c\<lparr>c_minted_total := m\<rparr>)"
    using struct_lookup(1) [OF assms(1,2)] assms(3,4)
    by (simp add: colony_ok_def EffectiveMintCap_def ledger_ok_def minted_seen_def split: if_splits)
  then show "struct_ok pr (upd_colony ck (\<lambda>c. c\<lparr>c_minted_total := m\<rparr>) s)"
    by (rule struct_update_colony [OF assms(1,2)])
  show "gap (upd_colony ck (\<lambda>c. c\<lparr>c_minted_total := m\<rparr>) s) = gap s + c_minted_total c - m"
    by (simp add: gap_update_colony [OF assms(1,2)] colony_balances_def)
qed

lemma set_cap:
  assumes "struct_ok pr s" and "map_of (st_colonies s) ck = Some c" and "0 < m" and "c_minted_total c \<le> m"
    and "m \<le> DefaultMintCap"
  shows "struct_ok pr (upd_colony ck (\<lambda>c. c\<lparr>c_mint_cap := m\<rparr>) s)"
    and "gap (upd_colony ck (\<lambda>c. c\<lparr>c_mint_cap := m\<rparr>) s) = gap s"
proof -
  have "colony_ok pr (c\<lparr>c_mint_cap := m\<rparr>)"
    using struct_lookup(1) [OF assms(1,2)] assms(3-)
    by (simp add: colony_ok_def EffectiveMintCap_def ledger_ok_def minted_seen_def)
  then show "struct_ok pr (upd_colony ck (\<lambda>c. c\<lparr>c_mint_cap := m\<rparr>) s)"
    by (rule struct_update_colony [OF assms(1,2)])
  show "gap (upd_colony ck (\<lambda>c. c\<lparr>c_mint_cap := m\<rparr>) s) = gap s"
    by (simp add: gap_update_colony [OF assms(1,2)] colony_balances_def)
qed

lemma add_account:
  assumes "struct_ok pr s" and "map_of (st_colonies s) ck = Some c" and "u \<notin> gkeys (c_accounts c)"
    and "a_balance a = 0"
  shows "struct_ok pr (upd_colony ck (\<lambda>c. c\<lparr>c_accounts := AList.update u a (c_accounts c)\<rparr>) s)"
    and "gap (upd_colony ck (\<lambda>c. c\<lparr>c_accounts := AList.update u a (c_accounts c)\<rparr>) s) = gap s"
proof -
  have "colony_ok pr (c\<lparr>c_accounts := AList.update u a (c_accounts c)\<rparr>)"
    using struct_lookup(1) [OF assms(1,2)] assms(4)
    by (auto simp: colony_ok_def EffectiveMintCap_def ledger_ok_def minted_seen_def account_ok_def max_int64_def
        intro: gall_update)
  then show "struct_ok pr (upd_colony ck (\<lambda>c. c\<lparr>c_accounts := AList.update u a (c_accounts c)\<rparr>) s)"
    by (rule struct_update_colony [OF assms(1,2)])
  show "gap (upd_colony ck (\<lambda>c. c\<lparr>c_accounts := AList.update u a (c_accounts c)\<rparr>) s) = gap s"
    using assms(3,4)
    by (simp add: gap_update_colony [OF assms(1,2)] colony_balances_def gsum_update_new)
qed

lemma add_colony:
  assumes "struct_ok pr s" and "k \<notin> gkeys (st_colonies s)" and "colony_ok pr c"
    and "c_accounts c = []" and "c_minted_total c = 0"
  shows "struct_ok pr (s\<lparr>st_colonies := AList.update k c (st_colonies s)\<rparr>)"
    and "gap (s\<lparr>st_colonies := AList.update k c (st_colonies s)\<rparr>) = gap s"
proof -
  show "struct_ok pr (s\<lparr>st_colonies := AList.update k c (st_colonies s)\<rparr>)"
    using assms by (auto simp: struct_ok_def intro: gall_update)
  show "gap (s\<lparr>st_colonies := AList.update k c (st_colonies s)\<rparr>) = gap s"
    using assms by (simp add: gap_def total_balances_def total_escrow_def total_minted_def
        gsum_update_new colony_balances_def)
qed

lemma set_trade:
  assumes "struct_ok pr s" and "map_of (st_trades s) tk = Some t" and "trade_ok (g t)"
  shows "struct_ok pr (upd_trade tk g s)"
    and "gap (upd_trade tk g s) = gap s - escrow_of t + escrow_of (g t)"
proof -
  show "struct_ok pr (upd_trade tk g s)"
    using assms by (auto simp: struct_ok_def upd_trade_def intro: gall_map_entry)
  show "gap (upd_trade tk g s) = gap s - escrow_of t + escrow_of (g t)"
    using assms(1,2) by (simp add: gap_def total_balances_def total_escrow_def total_minted_def
        upd_trade_def struct_ok_def gsum_map_entry)
qed

lemma add_trade:
  assumes "struct_ok pr s" and "tk \<notin> gkeys (st_trades s)" and "trade_ok t"
  shows "struct_ok pr (s\<lparr>st_trades := AList.update tk t (st_trades s)\<rparr>)"
    and "gap (s\<lparr>st_trades := AList.update tk t (st_trades s)\<rparr>) = gap s + escrow_of t"
proof -
  show "struct_ok pr (s\<lparr>st_trades := AList.update tk t (st_trades s)\<rparr>)"
    using assms by (auto simp: struct_ok_def intro: gall_update)
  show "gap (s\<lparr>st_trades := AList.update tk t (st_trades s)\<rparr>) = gap s + escrow_of t"
    using assms by (simp add: gap_def total_balances_def total_escrow_def total_minted_def gsum_update_new)
qed

lemma put_trade:
  assumes "struct_ok pr s" and "map_of (st_trades s) tk = Some t" and "trade_ok t'"
  shows "struct_ok pr (upd_trade tk (\<lambda>_. t') s)"
    and "gap (upd_trade tk (\<lambda>_. t') s) = gap s - escrow_of t + escrow_of t'"
  by (rule set_trade [OF assms(1,2), of "\<lambda>_. t'", OF assms(3)])+

end
