(* ===== verification/Conservation.thy ===== *)
theory Conservation
  imports Money
begin

text \<open>
  Every operation keeps \<open>money_ok\<close>.  The functions that do the work (refunds, credits, imports, mints,
  policies) come first; a handler's lemma then only has to open its guards.  What a successful call
  guarantees is stated as \<open>keeps\<close>, the premise of the store interface of theory \<open>Store\<close>.
\<close>

definition keeps :: "(app_state \<Rightarrow> bool) \<Rightarrow> 'a handler \<Rightarrow> app_state \<Rightarrow> bool" where
  "keeps I h s \<longleftrightarrow> (\<forall>r s'. h s = (Inr r, s') \<longrightarrow> I s \<longrightarrow> I s')"

lemma keepsI: "(\<And>r s'. h s = (Inr r, s') \<Longrightarrow> I s \<Longrightarrow> I s') \<Longrightarrow> keeps I h s"
  by (simp add: keeps_def)

lemma keepsD: "keeps I h s \<Longrightarrow> h s = (Inr r, s') \<Longrightarrow> I s \<Longrightarrow> I s'"
  by (simp add: keeps_def)

interpretation money: state_invariant "money_ok pr" for pr
  by unfold_locales (simp add: money_ok_def)

section \<open>The amounts involved are small\<close>

lemma valid_int64: "ValidAmount p \<Longrightarrow> in_int64 p"
  by (simp add: ValidAmount_def MaxAmount_def in_int64_def min_int64_def max_int64_def)

lemma account_int64: "account_ok a \<Longrightarrow> in_int64 (a_balance a)"
  by (simp add: account_ok_def in_int64_def min_int64_def)

lemma minted_int64: "colony_ok pr c \<Longrightarrow> in_int64 (c_minted_total c)"
  by (auto simp: colony_ok_def EffectiveMintCap_def DefaultMintCap_def in_int64_def min_int64_def max_int64_def
      split: if_splits)

lemma credit_amount:
  assumes "AddChecked (a_balance a) p = Inr b" and "account_ok a" and "ValidAmount p"
  shows "b = a_balance a + p \<and> 0 \<le> b \<and> b \<le> max_int64"
proof -
  have "b = a_balance a + p \<and> in_int64 b"
    by (rule AddChecked_Inr [OF assms(1) account_int64 [OF assms(2)] valid_int64 [OF assms(3)]])
  with assms(2,3) show ?thesis by (auto simp: account_ok_def ValidAmount_def in_int64_def)
qed

lemma debit_amount:
  assumes "account_ok a" and "ValidAmount p" and "p \<le> a_balance a"
  shows "wrap64 (a_balance a - p) = a_balance a - p \<and> 0 \<le> a_balance a - p \<and> a_balance a - p \<le> max_int64"
proof -
  have "in_int64 (a_balance a - p)"
    using assms by (simp add: account_ok_def ValidAmount_def in_int64_def min_int64_def)
  with assms show ?thesis by (simp add: wrap64_id account_ok_def ValidAmount_def)
qed

section \<open>Refunds\<close>

lemma decideRefund_money:
  assumes "decideRefund pr cx draw source target tk trigger reason s = (Inr r, s')"
    and "money_ok pr s" and t: "map_of (st_trades s) tk = Some t"
    and "t_status t = StatusAcceptancePendingExport"
  shows "money_ok pr s'"
proof -
  let ?t1 = "t\<lparr>t_status := StatusRefundPendingExport\<rparr>"
  let ?s1 = "upd_trade tk (\<lambda>_. ?t1) s"
  have ok: "struct_ok pr s" "gap s = 0" using assms(2) by (simp_all add: money_ok_def)
  have s1: "struct_ok pr ?s1" "gap ?s1 = 0"
  proof -
    have tok: "trade_ok ?t1" using struct_lookup(2) [OF ok(1) t] by (simp add: trade_ok_def unaccepted_def)
    show "struct_ok pr ?s1" by (rule put_trade(1) [OF ok(1) t tok])
    show "gap ?s1 = 0"
      using put_trade(2) [OF ok(1) t tok] ok(2) assms(4) by (simp add: escrow_of_def IsEscrowed_def)
  qed
  have s2: "struct_ok pr (upd_trade tk (\<lambda>t. t\<lparr>t_acceptance_envelope_id := x\<rparr>) ?s1) \<and>
      gap (upd_trade tk (\<lambda>t. t\<lparr>t_acceptance_envelope_id := x\<rparr>) ?s1) = 0" for x
  proof -
    have l: "map_of (st_trades ?s1) tk = Some ?t1" using t by simp
    have tok: "trade_ok (?t1\<lparr>t_acceptance_envelope_id := x\<rparr>)"
      using struct_lookup(2) [OF ok(1) t] by (simp add: trade_ok_def unaccepted_def)
    show ?thesis
      using set_trade [OF s1(1) l, where g = "\<lambda>t. t\<lparr>t_acceptance_envelope_id := x\<rparr>", OF tok] s1(2)
      by (simp add: escrow_of_def IsEscrowed_def)
  qed
  have adv: "advance_at tk StatusRefundPendingExport s = Inr s'' \<Longrightarrow> s'' = ?s1" for s''
    using advance_at_Inr [OF _ t] by blast
  show ?thesis
    using assms(1) s1 s2
    by (auto simp: decideRefund_def Let_def money_ok_def dest!: adv split: sum.splits if_splits)
qed

lemma applyRefund_Inr:
  assumes "applyRefund pr cx tk actorID typ extra s = (Inr r, s')" and "map_of (st_trades s) tk = Some t"
  shows "\<exists>c a b s1 payload. map_of (st_colonies s) (t_buyer_colony_id t) = Some c
    \<and> map_of (c_accounts c) (t_buyer_user_id t) = Some a \<and> AddChecked (a_balance a) (t_price t) = Inr b
    \<and> advance_at tk StatusRefunded s = Inr s1
    \<and> s' = upd_colony (t_buyer_colony_id t) (appendLedger pr cx typ actorID payload)
        (upd_trade tk (\<lambda>t. t\<lparr>t_refunded_at := format_rfc3339 (now cx)\<rparr>)
          (upd_colony (t_buyer_colony_id t) (upd_account (t_buyer_user_id t) (\<lambda>a. a\<lparr>a_balance := b\<rparr>)) s1))"
  using assms by (auto simp: applyRefund_def Let_def split: option.splits sum.splits)

lemma applyRefund_money:
  assumes "applyRefund pr cx tk actorID typ extra s = (Inr r, s')"
    and "money_ok pr s" and t: "map_of (st_trades s) tk = Some t" and ne: "typ \<noteq> ''funds_minted''"
  shows "money_ok pr s'"
proof -
  let ?ck = "t_buyer_colony_id t" and ?u = "t_buyer_user_id t"
  have ok: "struct_ok pr s" "gap s = 0" using assms(2) by (simp_all add: money_ok_def)
  from applyRefund_Inr [OF assms(1) t] obtain c a b s1 payload
    where c: "map_of (st_colonies s) ?ck = Some c" and a: "map_of (c_accounts c) ?u = Some a"
      and b: "AddChecked (a_balance a) (t_price t) = Inr b"
      and adv: "advance_at tk StatusRefunded s = Inr s1"
      and s': "s' = upd_colony ?ck (appendLedger pr cx typ actorID payload)
        (upd_trade tk (\<lambda>t. t\<lparr>t_refunded_at := format_rfc3339 (now cx)\<rparr>)
          (upd_colony ?ck (upd_account ?u (\<lambda>a. a\<lparr>a_balance := b\<rparr>)) s1))"
    by blast
  let ?t1 = "t\<lparr>t_status := StatusRefunded\<rparr>"
  from advance_at_Inr [OF adv t] have st: "IsEscrowed (t_status t)" and s1: "s1 = upd_trade tk (\<lambda>_. ?t1) s"
    by (simp_all add: allowed_simps)
  have tok: "trade_ok ?t1" and val: "ValidAmount (t_price t)"
    using struct_lookup(2) [OF ok(1) t] by (simp_all add: trade_ok_def unaccepted_def)
  have ok1: "struct_ok pr s1" unfolding s1 by (rule put_trade(1) [OF ok(1) t tok])
  have g1: "gap s1 = - t_price t"
    unfolding s1 put_trade(2) [OF ok(1) t tok] using ok(2) st by (simp add: escrow_of_def IsEscrowed_def)
  have c1: "map_of (st_colonies s1) ?ck = Some c" using c s1 by simp
  have b': "b = a_balance a + t_price t" "0 \<le> b" "b \<le> max_int64"
    using credit_amount [OF b colony_account [OF struct_lookup(1) [OF ok(1) c] a] val] by simp_all
  have "struct_ok pr (upd_colony ?ck (upd_account ?u (\<lambda>a. a\<lparr>a_balance := b\<rparr>)) s1)"
    and "gap (upd_colony ?ck (upd_account ?u (\<lambda>a. a\<lparr>a_balance := b\<rparr>)) s1) = 0"
    using set_balance [OF ok1 c1 a b'(2,3)] g1 b'(1) by simp_all
  with s' ne show ?thesis by (auto simp: money_ok_def)
qed

section \<open>Credits\<close>

lemma creditAcceptance_Inr:
  assumes "creditAcceptance pr cx draw source target tk env payload seller acc s = (Inr r, s')"
    and "map_of (st_trades s) tk = Some t"
  shows "\<exists>b nc no s1 e envID pl. AddChecked (a_balance acc) (t_price t) = Inr b
    \<and> AddChecked (gget 0 (c_net_claims (colony_at s target)) (c_id (colony_at s source))) (t_price t) = Inr nc
    \<and> AddChecked (gget 0 (c_net_obligations (colony_at s source)) (c_id (colony_at s target))) (t_price t) = Inr no
    \<and> advance_at tk StatusSettlementPendingExport s = Inr s1
    \<and> s' = upd_colony target (appendLedger pr cx ''trade_acceptance_imported'' (u_id seller) pl)
        (upd_trade tk (\<lambda>t. t\<lparr>t_settlement_envelope_id := envID\<rparr>)
        (upd_colony target (push_outbox e)
        (upd_trade tk (\<lambda>t. t\<lparr>t_accepted_at := ap_accepted_at payload, t_acceptance_envelope_id := e_id env,
            t_buyer_signature := ap_buyer_signature payload, t_settled_at := format_rfc3339 (now cx)\<rparr>)
        (upd_colony source (\<lambda>c. c\<lparr>c_net_obligations :=
            AList.update (c_id (colony_at s target)) no (c_net_obligations c)\<rparr>)
        (upd_colony target (\<lambda>c. c\<lparr>c_net_claims := AList.update (c_id (colony_at s source)) nc (c_net_claims c)\<rparr>)
        (upd_colony target (upd_account (u_id seller) (\<lambda>a. a\<lparr>a_balance := b\<rparr>)) s1))))))"
  using assms by (auto simp: creditAcceptance_def Let_def split: sum.splits)

lemma creditAcceptance_money:
  assumes "creditAcceptance pr cx draw source target tk env payload seller acc s = (Inr r, s')"
    and "money_ok pr s" and t: "map_of (st_trades s) tk = Some t"
    and c: "map_of (st_colonies s) target = Some c" and a: "map_of (c_accounts c) (u_id seller) = Some acc"
  shows "money_ok pr s'"
proof -
  have ok: "struct_ok pr s" "gap s = 0" using assms(2) by (simp_all add: money_ok_def)
  from creditAcceptance_Inr [OF assms(1) t] obtain b nc no s1 e envID pl
    where b: "AddChecked (a_balance acc) (t_price t) = Inr b"
      and adv: "advance_at tk StatusSettlementPendingExport s = Inr s1"
      and s': "s' = upd_colony target (appendLedger pr cx ''trade_acceptance_imported'' (u_id seller) pl)
        (upd_trade tk (\<lambda>t. t\<lparr>t_settlement_envelope_id := envID\<rparr>)
        (upd_colony target (push_outbox e)
        (upd_trade tk (\<lambda>t. t\<lparr>t_accepted_at := ap_accepted_at payload, t_acceptance_envelope_id := e_id env,
            t_buyer_signature := ap_buyer_signature payload, t_settled_at := format_rfc3339 (now cx)\<rparr>)
        (upd_colony source (\<lambda>c. c\<lparr>c_net_obligations :=
            AList.update (c_id (colony_at s target)) no (c_net_obligations c)\<rparr>)
        (upd_colony target (\<lambda>c. c\<lparr>c_net_claims := AList.update (c_id (colony_at s source)) nc (c_net_claims c)\<rparr>)
        (upd_colony target (upd_account (u_id seller) (\<lambda>a. a\<lparr>a_balance := b\<rparr>)) s1))))))"
    by blast
  let ?t1 = "t\<lparr>t_status := StatusSettlementPendingExport\<rparr>"
  from advance_at_Inr [OF adv t] have st: "t_status t = StatusAcceptancePendingExport"
    and s1: "s1 = upd_trade tk (\<lambda>_. ?t1) s" by (simp_all add: allowed_simps)
  have tok: "trade_ok ?t1" and val: "ValidAmount (t_price t)"
    using struct_lookup(2) [OF ok(1) t] by (simp_all add: trade_ok_def unaccepted_def)
  have ok1: "struct_ok pr s1" unfolding s1 by (rule put_trade(1) [OF ok(1) t tok])
  have g1: "gap s1 = - t_price t"
    unfolding s1 put_trade(2) [OF ok(1) t tok] using ok(2) st by (simp add: escrow_of_def IsEscrowed_def)
  have c1: "map_of (st_colonies s1) target = Some c" using c s1 by simp
  have b': "b = a_balance acc + t_price t" "0 \<le> b" "b \<le> max_int64"
    using credit_amount [OF b colony_account [OF struct_lookup(1) [OF ok(1) c] a] val] by simp_all
  define s2 where "s2 = upd_colony target (upd_account (u_id seller) (\<lambda>a. a\<lparr>a_balance := b\<rparr>)) s1"
  have ok2: "struct_ok pr s2" "gap s2 = 0"
    using set_balance [OF ok1 c1 a b'(2,3)] g1 b'(1) by (simp_all add: s2_def)
  define s4 where "s4 = upd_colony source (\<lambda>c. c\<lparr>c_net_obligations :=
            AList.update (c_id (colony_at s target)) no (c_net_obligations c)\<rparr>)
        (upd_colony target (\<lambda>c. c\<lparr>c_net_claims := AList.update (c_id (colony_at s source)) nc (c_net_claims c)\<rparr>) s2)"
  have ok4: "struct_ok pr s4" "gap s4 = 0" using ok2 by (simp_all add: s4_def)
  let ?g = "\<lambda>t. t\<lparr>t_accepted_at := ap_accepted_at payload, t_acceptance_envelope_id := e_id env,
            t_buyer_signature := ap_buyer_signature payload, t_settled_at := format_rfc3339 (now cx)\<rparr>"
  have t4: "map_of (st_trades s4) tk = Some ?t1" using t by (simp add: s4_def s2_def s1)
  have "trade_ok (?g ?t1)" using val by (simp add: trade_ok_def unaccepted_def)
  note set_trade [OF ok4(1) t4, where g = ?g, OF this]
  then have "struct_ok pr (upd_trade tk ?g s4)" "gap (upd_trade tk ?g s4) = 0"
    using ok4(2) by (simp_all add: escrow_of_def IsEscrowed_def)
  then show ?thesis unfolding s' s2_def [symmetric] s4_def [symmetric] by (simp add: money_ok_def)
qed

section \<open>Mints and policies\<close>

lemma applyMint_Inr:
  assumes "applyMint pr cx ck userID amount actorID approvedBy s = (Inr r, s')"
    and "map_of (st_colonies s) ck = Some c"
  shows "\<exists>a total b pl. map_of (c_accounts c) userID = Some a \<and> AddChecked (c_minted_total c) amount = Inr total
    \<and> total \<le> EffectiveMintCap c \<and> AddChecked (a_balance a) amount = Inr b
    \<and> s' = upd_colony ck (appendLedger pr cx ''funds_minted'' actorID pl)
        (upd_colony ck (upd_account userID (\<lambda>a. a\<lparr>a_balance := b\<rparr>))
        (upd_colony ck (\<lambda>c. c\<lparr>c_minted_total := total\<rparr>) s))"
  using assms by (auto simp: applyMint_def Let_def split: option.splits sum.splits if_splits)

lemma applyMint_money:
  assumes "applyMint pr cx ck userID amount actorID approvedBy s = (Inr r, s')"
    and "money_ok pr s" and c: "map_of (st_colonies s) ck = Some c" and val: "ValidAmount amount"
  shows "money_ok pr s'"
proof -
  have ok: "struct_ok pr s" "gap s = 0" using assms(2) by (simp_all add: money_ok_def)
  note cok = struct_lookup(1) [OF ok(1) c]
  from applyMint_Inr [OF assms(1) c] obtain a total b pl
    where a: "map_of (c_accounts c) userID = Some a" and total: "AddChecked (c_minted_total c) amount = Inr total"
      and cap: "total \<le> EffectiveMintCap c" and b: "AddChecked (a_balance a) amount = Inr b"
      and s': "s' = upd_colony ck (appendLedger pr cx ''funds_minted'' actorID pl)
        (upd_colony ck (upd_account userID (\<lambda>a. a\<lparr>a_balance := b\<rparr>))
        (upd_colony ck (\<lambda>c. c\<lparr>c_minted_total := total\<rparr>) s))" by blast
  have tot: "total = c_minted_total c + amount" "0 < total"
  proof -
    show "total = c_minted_total c + amount"
      using AddChecked_Inr [OF total minted_int64 [OF cok] valid_int64 [OF val]] by simp
    then show "0 < total" using cok val by (simp add: colony_ok_def ValidAmount_def)
  qed
  let ?s1 = "upd_colony ck (\<lambda>c. c\<lparr>c_minted_total := total\<rparr>) s"
  have ok1: "struct_ok pr ?s1" "gap ?s1 = - amount"
    using set_minted [OF ok(1) c tot(2) cap] ok(2) tot(1) by simp_all
  have c1: "map_of (st_colonies ?s1) ck = Some (c\<lparr>c_minted_total := total\<rparr>)" using c by simp
  have a1: "map_of (c_accounts (c\<lparr>c_minted_total := total\<rparr>)) userID = Some a" using a by simp
  have b': "b = a_balance a + amount" "0 \<le> b" "b \<le> max_int64"
    using credit_amount [OF b colony_account [OF cok a] val] by simp_all
  let ?s2 = "upd_colony ck (upd_account userID (\<lambda>a. a\<lparr>a_balance := b\<rparr>)) ?s1"
  have ok2: "struct_ok pr ?s2" "gap ?s2 = 0"
    using set_balance [OF ok1(1) c1 a1 b'(2,3)] ok1(2) b'(1) by simp_all
  let ?c2 = "upd_account userID (\<lambda>a. a\<lparr>a_balance := b\<rparr>) (c\<lparr>c_minted_total := total\<rparr>)"
  have c2: "map_of (st_colonies ?s2) ck = Some ?c2" using c by simp
  have "c_minted_total ?c2 \<noteq> 0" using tot(2) by (simp add: upd_account_def)
  with struct_lookup(1) [OF ok2(1) c2] have "colony_ok pr (appendLedger pr cx ''funds_minted'' actorID pl ?c2)"
    by (simp add: colony_ok_def minted_seen_def EffectiveMintCap_def split: if_splits)
  from struct_update_colony [where f = "appendLedger pr cx ''funds_minted'' actorID pl", OF ok2(1) c2 this] ok2(2)
  show ?thesis by (simp add: s' money_ok_def)
qed

lemma applyPolicy_money:
  assumes "applyPolicy pr cx ck req actorID approvedBy s = (Inr r, s')"
    and "money_ok pr s" and c: "map_of (st_colonies s) ck = Some c"
  shows "money_ok pr s'"
proof -
  have ok: "struct_ok pr s" "gap s = 0" using assms(2) by (simp_all add: money_ok_def)
  define s1 where "s1 = (case pq_mint_cap req of None \<Rightarrow> s | Some cap \<Rightarrow> upd_colony ck (\<lambda>c. c\<lparr>c_mint_cap := cap\<rparr>) s)"
  have v: "validatePolicy c req = None"
    using assms(1) c by (auto simp: applyPolicy_def split: option.splits)
  have ok1: "struct_ok pr s1" "gap s1 = 0"
    using ok v set_cap [OF ok(1) c] by (auto simp: s1_def validatePolicy_def split: option.splits if_splits)
  define s2 where "s2 = (case pq_require_dual_control req of None \<Rightarrow> s1
    | Some b \<Rightarrow> upd_colony ck (\<lambda>c. c\<lparr>c_require_dual_control := b\<rparr>) s1)"
  have ok2: "struct_ok pr s2" "gap s2 = 0" using ok1 by (auto simp: s2_def split: option.splits)
  obtain pl where "s' = upd_colony ck (appendLedger pr cx ''policy_changed'' actorID pl) s2"
    using assms(1) c v by (auto simp: applyPolicy_def Let_def s1_def [symmetric] s2_def [symmetric])
  with ok2 show ?thesis by (simp add: money_ok_def)
qed

section \<open>Imports of envelopes\<close>

lemma importOffer_money:
  assumes "importOffer pr cx source target env s = (Inr r, s')" and "money_ok pr s"
  shows "money_ok pr s'"
proof -
  have ok: "struct_ok pr s" "gap s = 0" using assms(2) by (simp_all add: money_ok_def)
  have finish: "money_ok pr (upd_colony target (appendLedger pr cx ty ac pl) s1)" if "money_ok pr s1" "ty \<noteq> ''funds_minted''" for s1 ty ac pl
    using that by (simp add: money_ok_def)
  have new: "money_ok pr (s\<lparr>st_trades := AList.update tk t (st_trades s)\<rparr>)"
    if "map_of (st_trades s) tk = None" "ValidAmount (t_price t)" "t_status t = StatusOfferReceived"
      "t_acceptance_envelope_id t = []" for tk t
  proof -
    have "trade_ok t" and "escrow_of t = 0"
      using that by (simp_all add: trade_ok_def escrow_of_def IsEscrowed_def)
    moreover have "tk \<notin> gkeys (st_trades s)" using that(1) by (simp add: map_of_None_gkeys)
    ultimately show ?thesis using add_trade [OF ok(1)] ok(2) by (simp add: money_ok_def)
  qed
  have upd: "money_ok pr (upd_trade tk (\<lambda>_. t'\<lparr>t_offer_envelope_id := x, t_seller_signature := y\<rparr>) s)"
    if t: "map_of (st_trades s) tk = Some t" and st: "StepTrade t StatusOfferPendingExport StatusOfferReceived = Inr (True, t')"
    for tk t t' x y
  proof -
    from StepTrade_Inr [OF st] have t': "t_status t = StatusOfferPendingExport" "t' = t\<lparr>t_status := StatusOfferReceived\<rparr>"
      by simp_all
    let ?t = "t'\<lparr>t_offer_envelope_id := x, t_seller_signature := y\<rparr>"
    have "trade_ok ?t" using struct_lookup(2) [OF ok(1) t] t' by (simp add: trade_ok_def unaccepted_def)
    from put_trade [OF ok(1) t this] ok(2) t' show ?thesis
      by (simp add: money_ok_def escrow_of_def IsEscrowed_def)
  qed
  show ?thesis
    using assms
    by (auto simp: importOffer_def Let_def zero_trade_def intro!: finish new upd
        split: option.splits if_splits sum.splits go_error.splits prod.splits)
qed

lemma importAcceptance_money:
  assumes "importAcceptance pr cx draw source target env s = (Inr r, s')" and "money_ok pr s"
    and c: "map_of (st_colonies s) target = Some c"
  shows "money_ok pr s'"
proof -
  have closed: "t_acceptance_envelope_id t = []"
    if "map_of (st_trades s) tk = Some t" "t_status t = StatusExpired \<or> t_status t = StatusCancelled" for tk t
  proof -
    have "trade_ok t" using struct_lookup(2) that(1) assms(2) by (auto simp: money_ok_def)
    with that(2) show ?thesis by (auto simp: trade_ok_def unaccepted_def)
  qed
  show ?thesis
    using assms
    by (auto simp: importAcceptance_def Let_def dest: closed
        elim: decideRefund_money creditAcceptance_money
        split: option.splits if_splits sum.splits go_error.splits bool.splits)
qed

lemma importSettlement_money:
  assumes "importSettlement pr cx source target env s = (Inr r, s')" and "money_ok pr s"
  shows "money_ok pr s'"
proof -
  have ok: "struct_ok pr s" "gap s = 0" using assms(2) by (simp_all add: money_ok_def)
  have upd: "money_ok pr (upd_trade tk (\<lambda>_. t'\<lparr>t_settled_at := x, t_completed_at := y, t_settlement_envelope_id := z\<rparr>) s)"
    if t: "map_of (st_trades s) tk = Some t" and st: "StepTrade t StatusSettlementPendingExport StatusCompleted = Inr (True, t')"
    for tk t t' x y z
  proof -
    from StepTrade_Inr [OF st] have t': "t_status t = StatusSettlementPendingExport" "t' = t\<lparr>t_status := StatusCompleted\<rparr>"
      by simp_all
    let ?t = "t'\<lparr>t_settled_at := x, t_completed_at := y, t_settlement_envelope_id := z\<rparr>"
    have "trade_ok ?t" using struct_lookup(2) [OF ok(1) t] t' by (simp add: trade_ok_def unaccepted_def)
    from put_trade [OF ok(1) t this] ok(2) t' show ?thesis
      by (simp add: money_ok_def escrow_of_def IsEscrowed_def)
  qed
  have finish: "money_ok pr (upd_colony target (appendLedger pr cx ty ac pl) s1)" if "money_ok pr s1" "ty \<noteq> ''funds_minted''" for s1 ty ac pl
    using that by (simp add: money_ok_def)
  show ?thesis
    using assms
    by (auto simp: importSettlement_def Let_def intro!: finish upd
        split: option.splits if_splits sum.splits prod.splits)
qed

lemma importCancel_money:
  assumes "importCancel pr cx draw source target env s = (Inr r, s')" and "money_ok pr s"
  shows "money_ok pr s'"
  using assms
  by (auto simp: importCancel_def Let_def classify_apply_iff elim: decideRefund_money
      split: option.splits if_splits go_error.splits stepKind.splits)

lemma importRefund_money:
  assumes "importRefund pr cx source target env s = (Inr r, s')" and "money_ok pr s"
  shows "money_ok pr s'"
  using assms
  by (auto simp: importRefund_def Let_def elim: applyRefund_money
      split: option.splits if_splits stepKind.splits prod.splits sum.splits)

lemma importEnvelope_money:
  assumes "importEnvelope pr cx draw source target env s = (Inr r, s')" and "money_ok pr s"
    and "map_of (st_colonies s) target = Some c"
  shows "money_ok pr s'"
  using assms
  by (auto simp: importEnvelope_def split: if_splits
      elim: importOffer_money importAcceptance_money importSettlement_money importCancel_money importRefund_money)

section \<open>What an import leaves alone\<close>

definition colony_static :: "colony \<Rightarrow> string \<times> string \<times> string \<times> string \<times> string gmap" where
  "colony_static c = (c_id c, c_name c, c_public_key c, c_private_key c, c_trusted_colonies c)"

text \<open>Same users, sessions and pending actions, and the same colonies up to their accounts, queues,
  ledgers and balances.\<close>

definition same_parties :: "app_state \<Rightarrow> app_state \<Rightarrow> bool" where
  "same_parties s s' \<longleftrightarrow> st_users s' = st_users s \<and> st_sessions s' = st_sessions s
     \<and> st_pending_actions s' = st_pending_actions s
     \<and> (\<forall>k. map_option colony_static (map_of (st_colonies s') k) = map_option colony_static (map_of (st_colonies s) k))"

lemma same_parties_refl [simp]: "same_parties s s"
  by (simp add: same_parties_def)

lemma same_parties_trans: "same_parties s s' \<Longrightarrow> same_parties s' s'' \<Longrightarrow> same_parties s s''"
  by (simp add: same_parties_def)

lemma same_parties_upd_colony [simp]:
  "same_parties s s' \<Longrightarrow> (\<And>c. colony_static (f c) = colony_static c) \<Longrightarrow> same_parties s (upd_colony k f s')"
  by (auto simp: same_parties_def option.map_comp comp_def)

lemma same_parties_trades [simp]:
  "same_parties s s' \<Longrightarrow> same_parties s (upd_trade k g s')"
  "same_parties s s' \<Longrightarrow> same_parties s (s'\<lparr>st_trades := ts\<rparr>)"
  by (auto simp: same_parties_def)

lemma colony_static_frames [simp]:
  "colony_static (appendLedger pr cx ty ac pl c) = colony_static c"
  "colony_static (push_outbox e c) = colony_static c"
  "colony_static (upd_account u f c) = colony_static c"
  "colony_static (c\<lparr>c_net_claims := x\<rparr>) = colony_static c"
  "colony_static (c\<lparr>c_net_obligations := x\<rparr>) = colony_static c"
  "colony_static (c\<lparr>c_processed_envelopes := z\<rparr>) = colony_static c"
  by (simp_all add: colony_static_def push_outbox_def upd_account_def)

lemma advance_at_frame:
  "advance_at tk to s = Inr s' \<Longrightarrow> \<exists>t'. s' = upd_trade tk (\<lambda>_. t') s"
  by (auto simp: advance_at_def split: sum.splits)

lemma decideRefund_parties:
  "decideRefund pr cx draw source target tk trigger reason s = (x, s') \<Longrightarrow> same_parties s s'"
  by (auto simp: decideRefund_def Let_def dest!: advance_at_frame split: sum.splits if_splits)

lemma applyRefund_parties:
  "applyRefund pr cx tk actorID typ extra s = (x, s') \<Longrightarrow> same_parties s s'"
  by (auto simp: applyRefund_def Let_def dest!: advance_at_frame split: sum.splits if_splits option.splits)

lemma creditAcceptance_parties:
  "creditAcceptance pr cx draw source target tk env payload seller acc s = (x, s') \<Longrightarrow> same_parties s s'"
  by (auto simp: creditAcceptance_def Let_def dest!: advance_at_frame split: sum.splits if_splits option.splits)

lemma importEnvelope_parties:
  assumes "importEnvelope pr cx draw source target env s = (x, s')"
  shows "same_parties s s'"
proof -
  have 1: "importOffer pr cx source target env s = (x, s') \<Longrightarrow> same_parties s s'"
    by (auto simp: importOffer_def Let_def split: option.splits if_splits sum.splits go_error.splits prod.splits)
  have 2: "importAcceptance pr cx draw source target env s = (x, s') \<Longrightarrow> same_parties s s'"
    by (auto simp: importAcceptance_def Let_def dest: decideRefund_parties creditAcceptance_parties
        split: option.splits if_splits sum.splits go_error.splits bool.splits)
  have 3: "importSettlement pr cx source target env s = (x, s') \<Longrightarrow> same_parties s s'"
    by (auto simp: importSettlement_def Let_def split: option.splits if_splits sum.splits prod.splits)
  have 4: "importCancel pr cx draw source target env s = (x, s') \<Longrightarrow> same_parties s s'"
    by (auto simp: importCancel_def Let_def dest: decideRefund_parties
        split: option.splits if_splits sum.splits go_error.splits stepKind.splits)
  have 5: "importRefund pr cx source target env s = (x, s') \<Longrightarrow> same_parties s s'"
    by (auto simp: importRefund_def Let_def dest: applyRefund_parties
        split: option.splits if_splits sum.splits prod.splits stepKind.splits)
  show ?thesis
    using assms 1 2 3 4 5 by (auto simp: importEnvelope_def split: if_splits)
qed

lemma same_parties_colony:
  "same_parties s s' \<Longrightarrow> map_of (st_colonies s) k = Some c \<Longrightarrow>
   \<exists>c'. map_of (st_colonies s') k = Some c' \<and> colony_static c' = colony_static c"
  unfolding same_parties_def by (metis map_option_eq_Some)

section \<open>Bundles\<close>

text \<open>One round of the loop, when the bundle goes through.\<close>

abbreviation mark_processed :: "string \<Rightarrow> string \<Rightarrow> app_state \<Rightarrow> app_state" where
  "mark_processed target eid \<equiv> upd_colony target
     (\<lambda>c. c\<lparr>c_processed_envelopes := AList.update eid True (c_processed_envelopes c)\<rparr>)"

lemma import_messages_round:
  assumes "import_messages pr cx i source target (Some env # msgs) res s = (Inr r, s')"
  obtains (skip) "gget False (c_processed_envelopes (colony_at s target)) (e_id env)"
      "import_messages pr cx (Suc i) source target msgs
         (res\<lparr>ib_skipped_duplicates := ib_skipped_duplicates res + 1\<rparr>) s = (Inr r, s')"
    | (step) tk applied s1 res' where
      "\<not> gget False (c_processed_envelopes (colony_at s target)) (e_id env)"
      "e_to_colony_id env = c_id (colony_at s target)" "e_from_colony_id env = c_id (colony_at s source)"
      "verifyEnvelope pr (colony_at s source) env = None"
      "importEnvelope pr cx i source target env s = (Inr (tk, applied), s1)"
      "ib_imported_count res' = ib_imported_count res + (if applied then 1 else 0)"
      "import_messages pr cx (Suc i) source target msgs res' (mark_processed target (e_id env) s1) = (Inr r, s')"
proof (cases "gget False (c_processed_envelopes (colony_at s target)) (e_id env)")
  case True
  with assms skip show thesis by (simp add: Let_def split: if_splits)
next
  case False
  show thesis
  proof (cases "importEnvelope pr cx i source target env s")
    case (Pair x s1)
    show thesis
    proof (cases "verifyEnvelope pr (colony_at s source) env")
      case None
      with assms False have route: "e_to_colony_id env = c_id (colony_at s target)"
        "e_from_colony_id env = c_id (colony_at s source)"
        by (simp_all add: Let_def split: if_splits)
      from assms False Pair None obtain tk applied where x: "x = Inr (tk, applied)"
        by (cases x) (auto simp: Let_def split: if_splits)
      show thesis
      proof (cases applied)
        case True
        with assms False Pair None x route show thesis
          by (intro step [OF False route None Pair [unfolded x]]) (auto simp: Let_def)
      next
        case app: False
        with assms False Pair None x route show thesis
          by (intro step [OF False route None Pair [unfolded x]]) (auto simp: Let_def)
      qed
    next
      case (Some e)
      with assms False show thesis by (cases e) (simp_all add: Let_def split: if_splits)
    qed
  qed
qed

lemma import_messages_None:
  "import_messages pr cx i source target (None # msgs) res s = import_messages pr cx (Suc i) source target msgs res s"
  by simp

lemma import_messages_money:
  "import_messages pr cx i source target msgs res s = (Inr r, s') \<Longrightarrow> money_ok pr s \<Longrightarrow>
   map_of (st_colonies s) target = Some c \<Longrightarrow> money_ok pr s'"
proof (induction msgs arbitrary: i res s c)
  case Nil
  then show ?case by simp
next
  case (Cons m msgs)
  show ?case
  proof (cases m)
    case None
    with Cons show ?thesis by (simp only: import_messages_None)
  next
    case (Some env)
    from Cons.prems(1) [unfolded Some] show ?thesis
    proof (cases rule: import_messages_round)
      case skip
      with Cons show ?thesis by blast
    next
      case (step tk applied s1 res')
      have "money_ok pr s1" by (rule importEnvelope_money [OF step(5) Cons.prems(2,3)])
      then have "money_ok pr (mark_processed target (e_id env) s1)" by (simp add: money_ok_def)
      moreover obtain c1 where "map_of (st_colonies s1) target = Some c1"
        using same_parties_colony [OF importEnvelope_parties [OF step(5)] Cons.prems(3)] by blast
      ultimately show ?thesis using Cons.IH [OF step(7)] by simp
    qed
  qed
qed

lemma import_messages_parties:
  "import_messages pr cx i source target msgs res s = (Inr r, s') \<Longrightarrow> same_parties s s'"
proof (induction msgs arbitrary: i res s)
  case Nil
  then show ?case by simp
next
  case (Cons m msgs)
  show ?case
  proof (cases m)
    case None
    with Cons show ?thesis by (simp only: import_messages_None)
  next
    case (Some env)
    from Cons.prems [unfolded Some] show ?thesis
    proof (cases rule: import_messages_round)
      case skip
      with Cons show ?thesis by blast
    next
      case (step tk applied s1 res')
      have "same_parties s (mark_processed target (e_id env) s1)"
        using importEnvelope_parties [OF step(5)] by simp
      with Cons.IH [OF step(7)] show ?thesis by (rule same_parties_trans [rotated])
    qed
  qed
qed

end
