(* ===== verification/Invariant.thy ===== *)
theory Invariant
  imports Conservation
begin

text \<open>
  The system invariant \<open>sys_ok\<close> (money and pending actions) is kept by every request, whether it
  succeeds or fails.  Each lemma opens one handler; the store's rule \<open>sys.store_update\<close> leaves the
  successful callback to be examined.  The identifiers a request draws must be new; \<open>fresh_ids\<close> says
  so for the kinds of identifiers that name maps' keys.
\<close>

definition actions_ok :: "app_state \<Rightarrow> bool" where
  "actions_ok s \<longleftrightarrow> gall (\<lambda>k pa. p_type pa = ''mint'' \<longrightarrow> ValidAmount (p_amount pa)) (st_pending_actions s)"

definition sys_ok :: "prims \<Rightarrow> app_state \<Rightarrow> bool" where
  "sys_ok pr s \<longleftrightarrow> money_ok pr s \<and> actions_ok s"

definition fresh_ids :: "ctx \<Rightarrow> app_state \<Rightarrow> bool" where
  "fresh_ids cx s \<longleftrightarrow>
     (\<forall>i x. NewID cx i ''trd'' = Inr x \<longrightarrow> x \<notin> gkeys (st_trades s)) \<and>
     (\<forall>i x. NewID cx i ''col'' = Inr x \<longrightarrow> x \<notin> gkeys (st_colonies s)) \<and>
     (\<forall>i x. NewID cx i ''act'' = Inr x \<longrightarrow> x \<notin> gkeys (st_pending_actions s)) \<and>
     (\<forall>i x. NewID cx i ''usr'' = Inr x \<longrightarrow> x \<notin> gkeys (st_users s) \<and>
        (\<forall>k c. map_of (st_colonies s) k = Some c \<longrightarrow> x \<notin> gkeys (c_accounts c)))"

interpretation sys: state_invariant "sys_ok pr" for pr
  by unfold_locales (simp add: sys_ok_def money_ok_def actions_ok_def)

lemma sys_money: "sys_ok pr s \<Longrightarrow> money_ok pr s"
  by (simp add: sys_ok_def)

lemma actions_frames [simp]:
  "actions_ok (upd_colony k f s) = actions_ok s" "actions_ok (upd_trade k g s) = actions_ok s"
  "actions_ok (upd_user k h s) = actions_ok s" "actions_ok (s\<lparr>st_colonies := cs\<rparr>) = actions_ok s"
  "actions_ok (s\<lparr>st_trades := ts\<rparr>) = actions_ok s" "actions_ok (s\<lparr>st_users := us\<rparr>) = actions_ok s"
  "actions_ok (s\<lparr>st_sessions := ss\<rparr>) = actions_ok s" "actions_ok (s\<lparr>st_bundles := bs\<rparr>) = actions_ok s"
  by (simp_all add: actions_ok_def)

lemma actions_same_parties: "same_parties s s' \<Longrightarrow> actions_ok s' = actions_ok s"
  by (simp add: same_parties_def actions_ok_def)

lemma sys_same_parties: "money_ok pr s' \<Longrightarrow> same_parties s s' \<Longrightarrow> sys_ok pr s \<Longrightarrow> sys_ok pr s'"
  by (simp add: sys_ok_def actions_same_parties)

lemma sys_quiet [simp]:
  "sys_ok pr s \<Longrightarrow> quiet pr f \<Longrightarrow> sys_ok pr (upd_colony k f s)"
proof -
  assume s: "sys_ok pr s" and f: "quiet pr f"
  have "gap (upd_colony k f s) = gap s" by (rule gap_quiet) (use f in \<open>auto simp: quiet_def\<close>)
  with s f show ?thesis by (simp add: sys_ok_def money_ok_def)
qed

lemma sys_frames [simp]:
  "sys_ok pr (s\<lparr>st_users := us\<rparr>) = sys_ok pr s" "sys_ok pr (s\<lparr>st_sessions := ss\<rparr>) = sys_ok pr s"
  "sys_ok pr (s\<lparr>st_bundles := bs\<rparr>) = sys_ok pr s" "sys_ok pr (upd_user k h s) = sys_ok pr s"
  by (simp_all add: sys_ok_def money_ok_def)

lemma sys_put_action [simp]:
  "sys_ok pr s \<Longrightarrow> (p_type pa = ''mint'' \<longrightarrow> ValidAmount (p_amount pa)) \<Longrightarrow> sys_ok pr (put_action k pa s)"
  by (simp add: sys_ok_def money_ok_def actions_ok_def put_action_def gall_update)

lemma sys_quiet_trade [simp]: "sys_ok pr s \<Longrightarrow> quiet_trade g \<Longrightarrow> sys_ok pr (upd_trade k g s)"
  by (simp add: sys_ok_def money_ok_def)

section \<open>Administration\<close>

lemma sys_new_colony:
  assumes "sys_ok pr s" and "k \<notin> gkeys (st_colonies s)" and "c_accounts c = []" and "c_minted_total c = 0"
    and "c_mint_cap c = 0" and "c_ledger c = []" and "c_next_ledger_seq c = 0" and "c_last_ledger_hash c = []"
  shows "sys_ok pr (s\<lparr>st_colonies := AList.update k c (st_colonies s)\<rparr>)"
proof -
  have "colony_ok pr c" using assms by (simp add: colony_ok_def minted_seen_def EffectiveMintCap_def DefaultMintCap_def)
  with assms add_colony [of pr s k c] show ?thesis by (simp add: sys_ok_def money_ok_def)
qed

lemma CreateColony_sys:
  assumes "sys_ok pr s" and "fresh_ids cx s"
  shows "sys_ok pr (snd (CreateColony pr cx token name s))"
  using assms
  by (auto simp: CreateColony_def Let_def zero_colony_def fresh_ids_def
      intro!: sys.store_update sys_quiet sys_new_colony split: if_splits sum.splits)

lemma TrustPeer_sys: "sys_ok pr s \<Longrightarrow> sys_ok pr (snd (TrustPeer pr cx token colonyID peer s))"
  by (auto simp: TrustPeer_def Let_def intro!: sys.store_update split: if_splits sum.splits option.splits)

lemma newUser_id: "newUser pr cx a b c d e = Inr u \<Longrightarrow> NewID cx 0 ''usr'' = Inr (u_id u)"
  by (auto simp: newUser_def split: sum.splits)

lemma CreateUser_commit_sys:
  assumes "sys_ok pr s" and "fresh_ids cx s"
  shows "sys_ok pr (snd (CreateUser_commit pr cx token req h s))"
proof -
  have new: "sys_ok pr (upd_colony ck (\<lambda>c. c\<lparr>c_accounts :=
      AList.update (u_id u) \<lparr>a_user_id = x, a_colony_id = y, a_balance = 0\<rparr> (c_accounts c)\<rparr>)
        (s\<lparr>st_users := us\<rparr>))"
    if "newUser pr cx a b d e f = Inr u" and c: "map_of (st_colonies s) ck = Some c" for a b d e f u us x y ck c
  proof -
    have nk: "u_id u \<notin> gkeys (c_accounts c)"
      using assms(2) newUser_id [OF that(1)] c unfolding fresh_ids_def by blast
    have c': "map_of (st_colonies (s\<lparr>st_users := us\<rparr>)) ck = Some c" using c by simp
    have "struct_ok pr (s\<lparr>st_users := us\<rparr>)" "gap (s\<lparr>st_users := us\<rparr>) = 0" "actions_ok (s\<lparr>st_users := us\<rparr>)"
      using assms(1) by (simp_all add: sys_ok_def money_ok_def)
    with add_account [OF this(1) c' nk] show ?thesis by (simp add: sys_ok_def money_ok_def)
  qed
  from assms(1) new show ?thesis
    by (auto simp: CreateUser_commit_def Let_def intro!: sys.store_update sys_quiet
        split: if_splits sum.splits option.splits)
qed

lemma CreateUser_sys:
  "sys_ok pr s \<Longrightarrow> fresh_ids cx s \<Longrightarrow> sys_ok pr (snd (CreateUser pr cx token req s))"
  by (auto simp: CreateUser_def intro: CreateUser_commit_sys split: sum.splits)

lemma newPendingAction_Inr:
  "newPendingAction cx proposer typ cid s = (Inr (k, pa), s') \<Longrightarrow>
   p_type pa = typ \<and> p_id pa = k \<and> p_colony_id pa = cid \<and> p_proposed_by pa = u_id proposer
   \<and> p_status pa = ''pending'' \<and> NewID cx 0 ''act'' = Inr k
   \<and> s' = s\<lparr>st_pending_actions := AList.update k pa (st_pending_actions s)\<rparr>"
  by (auto simp: newPendingAction_def Let_def split: sum.splits)

lemma put_new_action [simp]:
  "put_action k pa' (s\<lparr>st_pending_actions := AList.update k pa (st_pending_actions s)\<rparr>) = put_action k pa' s"
  by (simp add: put_action_def)

lemma applyMint_parties: "applyMint pr cx ck u amt ac ap s = (x, s') \<Longrightarrow>
   st_pending_actions s' = st_pending_actions s \<and> st_users s' = st_users s \<and> st_sessions s' = st_sessions s
   \<and> st_trades s' = st_trades s"
  by (auto simp: applyMint_def Let_def split: option.splits sum.splits if_splits)

lemma applyMint_sys:
  assumes "applyMint pr cx ck u amt ac ap s = (Inr r, s')" and "sys_ok pr s"
    and "map_of (st_colonies s) ck = Some c" and "ValidAmount amt"
  shows "sys_ok pr s'"
  using applyMint_money [OF assms(1) _ assms(3,4)] applyMint_parties [OF assms(1)] assms(2)
  by (simp add: sys_ok_def actions_ok_def)

lemma mint_sys:
  assumes "sys_ok pr s" shows "sys_ok pr (snd (mint pr cx token req allow s))"
  using assms
  by (auto simp: mint_def Let_def dest!: newPendingAction_Inr intro!: sys.store_update sys_quiet
      elim: applyMint_sys split: if_splits sum.splits option.splits prod.splits)

lemma Mint_sys: "sys_ok pr s \<Longrightarrow> sys_ok pr (snd (Mint pr cx token req s))"
  using mint_sys [of pr s cx token req False]
  by (auto simp: Mint_def split: prod.splits sum.splits option.splits)

section \<open>Approvals\<close>

lemma applyPolicy_frame: "applyPolicy pr cx ck req ac ap s = (x, s') \<Longrightarrow>
   st_pending_actions s' = st_pending_actions s \<and> st_users s' = st_users s \<and> st_sessions s' = st_sessions s
   \<and> st_trades s' = st_trades s"
  by (auto simp: applyPolicy_def Let_def split: option.splits)

lemma applyPolicy_sys:
  assumes "applyPolicy pr cx ck req ac ap s = (Inr r, s')" and "sys_ok pr s"
    and "map_of (st_colonies s) ck = Some c"
  shows "sys_ok pr s'"
  using applyPolicy_money [OF assms(1) _ assms(3)] applyPolicy_frame [OF assms(1)] assms(2)
  by (simp add: sys_ok_def actions_ok_def)

lemma SetPolicy_sys: "sys_ok pr s \<Longrightarrow> sys_ok pr (snd (SetPolicy pr cx token colonyID req s))"
  by (auto simp: SetPolicy_def Let_def dest!: newPendingAction_Inr intro!: sys.store_update sys_quiet
      elim: applyPolicy_sys split: if_splits sum.splits option.splits prod.splits)

lemma ProposeForceRefund_sys: "sys_ok pr s \<Longrightarrow> sys_ok pr (snd (ProposeForceRefund pr cx token tradeID s))"
  by (auto simp: ProposeForceRefund_def Let_def dest!: newPendingAction_Inr intro!: sys.store_update sys_quiet
      split: if_splits sum.splits option.splits prod.splits)

lemma executeAction_sys:
  assumes "executeAction pr cx ck pa actor s = (Inr r, s')" and "sys_ok pr s"
    and "map_of (st_pending_actions s) k = Some pa" and "map_of (st_colonies s) ck = Some c"
  shows "sys_ok pr s'"
proof -
  have amt: "p_type pa = ''mint'' \<Longrightarrow> ValidAmount (p_amount pa)"
    using assms(2,3) by (auto simp: sys_ok_def actions_ok_def dest: gall_lookup)
  have refund: "sys_ok pr s'" if "applyRefund pr cx tk a b e s = (Inr u, s')" "map_of (st_trades s) tk = Some t" "b \<noteq> ''funds_minted''"
    for tk a b e u t
    using sys_same_parties [OF applyRefund_money [OF that(1) _ that(2,3)] applyRefund_parties [OF that(1)]] assms(2)
    by (simp add: sys_ok_def)
  show ?thesis
    using assms(1,2,4) amt
    by (auto simp: executeAction_def split: if_splits prod.splits sum.splits option.splits
        elim: applyMint_sys applyPolicy_sys refund)
qed

lemma sys_decided:
  assumes "sys_ok pr s" and "map_of (st_pending_actions s) k = Some pa"
    and "p_type pa' = p_type pa" and "p_amount pa' = p_amount pa"
  shows "sys_ok pr (s\<lparr>st_pending_actions := AList.map_entry k (\<lambda>_. pa') (st_pending_actions s)\<rparr>)"
  using assms by (auto simp: sys_ok_def money_ok_def actions_ok_def intro: gall_map_entry)

lemma executeAction_actions:
  "executeAction pr cx ck pa actor s = (x, s') \<Longrightarrow> st_pending_actions s' = st_pending_actions s"
  by (auto simp: executeAction_def same_parties_def
      dest!: applyMint_parties applyPolicy_frame applyRefund_parties
      split: if_splits prod.splits sum.splits option.splits)

lemma DecideApproval_sys:
  assumes "sys_ok pr s" shows "sys_ok pr (snd (DecideApproval pr cx token actionID approve s))"
proof -
  have approved: "sys_ok pr (s'\<lparr>st_pending_actions := AList.map_entry k (\<lambda>_. pa') (st_pending_actions s')\<rparr>)"
    if "executeAction pr cx ck pa actor s = (Inr r, s')" "map_of (st_pending_actions s) k = Some pa"
      "map_of (st_colonies s) ck = Some c" "p_type pa' = p_type pa" "p_amount pa' = p_amount pa"
    for ck pa actor r s' k c pa'
  proof -
    have "sys_ok pr s'" by (rule executeAction_sys [OF that(1) assms that(2,3)])
    moreover have "map_of (st_pending_actions s') k = Some pa"
      using executeAction_actions [OF that(1)] that(2) by simp
    ultimately show ?thesis using that(4,5) by (rule sys_decided)
  qed
  have rejected: "sys_ok pr ((upd_colony ck (appendLedger pr cx ty ac pl) s)\<lparr>st_pending_actions :=
      AList.map_entry k (\<lambda>_. pa') (st_pending_actions s)\<rparr>)"
    if "map_of (st_pending_actions s) k = Some pa" "p_type pa' = p_type pa" "p_amount pa' = p_amount pa"
      "ty \<noteq> ''funds_minted''"
    for ck ty ac pl k pa pa'
    using sys_decided [of pr "upd_colony ck (appendLedger pr cx ty ac pl) s" k pa pa'] assms that by simp
  show ?thesis
    using assms
    by (auto simp: DecideApproval_def Let_def intro!: sys.store_update approved rejected
        split: if_splits sum.splits option.splits prod.splits)
qed

section \<open>Trades\<close>

lemma sys_add_trade:
  assumes "sys_ok pr s" and "tk \<notin> gkeys (st_trades s)" and "trade_ok t" and "\<not> IsEscrowed (t_status t)"
  shows "sys_ok pr (s\<lparr>st_trades := AList.update tk t (st_trades s)\<rparr>)"
  using add_trade [of pr s tk t] assms by (simp add: sys_ok_def money_ok_def escrow_of_def)

lemma CreateOffer_sys:
  assumes "sys_ok pr s" and "fresh_ids cx s"
  shows "sys_ok pr (snd (CreateOffer pr cx token req s))"
proof -
  have new: "sys_ok pr (upd_colony sk (push_outbox e) s\<lparr>st_trades := AList.update x t (st_trades s)\<rparr>)"
    if "NewID cx 0 ''trd'' = Inr x" "trade_ok t" "t_status t = StatusOfferPendingExport" for sk e x t
    using sys_add_trade [of pr "upd_colony sk (push_outbox e) s" x t] that assms
    by (simp add: fresh_ids_def IsEscrowed_def)
  show ?thesis
    using assms(1)
    by (auto simp: CreateOffer_def CreateOffer_update_def Let_def zero_trade_def trade_ok_def
        intro!: sys.store_update sys_quiet new split: if_splits sum.splits option.splits prod.splits)
qed

text \<open>What a successful acceptance has checked and done.\<close>

definition accepted_state ::
    "prims \<Rightarrow> ctx \<Rightarrow> user \<Rightarrow> string \<Rightarrow> trade \<Rightarrow> user \<Rightarrow> account \<Rightarrow> envelope \<Rightarrow> string \<Rightarrow> string \<Rightarrow> app_state \<Rightarrow> app_state" where
  "accepted_state pr cx actor tk t buyer acc env envID sig s =
     (let ck = u_colony_id buyer; newBal = wrap64 (a_balance acc - t_price t); at = format_rfc3339 (now cx);
          s1 = upd_colony ck (push_outbox env) (upd_colony ck (upd_account (u_id buyer) (\<lambda>a. a\<lparr>a_balance := newBal\<rparr>)) s);
          s3 = upd_trade tk (\<lambda>_. t\<lparr>t_status := StatusAcceptancePendingExport\<rparr>) s1;
          s4 = upd_trade tk (\<lambda>t. t\<lparr>t_accepted_at := at, t_buyer_signature := sig, t_acceptance_envelope_id := envID\<rparr>) s3
      in upd_colony ck (appendLedger pr cx ''trade_accepted'' (u_id actor)
           (go_map [(''trade_id'', JStr (t_id t)), (''debit_amount'', JInt (t_price t)),
                    (''new_balance'', JInt newBal), (''envelope_id'', JStr envID)])) s4)"

definition acceptance_envelope :: "ctx \<Rightarrow> trade \<Rightarrow> user \<Rightarrow> string \<Rightarrow> json \<Rightarrow> string \<Rightarrow> envelope" where
  "acceptance_envelope cx t buyer envID payload esig =
     (new_envelope envID ''acceptance'' (u_colony_id buyer) (t_seller_colony_id t) payload
        (format_rfc3339 (now cx)))\<lparr>e_colony_signature := esig\<rparr>"

lemma AcceptTrade_Inr:
  assumes "AcceptTrade pr cx token tk s = (Inr v, s')"
  shows "\<exists>ak actor t buyer c acc envID sig payload esig.
    actorFromToken pr cx s token = Inr (ak, actor) \<and> map_of (st_trades s) tk = Some t
    \<and> t_status t = StatusOfferReceived \<and> \<not> isExpired t (now cx)
    \<and> map_of (st_users s) (t_buyer_user_id t) = Some buyer
    \<and> (u_id actor = u_id buyer \<or> HasRole actor ''super_admin'')
    \<and> (HasRole actor ''super_admin'' \<or> HasRole actor ''trader'')
    \<and> map_of (st_colonies s) (u_colony_id buyer) = Some c \<and> map_of (c_accounts c) (u_id buyer) = Some acc
    \<and> t_price t \<le> a_balance acc \<and> NewID cx 0 ''env'' = Inr envID
    \<and> s' = (accepted_state pr cx actor tk t buyer acc
        (acceptance_envelope cx t buyer envID payload esig) envID sig s)\<lparr>meta_updated_at := format_rfc3339 (now cx)\<rparr>"
proof -
  have adv: "s3 = upd_trade tk (\<lambda>_. t\<lparr>t_status := StatusAcceptancePendingExport\<rparr>) (upd_colony ck1 f1 (upd_colony ck2 f2 s))"
    if "advance_at tk StatusAcceptancePendingExport (upd_colony ck1 f1 (upd_colony ck2 f2 s)) = Inr s3"
      "map_of (st_trades s) tk = Some t" for s3 t ck1 f1 ck2 f2
    using advance_at_Inr [OF that(1)] that(2) by simp
  from assms show ?thesis
    unfolding AcceptTrade_def AcceptTrade_update_def StoreUpdateScoped_Inr
    by (elim exE conjE)
      (auto simp: Let_def accepted_state_def acceptance_envelope_def dest!: adv split: if_splits sum.splits option.splits prod.splits)
qed

lemma accepted_state_sys:
  assumes "sys_ok pr s" and t: "map_of (st_trades s) tk = Some t"
    and st: "t_status t = StatusOfferReceived" and c: "map_of (st_colonies s) (u_colony_id buyer) = Some c"
    and a: "map_of (c_accounts c) (u_id buyer) = Some acc" and bal: "t_price t \<le> a_balance acc"
  shows "sys_ok pr (accepted_state pr cx actor tk t buyer acc env envID sig s)"
proof -
  let ?ck = "u_colony_id buyer" and ?u = "u_id buyer"
  have ok: "struct_ok pr s" "gap s = 0" "actions_ok s" using assms(1) by (simp_all add: sys_ok_def money_ok_def)
  have val: "ValidAmount (t_price t)" using struct_lookup(2) [OF ok(1) t] by (simp add: trade_ok_def)
  note b = debit_amount [OF colony_account [OF struct_lookup(1) [OF ok(1) c] a] val bal]
  define s2 where "s2 = upd_colony ?ck (push_outbox env)
      (upd_colony ?ck (upd_account ?u (\<lambda>a. a\<lparr>a_balance := wrap64 (a_balance acc - t_price t)\<rparr>)) s)"
  have ok2: "struct_ok pr s2" "gap s2 = - t_price t" "actions_ok s2"
    using set_balance [OF ok(1) c a, of "a_balance acc - t_price t"] b ok(2,3) by (simp_all add: s2_def)
  have t2: "map_of (st_trades s2) tk = Some t" using t by (simp add: s2_def)
  let ?t1 = "t\<lparr>t_status := StatusAcceptancePendingExport\<rparr>"
  define s3 where "s3 = upd_trade tk (\<lambda>_. ?t1) s2"
  have "trade_ok ?t1" using val by (simp add: trade_ok_def unaccepted_def)
  note put = put_trade [OF ok2(1) t2 this]
  have ok3: "struct_ok pr s3" "gap s3 = 0" "actions_ok s3" "map_of (st_trades s3) tk = Some ?t1"
    using put ok2 t2 st by (simp_all add: s3_def escrow_of_def IsEscrowed_def)
  let ?g = "\<lambda>t. t\<lparr>t_accepted_at := format_rfc3339 (now cx), t_buyer_signature := sig, t_acceptance_envelope_id := envID\<rparr>"
  have "trade_ok (?g ?t1)" using val by (simp add: trade_ok_def unaccepted_def)
  from set_trade [OF ok3(1,4), where g = ?g, OF this] ok3(2,3)
  have "sys_ok pr (upd_trade tk ?g s3)" by (simp add: sys_ok_def money_ok_def escrow_of_def IsEscrowed_def)
  then show ?thesis by (simp add: accepted_state_def Let_def s3_def s2_def)
qed

lemma AcceptTrade_sys:
  assumes "sys_ok pr s" shows "sys_ok pr (snd (AcceptTrade pr cx token tradeID s))"
proof (cases "AcceptTrade pr cx token tradeID s")
  case (Pair r s')
  show ?thesis
  proof (cases r)
    case (Inl e)
    with Pair assms show ?thesis by (auto simp: AcceptTrade_def AcceptTrade_update_def dest: StoreUpdateScoped_Inl)
  next
    case (Inr v)
    from AcceptTrade_Inr [OF Pair [unfolded Inr]] accepted_state_sys [OF assms] Pair show ?thesis
      by (auto simp: sys.ignores_updated_at)
  qed
qed

lemma ExportBundle_sys: "sys_ok pr s \<Longrightarrow> sys_ok pr (snd (ExportBundle pr cx token colonyID toID s))"
  by (auto simp: ExportBundle_def Let_def intro!: sys.store_update sys_quiet
      split: if_splits sum.splits option.splits)

lemma ImportBundle_sys:
  assumes "sys_ok pr s" shows "sys_ok pr (snd (ImportBundle pr cx token colonyID bndl s))"
proof -
  have imp: "sys_ok pr s1"
    if "import_messages pr cx i source target msgs res s = (Inr r, s1)" "map_of (st_colonies s) target = Some c"
    for i source target msgs res r s1 c
    using sys_same_parties [OF import_messages_money [OF that(1) sys_money [OF assms] that(2)]
        import_messages_parties [OF that(1)] assms] .
  show ?thesis
    using assms
    by (auto simp: ImportBundle_def Let_def intro!: sys.store_update sys_quiet
        split: if_splits option.splits sum.splits prod.splits) (erule (1) imp)
qed

lemma sys_close:
  assumes "sys_ok pr s" and t: "map_of (st_trades s) tk = Some t" and "advance_at tk to s = Inr s1"
    and "to = StatusExpired \<or> to = StatusCancelled"
  shows "sys_ok pr s1"
proof -
  have ok: "struct_ok pr s" "gap s = 0" "actions_ok s" using assms(1) by (simp_all add: sys_ok_def money_ok_def)
  from advance_at_Inr [OF assms(3) t] assms(4)
  have st: "unaccepted (t_status t)" "\<not> IsEscrowed (t_status t)" and s1: "s1 = upd_trade tk (\<lambda>_. t\<lparr>t_status := to\<rparr>) s"
    by (auto simp: allowed_simps unaccepted_def IsEscrowed_def)
  have "trade_ok (t\<lparr>t_status := to\<rparr>)"
    using struct_lookup(2) [OF ok(1) t] st(1) by (simp add: trade_ok_def)
  from put_trade [OF ok(1) t this] ok(2,3) st(2) assms(4) show ?thesis
    by (auto simp: s1 sys_ok_def money_ok_def escrow_of_def IsEscrowed_def)
qed

lemma CancelTrade_sys:
  assumes "sys_ok pr s" shows "sys_ok pr (snd (CancelTrade pr cx token tradeID s))"
proof -
  have close: "advance_at tk StatusCancelled s = Inr s1 \<Longrightarrow> map_of (st_trades s) tk = Some t \<Longrightarrow> sys_ok pr s1"
    for tk s1 t using sys_close [OF assms] by blast
  show ?thesis
    using assms
    by (auto simp: CancelTrade_def CancelTrade_update_def Let_def intro!: sys.store_update sys_quiet sys_quiet_trade
        split: if_splits sum.splits option.splits) (erule (1) close)+
qed

lemma sweep_sys: "sweep pr cx tks n s = (Inr r, s') \<Longrightarrow> sys_ok pr s \<Longrightarrow> sys_ok pr s'"
proof (induction tks arbitrary: n s)
  case (Cons tk tks)
  show ?case
  proof (cases "due cx (trade_at s tk)")
    case False
    with Cons show ?thesis by (auto simp: Let_def)
  next
    case True
    then obtain t where t: "map_of (st_trades s) tk = Some t"
      by (cases "map_of (st_trades s) tk") (auto simp: trade_at_def gget_def due_def zero_trade_def)
    from Cons.prems(1) True obtain s1 pl where s1: "advance_at tk StatusExpired s = Inr s1"
      and rest: "sweep pr cx tks (n + 1) (upd_colony (t_seller_colony_id (trade_at s tk))
        (appendLedger pr cx ''trade_offer_expired'' [] pl) s1) = (Inr r, s')"
      by (auto simp: Let_def split: sum.splits)
    have "sys_ok pr s1" using sys_close [OF Cons.prems(2) t s1] by simp
    with Cons.IH [OF rest] show ?thesis by simp
  qed
qed simp

lemma SweepExpired_sys: "sys_ok pr s \<Longrightarrow> sys_ok pr (snd (SweepExpired pr cx s))"
  by (auto simp: SweepExpired_def Let_def intro!: sys.store_update elim: sweep_sys)

section \<open>Sessions and users\<close>

lemma createSession_sys:
  "createSessionForUser pr cx d u s = (Inr r, s') \<Longrightarrow> sys_ok pr s \<Longrightarrow> sys_ok pr s'"
  by (auto simp: createSessionForUser_def Let_def pruneSessions_def split: sum.splits if_splits)

lemma dropSessions_sys [simp]: "sys_ok pr (dropSessions u k s) = sys_ok pr s"
  by (simp add: dropSessions_def)

lemma Bootstrap_commit_sys: "sys_ok pr s \<Longrightarrow> sys_ok pr (snd (Bootstrap_commit pr cx un d h s))"
  by (auto simp: Bootstrap_commit_def intro!: sys.store_update elim!: createSession_sys split: if_splits sum.splits)

lemma Bootstrap_sys: "sys_ok pr s \<Longrightarrow> sys_ok pr (snd (Bootstrap pr cx req s))"
  by (auto simp: Bootstrap_def Let_def intro: Bootstrap_commit_sys split: sum.splits)

lemma noteLoginFailure_update_sys: "sys_ok pr s \<Longrightarrow> sys_ok pr (snd (noteLoginFailure_update cx u s))"
  by (auto simp: noteLoginFailure_update_def Let_def intro!: sys.store_update split: option.splits if_splits)

lemma noteLoginFailure_state: "snd (noteLoginFailure cx u s) = snd (noteLoginFailure_update cx u s)"
  by (auto simp: noteLoginFailure_def split: prod.splits sum.splits)

lemma noteLoginFailure_sys: "sys_ok pr s \<Longrightarrow> noteLoginFailure cx u s = (b, s') \<Longrightarrow> sys_ok pr s'"
  using noteLoginFailure_update_sys [of pr s cx u] noteLoginFailure_state [of cx u s] by simp

lemma Login_commit_sys: "sys_ok pr s \<Longrightarrow> sys_ok pr (snd (Login_commit pr cx req c up s))"
  by (auto simp: Login_commit_def Let_def intro!: sys.store_update elim!: createSession_sys
      split: option.splits if_splits)

lemma Login_sys: "sys_ok pr s \<Longrightarrow> sys_ok pr (snd (Login pr cx req s))"
  by (auto simp: Login_def Login_failed_def Let_def intro: Login_commit_sys noteLoginFailure_sys
      split: prod.splits sum.splits)

lemma Logout_sys: "sys_ok pr s \<Longrightarrow> sys_ok pr (snd (Logout cx token s))"
  by (auto simp: Logout_def intro!: sys.store_update)

lemma EnrollMFA_sys: "sys_ok pr s \<Longrightarrow> sys_ok pr (snd (EnrollMFA pr cx token s))"
  by (auto simp: EnrollMFA_def intro!: sys.store_update split: sum.splits if_splits)

lemma ConfirmMFA_sys: "sys_ok pr s \<Longrightarrow> sys_ok pr (snd (ConfirmMFA pr cx token c s))"
  by (auto simp: ConfirmMFA_def Let_def intro!: sys.store_update split: sum.splits if_splits)

lemma with_target_Inr:
  "with_target pr cx token userID k s = (Inr r, s') \<Longrightarrow>
   \<exists>ak actor target. actorFromToken pr cx s token = Inr (ak, actor) \<and> map_of (st_users s) userID = Some target
     \<and> authorizeUserAdmin actor (Some target) = None \<and> k actor target s = (Inr r, s')"
  by (auto simp: with_target_def split: sum.splits option.splits)

lemma IssueResetToken_sys: "sys_ok pr s \<Longrightarrow> sys_ok pr (snd (IssueResetToken pr cx token userID s))"
  by (auto simp: IssueResetToken_def Let_def intro!: sys.store_update dest!: with_target_Inr split: sum.splits)

lemma CompleteReset_commit_sys: "sys_ok pr s \<Longrightarrow> sys_ok pr (snd (CompleteReset_commit cx u h nh s))"
  by (auto simp: CompleteReset_commit_def intro!: sys.store_update split: if_splits)

lemma CompleteReset_sys: "sys_ok pr s \<Longrightarrow> sys_ok pr (snd (CompleteReset pr cx tok pw s))"
  by (auto simp: CompleteReset_def intro: CompleteReset_commit_sys split: option.splits sum.splits)

lemma ChangePassword_commit_sys: "sys_ok pr s \<Longrightarrow> sys_ok pr (snd (ChangePassword_commit cx tok h nh s))"
  by (auto simp: ChangePassword_commit_def intro!: sys.store_update split: if_splits sum.splits)

lemma ChangePassword_sys: "sys_ok pr s \<Longrightarrow> sys_ok pr (snd (ChangePassword pr cx tok cpw npw s))"
  by (auto simp: ChangePassword_def intro: ChangePassword_commit_sys noteLoginFailure_sys
      split: option.splits sum.splits prod.splits)

lemma ResetMFA_sys: "sys_ok pr s \<Longrightarrow> sys_ok pr (snd (ResetMFA pr cx token userID s))"
  by (auto simp: ResetMFA_def Let_def intro!: sys.store_update dest!: with_target_Inr)

lemma SetUserActive_sys: "sys_ok pr s \<Longrightarrow> sys_ok pr (snd (SetUserActive pr cx token userID active s))"
  by (auto simp: SetUserActive_def Let_def intro!: sys.store_update sys_quiet dest!: with_target_Inr split: if_splits)

lemma SetUserRoles_sys: "sys_ok pr s \<Longrightarrow> sys_ok pr (snd (SetUserRoles pr cx token userID roles s))"
  by (auto simp: SetUserRoles_def Let_def intro!: sys.store_update sys_quiet dest!: with_target_Inr split: if_splits)

end
