(* ===== verification/Integrity.thy ===== *)
theory Integrity
  imports Invariant
begin

text \<open>
  \<open>VerifyStateIntegrity\<close> decides exactly: every ledger is a hash chain with contiguous sequence
  numbers whose length is recorded, no balance is negative, and the conservation equation holds
  modulo \<open>2^64\<close>.  Every state that satisfies the system invariant is accepted.
\<close>

lemma check_ledger_None: "check_ledger pr cid i prev es = None \<longleftrightarrow> chain_ok pr i prev es"
  by (induction es arbitrary: i prev) (auto simp: entry_hash_ok_def)

lemma check_accounts_Inr:
  "check_accounts cid as b = Inr b' \<longleftrightarrow>
   gall (\<lambda>k a. 0 \<le> a_balance a) as \<and> b' = (if as = [] then b else wrap64 (b + gsum a_balance as))"
  by (induction cid as b rule: check_accounts.induct) (auto simp: add.assoc)

definition colony_intact :: "prims \<Rightarrow> colony \<Rightarrow> bool" where
  "colony_intact pr c \<longleftrightarrow> chain_ok pr 0 [] (c_ledger c)
     \<and> c_next_ledger_seq c = wrap64 (int (length (c_ledger c))) \<and> gall (\<lambda>k a. 0 \<le> a_balance a) (c_accounts c)"

lemma check_colonies_Inr:
  "wrap64 b = b \<Longrightarrow> wrap64 m = m \<Longrightarrow>
   check_colonies pr cs b m = Inr (b', m') \<longleftrightarrow>
   gall (\<lambda>k c. colony_intact pr c) cs \<and> b' = wrap64 (b + gsum colony_balances cs)
   \<and> m' = wrap64 (m + gsum c_minted_total cs)"
proof (induction cs arbitrary: b m)
  case Nil
  then show ?case by auto
next
  case (Cons p cs)
  obtain cid c where p: "p = (cid, c)" by (cases p)
  have ww: "wrap64 (wrap64 x) = wrap64 x" for x
    using wrap64_add_left [of x 0] by simp
  show ?case
  proof (cases "colony_intact pr c")
    case True
    then have "check_accounts cid (c_accounts c) b = Inr (wrap64 (b + colony_balances c))"
      using Cons.prems by (auto simp: check_accounts_Inr colony_intact_def colony_balances_def)
    with True p Cons.IH [of "wrap64 (b + colony_balances c)" "wrap64 (m + c_minted_total c)"] show ?thesis
      by (simp add: colony_intact_def check_ledger_None [THEN iffD2] ww add.assoc)
  next
    case False
    have "check_colonies pr (p # cs) b m \<noteq> Inr (b', m')"
    proof
      assume "check_colonies pr (p # cs) b m = Inr (b', m')"
      with False p show False
        by (auto simp: colony_intact_def check_ledger_None check_accounts_Inr split: option.splits if_splits sum.splits)
    qed
    with False p show ?thesis by simp
  qed
qed

lemma gall_sort_key [simp]: "gall P (sort_key f m) = gall P m"
  by (simp add: gall_def list_all_iff)

lemma gsum_sort_key [simp]: "gsum g (sort_key f m) = gsum g m"
  unfolding gsum_def by (metis mset_map mset_sort sum_mset_sum_list)

lemma escrow_loop:
  "foldl (\<lambda>acc (k, t). if IsEscrowed (t_status t) then wrap64 (acc + t_price t) else acc) a ts =
   (if \<exists>(k, t) \<in> set ts. IsEscrowed (t_status t) then wrap64 (a + gsum escrow_of ts) else a)"
proof (induction ts arbitrary: a)
  case (Cons p ts)
  obtain k t where p: "p = (k, t)" by (cases p)
  have none: "gsum escrow_of ts = 0" if "\<not> (\<exists>(k, t) \<in> set ts. IsEscrowed (t_status t))"
    using that by (induction ts) (auto simp: escrow_of_def)
  show ?case
  proof (cases "\<exists>(k, t) \<in> set ts. IsEscrowed (t_status t)")
    case True
    with p Cons show ?thesis by (auto simp: escrow_of_def [of t] add.assoc)
  next
    case False
    with p Cons none [OF False] show ?thesis by (auto simp: escrow_of_def [of t])
  qed
qed simp

lemma escrow_wrap:
  "wrap64 (b + foldl (\<lambda>acc (k, t). if IsEscrowed (t_status t) then wrap64 (acc + t_price t) else acc) 0 ts) =
   wrap64 (b + gsum escrow_of ts)"
proof -
  have "gsum escrow_of ts = 0" if "\<not> (\<exists>(k, t) \<in> set ts. IsEscrowed (t_status t))"
    using that by (induction ts) (auto simp: escrow_of_def)
  then show ?thesis by (auto simp: escrow_loop)
qed

lemma wrap64_eq_iff: "wrap64 a = wrap64 b \<longleftrightarrow> a mod 2 ^ 64 = b mod 2 ^ 64"
proof
  show "wrap64 a = wrap64 b \<Longrightarrow> a mod 2 ^ 64 = b mod 2 ^ 64" by (metis wrap64_mod)
next
  assume "a mod 2 ^ 64 = b mod 2 ^ 64"
  then have "(word_of_int a :: 64 word) = word_of_int b"
    by (simp add: word_of_int_eq_iff take_bit_eq_mod)
  then show "wrap64 a = wrap64 b" by (simp add: wrap64_def)
qed

lemma VerifyStateIntegrity_iff:
  "VerifyStateIntegrity pr s = None \<longleftrightarrow>
   gall (\<lambda>k c. colony_intact pr c) (st_colonies s) \<and>
   (total_balances s + total_escrow s) mod 2 ^ 64 = total_minted s mod 2 ^ 64"
proof (cases "check_colonies pr (sort_key fst (st_colonies s)) 0 0")
  case (Inl e)
  then have "\<not> gall (\<lambda>k c. colony_intact pr c) (st_colonies s)"
    using check_colonies_Inr [of 0 0 pr "sort_key fst (st_colonies s)"] by auto
  with Inl show ?thesis by (simp add: VerifyStateIntegrity_def)
next
  case (Inr p)
  obtain b m where p: "p = (b, m)" by (cases p)
  from Inr p have f: "gall (\<lambda>k c. colony_intact pr c) (st_colonies s)"
    "b = wrap64 (total_balances s)" "m = wrap64 (total_minted s)"
    using check_colonies_Inr [of 0 0 pr "sort_key fst (st_colonies s)" b m]
    by (auto simp: total_balances_def total_minted_def)
  have "VerifyStateIntegrity pr s = None \<longleftrightarrow> wrap64 (total_balances s + total_escrow s) = wrap64 (total_minted s)"
    using Inr p f(2,3)
    by (simp add: VerifyStateIntegrity_def Let_def escrow_wrap total_escrow_def)
  with f(1) show ?thesis by (simp add: wrap64_eq_iff)
qed

lemma sys_intact:
  assumes "sys_ok pr s" shows "VerifyStateIntegrity pr s = None"
proof -
  have "gall (\<lambda>k c. colony_ok pr c) (st_colonies s)" and "gap s = 0"
    using assms by (simp_all add: sys_ok_def money_ok_def struct_ok_def)
  then show ?thesis
    by (auto simp: VerifyStateIntegrity_iff gap_def colony_intact_def colony_ok_def ledger_ok_def account_ok_def
        intro: gall_mono elim: gall_mono)
qed

end
