(* ===== verification/System.thy ===== *)
theory System
  imports Invariant
begin

text \<open>
  The server as a state machine: a step is one request or one of the transactions that a request
  which hashes a password runs later, on whatever state it then finds.  \<open>reachable\<close> are the states
  that any sequence of such steps leads to from the empty state, each with its own clocks and random
  bytes.
\<close>

datatype request =
    ReqCreateColony string string
  | ReqTrustPeer string string string
  | ReqCreateUser string create_user_request
  | ReqMint string mint_request
  | ReqMintOrPropose string mint_request
  | ReqSetPolicy string string policy_request
  | ReqProposeForceRefund string string
  | ReqDecideApproval string string bool
  | ReqCreateOffer string create_offer_request
  | ReqAcceptTrade string string
  | ReqExportBundle string string string
  | ReqImportBundle string string relay_bundle
  | ReqCancelTrade string string
  | ReqSweep
  | ReqBootstrap bootstrap_request
  | ReqLogin login_request
  | ReqLogout string
  | ReqEnrollMFA string
  | ReqConfirmMFA string string
  | ReqIssueReset string string
  | ReqCompleteReset string string
  | ReqChangePassword string string string
  | ReqResetMFA string string
  | ReqSetUserActive string string bool
  | ReqSetUserRoles string string "string list"

text \<open>The state a request leaves behind.\<close>

fun serve :: "prims \<Rightarrow> ctx \<Rightarrow> request \<Rightarrow> app_state \<Rightarrow> app_state" where
  "serve pr cx (ReqCreateColony tok name) s = snd (CreateColony pr cx tok name s)"
| "serve pr cx (ReqTrustPeer tok c p) s = snd (TrustPeer pr cx tok c p s)"
| "serve pr cx (ReqCreateUser tok req) s = snd (CreateUser pr cx tok req s)"
| "serve pr cx (ReqMint tok req) s = snd (Mint pr cx tok req s)"
| "serve pr cx (ReqMintOrPropose tok req) s = snd (MintOrPropose pr cx tok req s)"
| "serve pr cx (ReqSetPolicy tok c req) s = snd (SetPolicy pr cx tok c req s)"
| "serve pr cx (ReqProposeForceRefund tok t) s = snd (ProposeForceRefund pr cx tok t s)"
| "serve pr cx (ReqDecideApproval tok a b) s = snd (DecideApproval pr cx tok a b s)"
| "serve pr cx (ReqCreateOffer tok req) s = snd (CreateOffer pr cx tok req s)"
| "serve pr cx (ReqAcceptTrade tok t) s = snd (AcceptTrade pr cx tok t s)"
| "serve pr cx (ReqExportBundle tok c d) s = snd (ExportBundle pr cx tok c d s)"
| "serve pr cx (ReqImportBundle tok c b) s = snd (ImportBundle pr cx tok c b s)"
| "serve pr cx (ReqCancelTrade tok t) s = snd (CancelTrade pr cx tok t s)"
| "serve pr cx ReqSweep s = snd (SweepExpired pr cx s)"
| "serve pr cx (ReqBootstrap req) s = snd (Bootstrap pr cx req s)"
| "serve pr cx (ReqLogin req) s = snd (Login pr cx req s)"
| "serve pr cx (ReqLogout tok) s = snd (Logout cx tok s)"
| "serve pr cx (ReqEnrollMFA tok) s = snd (EnrollMFA pr cx tok s)"
| "serve pr cx (ReqConfirmMFA tok c) s = snd (ConfirmMFA pr cx tok c s)"
| "serve pr cx (ReqIssueReset tok u) s = snd (IssueResetToken pr cx tok u s)"
| "serve pr cx (ReqCompleteReset tok pw) s = snd (CompleteReset pr cx tok pw s)"
| "serve pr cx (ReqChangePassword tok c n) s = snd (ChangePassword pr cx tok c n s)"
| "serve pr cx (ReqResetMFA tok u) s = snd (ResetMFA pr cx tok u s)"
| "serve pr cx (ReqSetUserActive tok u b) s = snd (SetUserActive pr cx tok u b s)"
| "serve pr cx (ReqSetUserRoles tok u r) s = snd (SetUserRoles pr cx tok u r s)"

inductive step :: "prims \<Rightarrow> app_state \<Rightarrow> app_state \<Rightarrow> bool" for pr where
  request: "fresh_ids cx s \<Longrightarrow> step pr s (serve pr cx r s)"
| create_user_late: "fresh_ids cx s \<Longrightarrow> step pr s (snd (CreateUser_commit pr cx tok req h s))"
| bootstrap_late: "fresh_ids cx s \<Longrightarrow> step pr s (snd (Bootstrap_commit pr cx un d h s))"
| login_late: "step pr s (snd (Login_commit pr cx lr c up s))"
| login_failure_late: "step pr s (snd (noteLoginFailure_update cx u s))"
| reset_late: "step pr s (snd (CompleteReset_commit cx u h nh s))"
| change_late: "step pr s (snd (ChangePassword_commit cx tok h nh s))"

inductive reachable :: "prims \<Rightarrow> app_state \<Rightarrow> bool" for pr where
  start: "reachable pr (newEmptyState cx)"
| next_step: "reachable pr s \<Longrightarrow> step pr s s' \<Longrightarrow> reachable pr s'"

lemmas sys_requests = CreateColony_sys TrustPeer_sys CreateUser_sys Mint_sys mint_sys SetPolicy_sys
  ProposeForceRefund_sys DecideApproval_sys CreateOffer_sys AcceptTrade_sys ExportBundle_sys ImportBundle_sys
  CancelTrade_sys SweepExpired_sys Bootstrap_sys Login_sys Logout_sys EnrollMFA_sys ConfirmMFA_sys
  IssueResetToken_sys CompleteReset_sys ChangePassword_sys ResetMFA_sys SetUserActive_sys SetUserRoles_sys

lemma serve_sys: "sys_ok pr s \<Longrightarrow> fresh_ids cx s \<Longrightarrow> sys_ok pr (serve pr cx r s)"
  by (cases r) (simp_all add: sys_requests MintOrPropose_def)

lemma step_sys: "step pr s s' \<Longrightarrow> sys_ok pr s \<Longrightarrow> sys_ok pr s'"
  by (induction rule: step.induct)
    (auto intro: serve_sys CreateUser_commit_sys Bootstrap_commit_sys Login_commit_sys
      noteLoginFailure_update_sys CompleteReset_commit_sys ChangePassword_commit_sys)

lemma newEmptyState_sys: "sys_ok pr (newEmptyState cx)"
  by (simp add: sys_ok_def money_ok_def actions_ok_def struct_ok_def gap_def total_balances_def
      total_escrow_def total_minted_def newEmptyState_def)

lemma reachable_sys: "reachable pr s \<Longrightarrow> sys_ok pr s"
  by (induction rule: reachable.induct) (auto intro: newEmptyState_sys step_sys)

end
