(* ===== verification/Atomicity.thy ===== *)
theory Atomicity
  imports System
begin

text \<open>
  What a client is told, besides what happens.  \<open>answer\<close> pairs the state a request leaves behind with
  the error it reports, if any.  A request that fails leaves the state as it was; a failed login and a
  failed change of password count the failure of one user and do nothing else.
\<close>

definition forget :: "'a result \<times> app_state \<Rightarrow> go_error option \<times> app_state" where
  "forget x = (case x of (Inl e, s) \<Rightarrow> (Some e, s) | (Inr v, s) \<Rightarrow> (None, s))"

fun answer :: "prims \<Rightarrow> ctx \<Rightarrow> request \<Rightarrow> app_state \<Rightarrow> go_error option \<times> app_state" where
  "answer pr cx (ReqCreateColony tok name) s = forget (CreateColony pr cx tok name s)"
| "answer pr cx (ReqTrustPeer tok c p) s = forget (TrustPeer pr cx tok c p s)"
| "answer pr cx (ReqCreateUser tok req) s = forget (CreateUser pr cx tok req s)"
| "answer pr cx (ReqMint tok req) s = forget (Mint pr cx tok req s)"
| "answer pr cx (ReqMintOrPropose tok req) s = forget (MintOrPropose pr cx tok req s)"
| "answer pr cx (ReqSetPolicy tok c req) s = forget (SetPolicy pr cx tok c req s)"
| "answer pr cx (ReqProposeForceRefund tok t) s = forget (ProposeForceRefund pr cx tok t s)"
| "answer pr cx (ReqDecideApproval tok a b) s = forget (DecideApproval pr cx tok a b s)"
| "answer pr cx (ReqCreateOffer tok req) s = forget (CreateOffer pr cx tok req s)"
| "answer pr cx (ReqAcceptTrade tok t) s = forget (AcceptTrade pr cx tok t s)"
| "answer pr cx (ReqExportBundle tok c d) s = forget (ExportBundle pr cx tok c d s)"
| "answer pr cx (ReqImportBundle tok c b) s = forget (ImportBundle pr cx tok c b s)"
| "answer pr cx (ReqCancelTrade tok t) s = forget (CancelTrade pr cx tok t s)"
| "answer pr cx ReqSweep s = forget (SweepExpired pr cx s)"
| "answer pr cx (ReqBootstrap req) s = forget (Bootstrap pr cx req s)"
| "answer pr cx (ReqLogin req) s = forget (Login pr cx req s)"
| "answer pr cx (ReqLogout tok) s = forget (Logout cx tok s)"
| "answer pr cx (ReqEnrollMFA tok) s = forget (EnrollMFA pr cx tok s)"
| "answer pr cx (ReqConfirmMFA tok c) s = forget (ConfirmMFA pr cx tok c s)"
| "answer pr cx (ReqIssueReset tok u) s = forget (IssueResetToken pr cx tok u s)"
| "answer pr cx (ReqCompleteReset tok pw) s = forget (CompleteReset pr cx tok pw s)"
| "answer pr cx (ReqChangePassword tok c n) s = forget (ChangePassword pr cx tok c n s)"
| "answer pr cx (ReqResetMFA tok u) s = forget (ResetMFA pr cx tok u s)"
| "answer pr cx (ReqSetUserActive tok u b) s = forget (SetUserActive pr cx tok u b s)"
| "answer pr cx (ReqSetUserRoles tok u r) s = forget (SetUserRoles pr cx tok u r s)"

lemma snd_forget [simp]: "snd (forget x) = snd x"
  by (auto simp: forget_def split: prod.splits sum.splits)

lemma answer_state: "snd (answer pr cx r s) = serve pr cx r s"
  by (cases r) simp_all

lemma forget_Some: "forget x = (Some e, s') \<longleftrightarrow> x = (Inl e, s')"
  by (auto simp: forget_def split: prod.splits sum.splits)

text \<open>What may happen to a state whose request failed.\<close>

definition counts_failure :: "app_state \<Rightarrow> app_state \<Rightarrow> bool" where
  "counts_failure s s' \<longleftrightarrow> s' = s \<or>
     (\<exists>k g t. (\<forall>u. \<exists>n l. g u = u\<lparr>u_failed_logins := n, u_locked_until := l\<rparr>) \<and>
        s' = (upd_user k g s)\<lparr>meta_updated_at := t\<rparr>)"

fun password_check :: "request \<Rightarrow> bool" where
  "password_check (ReqLogin req) = True"
| "password_check (ReqChangePassword tok c n) = True"
| "password_check r = False"

section \<open>Failures\<close>

lemma atomic_update: "StoreUpdateScoped cx fn s = (Inl e, s') \<Longrightarrow> s' = s"
  by (rule StoreUpdateScoped_Inl)

lemma mint_shows_account: "mint pr cx tok req False s = (Inr r, s') \<Longrightarrow> mo_account r \<noteq> None"
  by (auto simp: mint_def Let_def StoreUpdateScoped_Inr split: if_splits sum.splits option.splits prod.splits)

lemma failed_admin:
  "CreateColony pr cx tok name s = (Inl e, s') \<Longrightarrow> s' = s"
  "TrustPeer pr cx tok c p s = (Inl e, s') \<Longrightarrow> s' = s"
  "CreateUser_commit pr cx tok req h s = (Inl e, s') \<Longrightarrow> s' = s"
  "mint pr cx tok mq al s = (Inl e, s') \<Longrightarrow> s' = s"
  "SetPolicy pr cx tok c pq s = (Inl e, s') \<Longrightarrow> s' = s"
  "ProposeForceRefund pr cx tok t s = (Inl e, s') \<Longrightarrow> s' = s"
  "DecideApproval pr cx tok a b s = (Inl e, s') \<Longrightarrow> s' = s"
  by (auto simp: CreateColony_def TrustPeer_def CreateUser_commit_def mint_def SetPolicy_def
      ProposeForceRefund_def DecideApproval_def Let_def dest: atomic_update split: if_splits)

lemma failed_trade:
  "CreateOffer pr cx tok oq s = (Inl e, s') \<Longrightarrow> s' = s"
  "AcceptTrade pr cx tok t s = (Inl e, s') \<Longrightarrow> s' = s"
  "ExportBundle pr cx tok c dest s = (Inl e, s') \<Longrightarrow> s' = s"
  "ImportBundle pr cx tok c b s = (Inl e, s') \<Longrightarrow> s' = s"
  "CancelTrade pr cx tok t s = (Inl e, s') \<Longrightarrow> s' = s"
  "SweepExpired pr cx s = (Inl e, s') \<Longrightarrow> s' = s"
  by (auto simp: CreateOffer_def CreateOffer_update_def AcceptTrade_def AcceptTrade_update_def ExportBundle_def ImportBundle_def CancelTrade_def CancelTrade_update_def SweepExpired_def
      Let_def dest: atomic_update split: if_splits sum.splits)

lemma failed_commit:
  "Bootstrap_commit pr cx un dn h s = (Inl e, s') \<Longrightarrow> s' = s"
  "Login_commit pr cx lr c up s = (Inl e, s') \<Longrightarrow> s' = s"
  "CompleteReset_commit cx u h nh s = (Inl e, s') \<Longrightarrow> s' = s"
  "ChangePassword_commit cx tok h nh s = (Inl e, s') \<Longrightarrow> s' = s"
  by (auto simp: Bootstrap_commit_def Login_commit_def CompleteReset_commit_def ChangePassword_commit_def
      dest: atomic_update)

lemma failed_user:
  "Logout cx tok s = (Inl e, s') \<Longrightarrow> s' = s"
  "EnrollMFA pr cx tok s = (Inl e, s') \<Longrightarrow> s' = s"
  "ConfirmMFA pr cx tok co s = (Inl e, s') \<Longrightarrow> s' = s"
  "IssueResetToken pr cx tok u s = (Inl e, s') \<Longrightarrow> s' = s"
  "ResetMFA pr cx tok u s = (Inl e, s') \<Longrightarrow> s' = s"
  "SetUserActive pr cx tok u b s = (Inl e, s') \<Longrightarrow> s' = s"
  "SetUserRoles pr cx tok u roles s = (Inl e, s') \<Longrightarrow> s' = s"
  by (auto simp: Logout_def EnrollMFA_def ConfirmMFA_def IssueResetToken_def ResetMFA_def SetUserActive_def
      SetUserRoles_def Let_def dest: atomic_update split: if_splits)

lemma failed_compound:
  "CreateUser pr cx tok req s = (Inl e, s') \<Longrightarrow> s' = s"
  "Mint pr cx tok mq s = (Inl e, s') \<Longrightarrow> s' = s"
  "Bootstrap pr cx bq s = (Inl e, s') \<Longrightarrow> s' = s"
  "CompleteReset pr cx tok pw s = (Inl e, s') \<Longrightarrow> s' = s"
  using mint_shows_account [of pr cx tok mq s]
  by (auto simp: CreateUser_def Mint_def Bootstrap_def CompleteReset_def Let_def dest: failed_admin failed_commit
      split: if_splits sum.splits option.splits prod.splits)

lemma counts_failureI:
  "(\<And>u. \<exists>n l. g u = u\<lparr>u_failed_logins := n, u_locked_until := l\<rparr>) \<Longrightarrow>
   counts_failure s ((upd_user k g s)\<lparr>meta_updated_at := t\<rparr>)"
  unfolding counts_failure_def by blast

lemma noteLoginFailure_counts:
  assumes "noteLoginFailure cx u s = (b, s')" shows "counts_failure s s'"
proof -
  let ?lock = "\<lambda>l u. u\<lparr>u_failed_logins := 0, u_locked_until := l\<rparr>" and ?count = "\<lambda>n u. u\<lparr>u_failed_logins := n\<rparr>"
  have g: "\<exists>n l. ?count m v = v\<lparr>u_failed_logins := n, u_locked_until := l\<rparr>" for m and v :: user
    by (intro exI [of _ m] exI [of _ "u_locked_until v"]) simp
  have 1: "counts_failure s ((upd_user u (?lock l) s)\<lparr>meta_updated_at := t\<rparr>)" for l t
    by (rule counts_failureI) blast
  have 2: "counts_failure s ((upd_user u (?count n) s)\<lparr>meta_updated_at := t\<rparr>)" for n t
    by (rule counts_failureI) (rule g)
  have 3: "counts_failure s (s\<lparr>meta_updated_at := t\<rparr>)" if "map_of (st_users s) u = None" for t
    using 2 [of t 0] that by (simp add: upd_user_def map_entry_missing)
  have 4: "counts_failure s s" by (simp add: counts_failure_def)
  from assms 1 2 3 4 show ?thesis
    by (auto simp: noteLoginFailure_def noteLoginFailure_update_def StoreUpdateScoped_Inr Let_def
        dest!: atomic_update split: prod.splits sum.splits option.splits if_splits)
qed

lemma failed_login:
  assumes "Login pr cx req s = (Inl e, s')" shows "counts_failure s s'"
proof -
  have keep: "counts_failure s s" by (simp add: counts_failure_def)
  from assms keep show ?thesis
    by (auto simp: Login_def Login_failed_def Let_def dest: failed_commit noteLoginFailure_counts
        split: if_splits prod.splits sum.splits)
qed

lemma failed_change:
  assumes "ChangePassword pr cx tok cpw npw s = (Inl e, s')" shows "counts_failure s s'"
proof -
  have keep: "counts_failure s s" by (simp add: counts_failure_def)
  from assms keep show ?thesis
    by (auto simp: ChangePassword_def dest: failed_commit noteLoginFailure_counts
        split: if_splits prod.splits sum.splits option.splits)
qed

lemma answer_failure:
  "answer pr cx r s = (Some e, s') \<Longrightarrow> if password_check r then counts_failure s s' else s' = s"
  by (cases r)
    (auto simp: forget_Some MintOrPropose_def dest: failed_admin failed_trade failed_user failed_compound
      failed_login failed_change)

end
