(* ===== verification/Progress.thy ===== *)
theory Progress
  imports System "HOL-Library.Sublist"
begin

text \<open>
  What no request ever undoes.  \<open>progress dual s s'\<close> says that every record of \<open>s\<close> is still there in
  \<open>s'\<close>: a trade with the same terms and a status reached along the transition table; a colony with the
  same identity and keys, a ledger that extends the old one, and all accounts and processed envelopes
  kept; a proposal with the same terms, untouched once it is decided; a user with the same identity.
  With \<open>dual\<close> set it also says that a colony under dual control keeps its supply and its policy.
  Besides, an administrator who can manage the platform stays, no user gets more than ten sessions,
  and every record stays under its own ID.  The relation holds across every request without any
  assumption on the state, identifiers that are new apart, and it composes.
\<close>

text \<open>Every entry of the first map has an entry related to it in the second.\<close>

definition gkept :: "('a \<Rightarrow> 'a \<Rightarrow> bool) \<Rightarrow> 'a gmap \<Rightarrow> 'a gmap \<Rightarrow> bool" where
  "gkept R m m' \<longleftrightarrow> (\<forall>k x. map_of m k = Some x \<longrightarrow> (\<exists>y. map_of m' k = Some y \<and> R x y))"

lemma gkept_refl [simp]: "(\<And>x. R x x) \<Longrightarrow> gkept R m m"
  by (simp add: gkept_def)

lemma gkept_trans:
  "gkept R a b \<Longrightarrow> gkept R b c \<Longrightarrow> (\<And>x y z. R x y \<Longrightarrow> R y z \<Longrightarrow> R x z) \<Longrightarrow> gkept R a c"
  unfolding gkept_def by metis

lemma gkept_map_entry:
  "(\<And>x. R x x) \<Longrightarrow> (\<And>x. map_of m k = Some x \<Longrightarrow> R x (f x)) \<Longrightarrow> gkept R m (AList.map_entry k f m)"
  by (auto simp: gkept_def)

lemma gkept_new: "(\<And>x. R x x) \<Longrightarrow> k \<notin> gkeys m \<Longrightarrow> gkept R m (AList.update k x m)"
  by (auto simp: gkept_def gkeys_iff)

definition terms_of :: "trade \<Rightarrow> string \<times> string \<times> int \<times> string \<times> string \<times> string \<times> string \<times> string \<times> string" where
  "terms_of t = (t_id t, t_asset t, t_price t, t_seller_user_id t, t_buyer_user_id t, t_seller_colony_id t,
     t_buyer_colony_id t, t_created_at t, t_expires_at t)"

definition trade_progress :: "trade \<Rightarrow> trade \<Rightarrow> bool" where
  "trade_progress t t' \<longleftrightarrow> terms_of t' = terms_of t \<and> TransitionAllowed\<^sup>*\<^sup>* (t_status t) (t_status t')"

definition identity_of :: "colony \<Rightarrow> string \<times> string \<times> string \<times> string \<times> string" where
  "identity_of c = (c_id c, c_name c, c_public_key c, c_private_key c, c_created_at c)"

definition colony_progress :: "bool \<Rightarrow> colony \<Rightarrow> colony \<Rightarrow> bool" where
  "colony_progress dual c c' \<longleftrightarrow> identity_of c' = identity_of c \<and> prefix (c_ledger c) (c_ledger c')
     \<and> gkeys (c_accounts c) \<subseteq> gkeys (c_accounts c')
     \<and> (\<forall>e. gget False (c_processed_envelopes c) e \<longrightarrow> gget False (c_processed_envelopes c') e)
     \<and> (dual \<and> c_require_dual_control c \<longrightarrow> c_require_dual_control c' \<and> c_minted_total c' = c_minted_total c
          \<and> c_mint_cap c' = c_mint_cap c)"

definition action_terms :: "pending_action \<Rightarrow> string \<times> string \<times> string \<times> string \<times> string \<times> int \<times> string \<times> string" where
  "action_terms pa = (p_id pa, p_type pa, p_colony_id pa, p_user_id pa, p_trade_id pa, p_amount pa,
     p_proposed_by pa, p_expires_at pa)"

definition action_progress :: "pending_action \<Rightarrow> pending_action \<Rightarrow> bool" where
  "action_progress pa pa' \<longleftrightarrow> action_terms pa' = action_terms pa \<and> (p_status pa \<noteq> ''pending'' \<longrightarrow> pa' = pa)"

definition user_identity :: "user \<Rightarrow> string \<times> string \<times> string \<times> string \<times> string \<times> string" where
  "user_identity u = (u_id u, u_username u, u_colony_id u, u_public_key u, u_private_key u, u_created_at u)"

definition user_progress :: "user \<Rightarrow> user \<Rightarrow> bool" where
  "user_progress u u' \<longleftrightarrow> user_identity u' = user_identity u"

text \<open>An update of a user that changes neither who it is nor what it may do.\<close>

definition steady :: "user \<Rightarrow> user \<Rightarrow> bool" where
  "steady u u' \<longleftrightarrow> user_identity u' = user_identity u \<and> u_roles u' = u_roles u \<and> u_active u' = u_active u"

definition active_admin :: "user \<Rightarrow> bool" where
  "active_admin u \<longleftrightarrow> u_active u \<and> HasRole u ''super_admin''"

definition has_admin :: "app_state \<Rightarrow> bool" where
  "has_admin s \<longleftrightarrow> (\<exists>k u. map_of (st_users s) k = Some u \<and> active_admin u)"

definition ids_ok :: "app_state \<Rightarrow> bool" where
  "ids_ok s \<longleftrightarrow> gmap_ok (st_users s) \<and> (\<forall>k t. map_of (st_trades s) k = Some t \<longrightarrow> t_id t = k)
     \<and> (\<forall>k c. map_of (st_colonies s) k = Some c \<longrightarrow> c_id c = k)
     \<and> (\<forall>k u. map_of (st_users s) k = Some u \<longrightarrow> u_id u = k)
     \<and> (\<forall>k pa. map_of (st_pending_actions s) k = Some pa \<longrightarrow> p_id pa = k)"

definition progress :: "bool \<Rightarrow> app_state \<Rightarrow> app_state \<Rightarrow> bool" where
  "progress dual s s' \<longleftrightarrow>
     gkept trade_progress (st_trades s) (st_trades s') \<and>
     gkept (colony_progress dual) (st_colonies s) (st_colonies s') \<and>
     gkept action_progress (st_pending_actions s) (st_pending_actions s') \<and>
     gkept user_progress (st_users s) (st_users s') \<and>
     (has_admin s \<longrightarrow> has_admin s') \<and> (sessions_ok s \<longrightarrow> sessions_ok s') \<and> (ids_ok s \<longrightarrow> ids_ok s')"

lemma trade_progress_refl [simp]: "trade_progress t t"
  by (simp add: trade_progress_def)

lemma trade_progress_trans: "trade_progress a b \<Longrightarrow> trade_progress b c \<Longrightarrow> trade_progress a c"
  by (auto simp: trade_progress_def)

lemma colony_progress_refl [simp]: "colony_progress d c c"
  by (simp add: colony_progress_def)

lemma colony_progress_trans: "colony_progress d a b \<Longrightarrow> colony_progress d b c \<Longrightarrow> colony_progress d a c"
  by (auto simp: colony_progress_def intro: prefix_order.trans)

lemma action_progress_refl [simp]: "action_progress a a"
  by (simp add: action_progress_def)

lemma action_progress_trans: "action_progress a b \<Longrightarrow> action_progress b c \<Longrightarrow> action_progress a c"
  by (auto simp: action_progress_def)

lemma user_progress_refl [simp]: "user_progress u u"
  by (simp add: user_progress_def)

lemma user_progress_trans: "user_progress a b \<Longrightarrow> user_progress b c \<Longrightarrow> user_progress a c"
  by (auto simp: user_progress_def)

lemma progress_refl [simp]: "progress d s s"
  by (simp add: progress_def)

lemma progress_trans: "progress d a b \<Longrightarrow> progress d b c \<Longrightarrow> progress d a c"
  unfolding progress_def
  by (blast intro: gkept_trans trade_progress_trans colony_progress_trans action_progress_trans user_progress_trans)

lemma same_state_parts [simp]:
  "has_admin (s\<lparr>meta_updated_at := x\<rparr>) = has_admin s" "sessions_ok (s\<lparr>meta_updated_at := x\<rparr>) = sessions_ok s"
  "ids_ok (s\<lparr>meta_updated_at := x\<rparr>) = ids_ok s"
  "has_admin (s\<lparr>st_colonies := cs\<rparr>) = has_admin s" "sessions_ok (s\<lparr>st_colonies := cs\<rparr>) = sessions_ok s"
  "has_admin (s\<lparr>st_trades := ts\<rparr>) = has_admin s" "sessions_ok (s\<lparr>st_trades := ts\<rparr>) = sessions_ok s"
  "has_admin (s\<lparr>st_sessions := ss\<rparr>) = has_admin s" "ids_ok (s\<lparr>st_sessions := ss\<rparr>) = ids_ok s"
  "has_admin (s\<lparr>st_bundles := bs\<rparr>) = has_admin s" "sessions_ok (s\<lparr>st_bundles := bs\<rparr>) = sessions_ok s"
  "ids_ok (s\<lparr>st_bundles := bs\<rparr>) = ids_ok s"
  "has_admin (s\<lparr>st_pending_actions := ps\<rparr>) = has_admin s"
  "sessions_ok (s\<lparr>st_pending_actions := ps\<rparr>) = sessions_ok s"
  "sessions_ok (s\<lparr>st_users := us\<rparr>) = sessions_ok s"
  by (simp_all add: has_admin_def sessions_ok_def ids_ok_def)

lemma progress_later:
  "progress d s (s'\<lparr>meta_updated_at := t\<rparr>) = progress d s s'"
  by (simp add: progress_def)

interpretation prog: state_relation "progress d" for d
  by unfold_locales (simp_all add: progress_later)

section \<open>Updates\<close>

lemma gmap_ok_upd_user [simp]: "gmap_ok (st_users (upd_user k h s)) = gmap_ok (st_users s)"
  by (simp add: upd_user_def)

lemma progress_upd_colony [simp]:
  assumes "progress d s s'" and "\<And>c. map_of (st_colonies s') k = Some c \<Longrightarrow> colony_progress d c (f c)"
  shows "progress d s (upd_colony k f s')"
proof (rule progress_trans [OF assms(1)])
  have "c_id (f c) = c_id c" if "map_of (st_colonies s') k = Some c" for c
    using assms(2) [OF that] by (simp add: colony_progress_def identity_of_def)
  then have "ids_ok s' \<Longrightarrow> ids_ok (upd_colony k f s')" by (auto simp: ids_ok_def)
  moreover have "has_admin (upd_colony k f s') = has_admin s'" "sessions_ok (upd_colony k f s') = sessions_ok s'"
    by (simp_all add: upd_colony_def)
  ultimately show "progress d s' (upd_colony k f s')"
    using assms(2) by (simp add: progress_def) (simp add: upd_colony_def gkept_map_entry)
qed

lemma progress_upd_trade:
  assumes "progress d s s'" and "\<And>t. map_of (st_trades s') k = Some t \<Longrightarrow> trade_progress t (g t)"
  shows "progress d s (upd_trade k g s')"
proof (rule progress_trans [OF assms(1)])
  have "t_id (g t) = t_id t" if "map_of (st_trades s') k = Some t" for t
    using assms(2) [OF that] by (simp add: trade_progress_def terms_of_def)
  then have "ids_ok s' \<Longrightarrow> ids_ok (upd_trade k g s')" by (auto simp: ids_ok_def)
  moreover have "has_admin (upd_trade k g s') = has_admin s'" "sessions_ok (upd_trade k g s') = sessions_ok s'"
    by (simp_all add: upd_trade_def)
  ultimately show "progress d s' (upd_trade k g s')"
    using assms(2) by (simp add: progress_def) (simp add: upd_trade_def gkept_map_entry)
qed

lemma progress_upd_user [simp]:
  assumes "progress d s s'" and "\<And>u. map_of (st_users s') k = Some u \<Longrightarrow> steady u (h u)"
  shows "progress d s (upd_user k h s')"
proof (rule progress_trans [OF assms(1)])
  have kept: "user_identity (h u) = user_identity u" "active_admin (h u) = active_admin u"
    if "map_of (st_users s') k = Some u" for u
    using assms(2) [OF that] by (simp_all add: steady_def active_admin_def HasRole_def)
  then have "u_id (h u) = u_id u" if "map_of (st_users s') k = Some u" for u
    using that by (simp add: user_identity_def)
  then have "ids_ok s' \<Longrightarrow> ids_ok (upd_user k h s')" by (auto simp: ids_ok_def)
  moreover have "has_admin s' \<Longrightarrow> has_admin (upd_user k h s')"
    using kept(2) unfolding has_admin_def by (auto split: if_splits) metis
  moreover have "sessions_ok (upd_user k h s') = sessions_ok s'" by (simp add: upd_user_def)
  ultimately show "progress d s' (upd_user k h s')"
    using kept(1) by (simp add: progress_def) (simp add: upd_user_def gkept_map_entry user_progress_def)
qed

lemma progress_new_user:
  assumes "progress d s s'" and "k \<notin> gkeys (st_users s')" and "u_id u = k"
  shows "progress d s (s'\<lparr>st_users := AList.update k u (st_users s')\<rparr>)"
proof (rule progress_trans [OF assms(1)])
  have "has_admin (s'\<lparr>st_users := AList.update k u (st_users s')\<rparr>)" if admin: "has_admin s'"
  proof -
    from admin obtain i v where v: "map_of (st_users s') i = Some v" "active_admin v" by (auto simp: has_admin_def)
    with assms(2) have "i \<noteq> k" by (auto simp: gkeys_iff)
    with v show ?thesis unfolding has_admin_def by (intro exI [of _ i] exI [of _ v]) simp
  qed
  then show "progress d s' (s'\<lparr>st_users := AList.update k u (st_users s')\<rparr>)"
    using assms(2,3) by (simp add: progress_def gkept_new) (auto simp: ids_ok_def)
qed

lemma progress_new_colony:
  assumes "progress d s s'" and "k \<notin> gkeys (st_colonies s')" and "c_id c = k"
  shows "progress d s (s'\<lparr>st_colonies := AList.update k c (st_colonies s')\<rparr>)"
  by (rule progress_trans [OF assms(1)], use assms(2,3) in \<open>simp add: progress_def gkept_new\<close>) (auto simp: ids_ok_def)

lemma progress_new_trade:
  assumes "progress d s s'" and "k \<notin> gkeys (st_trades s')" and "t_id t = k"
  shows "progress d s (s'\<lparr>st_trades := AList.update k t (st_trades s')\<rparr>)"
  by (rule progress_trans [OF assms(1)], use assms(2,3) in \<open>simp add: progress_def gkept_new\<close>) (auto simp: ids_ok_def)

lemma progress_new_action:
  assumes "progress d s s'" and "k \<notin> gkeys (st_pending_actions s')" and "p_id pa = k"
  shows "progress d s (s'\<lparr>st_pending_actions := AList.update k pa (st_pending_actions s')\<rparr>)"
  by (rule progress_trans [OF assms(1)], use assms(2,3) in \<open>simp add: progress_def gkept_new\<close>) (auto simp: ids_ok_def)

lemma progress_decided:
  assumes "progress d s s'" and "map_of (st_pending_actions s') k = Some pa" and "action_progress pa pa'"
  shows "progress d s (s'\<lparr>st_pending_actions := AList.map_entry k (\<lambda>_. pa') (st_pending_actions s')\<rparr>)"
proof (rule progress_trans [OF assms(1)])
  have "p_id pa' = p_id pa" using assms(3) by (simp add: action_progress_def action_terms_def)
  then show "progress d s' (s'\<lparr>st_pending_actions := AList.map_entry k (\<lambda>_. pa') (st_pending_actions s')\<rparr>)"
    using assms(2,3) by (auto simp: progress_def ids_ok_def intro!: gkept_map_entry)
qed

lemma progress_fewer_sessions [simp]:
  assumes "progress d s s'" and "sessions_ok s' \<Longrightarrow> sessions_ok (s'\<lparr>st_sessions := ss\<rparr>)"
  shows "progress d s (s'\<lparr>st_sessions := ss\<rparr>)"
  using assms by (auto simp: progress_def)

lemma sessions_ok_filter:
  "sessions_ok s \<Longrightarrow> sessions_ok (s\<lparr>st_sessions := filter P (st_sessions s)\<rparr>)"
  unfolding sessions_ok_def by (auto intro: gall_filter order_trans [OF sessions_of_filter])

lemma progress_dropSessions [simp]: "progress d s s' \<Longrightarrow> progress d s (dropSessions u tok s')"
  by (simp add: dropSessions_def sessions_ok_filter)

lemma progress_bundles [simp]: "progress d s (s'\<lparr>st_bundles := bs\<rparr>) = progress d s s'"
  by (simp add: progress_def)

lemma colony_progress_updates [simp]:
  "colony_progress d c (appendLedger pr cx ty ac pl c)"
  "colony_progress d c (push_outbox e c)"
  "colony_progress d c (upd_account u f c)"
  "colony_progress d c (c\<lparr>c_net_claims := x\<rparr>)"
  "colony_progress d c (c\<lparr>c_net_obligations := x\<rparr>)"
  "colony_progress d c (c\<lparr>c_outbox := ob\<rparr>)"
  "colony_progress d c (c\<lparr>c_trusted_colonies := tr\<rparr>)"
  "colony_progress d c (c\<lparr>c_accounts := AList.update u a (c_accounts c)\<rparr>)"
  "colony_progress d c (c\<lparr>c_processed_envelopes := AList.update e' True (c_processed_envelopes c)\<rparr>)"
  by (auto simp: colony_progress_def identity_of_def push_outbox_def upd_account_def gget_def
      appendLedger_def Let_def)

lemma colony_progress_supply:
  "(d \<Longrightarrow> \<not> c_require_dual_control c) \<Longrightarrow> colony_progress d c (c\<lparr>c_minted_total := i\<rparr>)"
  "(d \<Longrightarrow> \<not> c_require_dual_control c) \<Longrightarrow> colony_progress d c (c\<lparr>c_mint_cap := i\<rparr>)"
  "(d \<Longrightarrow> \<not> c_require_dual_control c) \<Longrightarrow> colony_progress d c (c\<lparr>c_require_dual_control := b\<rparr>)"
  by (auto simp: colony_progress_def identity_of_def)

lemma trade_progress_updates [simp]:
  "trade_progress t (t\<lparr>t_cancel_envelope_id := x\<rparr>)"
  "trade_progress t (t\<lparr>t_acceptance_envelope_id := x\<rparr>)"
  "trade_progress t (t\<lparr>t_refund_envelope_id := x\<rparr>)"
  "trade_progress t (t\<lparr>t_refunded_at := x\<rparr>)"
  "trade_progress t (t\<lparr>t_settlement_envelope_id := x\<rparr>)"
  "trade_progress t (t\<lparr>t_accepted_at := x, t_buyer_signature := y, t_acceptance_envelope_id := z\<rparr>)"
  "trade_progress t (t\<lparr>t_accepted_at := x, t_acceptance_envelope_id := y, t_buyer_signature := z, t_settled_at := w\<rparr>)"
  by (simp_all add: trade_progress_def terms_of_def)

lemma progress_trade_simps [simp]:
  "progress d s s' \<Longrightarrow> (\<And>t. trade_progress t (g t)) \<Longrightarrow> progress d s (upd_trade k g s')"
  by (simp add: progress_upd_trade)

lemma advance_at_progress:
  assumes "advance_at tk to s' = Inr s''" and "progress d s s'"
  shows "progress d s s''"
proof (cases "map_of (st_trades s') tk")
  case None
  then have "upd_trade tk g s' = s'" for g by (simp add: upd_trade_def map_entry_missing)
  with advance_at_frame [OF assms(1)] assms(2) show ?thesis by auto
next
  case (Some t)
  from advance_at_Inr [OF assms(1) Some] have a: "TransitionAllowed (t_status t) to"
    and s'': "s'' = upd_trade tk (\<lambda>_. t\<lparr>t_status := to\<rparr>) s'" by simp_all
  then have "trade_progress t (t\<lparr>t_status := to\<rparr>)" by (auto simp: trade_progress_def terms_of_def)
  with Some s'' assms(2) show ?thesis by (auto intro: progress_upd_trade)
qed

lemma step_trade_progress:
  "StepTrade t pred to = Inr (True, t') \<Longrightarrow> trade_progress t t'"
  by (drule StepTrade_Inr) (auto simp: trade_progress_def terms_of_def)

text \<open>A path along the table, said with the code's own search.\<close>

lemma trade_path:
  assumes "TransitionAllowed\<^sup>*\<^sup>* a b"
  shows "(b = a \<or> Reachable a b) \<and> \<not> Reachable b a \<and> (TradeTransitions a = [] \<longrightarrow> b = a)"
proof -
  have fwd: "b = a \<or> Reachable a b" using rtranclpD [OF assms] by (auto simp: Reachable_iff)
  then have no_way_back: "\<not> Reachable b a"
    using reachable_rank [of a b] reachable_rank [of b a] by auto
  have stop: "b = a" if "TradeTransitions a = []"
    using assms by (cases rule: converse_rtranclpE) (use that in \<open>simp_all add: TransitionAllowed_iff\<close>)
  from fwd no_way_back stop show ?thesis by blast
qed

section \<open>Functions on envelopes\<close>

lemma decideRefund_progress:
  "decideRefund pr cx draw source target tk trigger reason s = (x, s') \<Longrightarrow> progress d s s'"
  by (auto simp: decideRefund_def Let_def dest!: advance_at_progress [where d = d, OF _ progress_refl] split: sum.splits if_splits)

lemma applyRefund_progress:
  "applyRefund pr cx tk actorID typ extra s = (x, s') \<Longrightarrow> progress d s s'"
  by (auto simp: applyRefund_def Let_def dest!: advance_at_progress [where d = d, OF _ progress_refl]
      split: sum.splits if_splits option.splits)

lemma creditAcceptance_progress:
  "creditAcceptance pr cx draw source target tk env payload seller acc s = (x, s') \<Longrightarrow> progress d s s'"
  by (auto simp: creditAcceptance_def Let_def dest!: advance_at_progress [where d = d, OF _ progress_refl]
      split: sum.splits if_splits option.splits)

lemma progress_put_trade:
  "map_of (st_trades s) tk = Some t \<Longrightarrow> trade_progress t t' \<Longrightarrow> progress d s (upd_trade tk (\<lambda>_. t') s)"
  by (auto intro: progress_upd_trade)

lemma step_trade_later:
  "StepTrade t pred to = Inr (True, t') \<Longrightarrow> trade_progress t (t'\<lparr>t_offer_envelope_id := x, t_seller_signature := y\<rparr>)"
  "StepTrade t pred to = Inr (True, t') \<Longrightarrow>
   trade_progress t (t'\<lparr>t_settled_at := x, t_completed_at := y, t_settlement_envelope_id := z\<rparr>)"
  by (drule step_trade_progress, simp add: trade_progress_def terms_of_def)+

lemma importOffer_progress: "importOffer pr cx source target env s = (x, s') \<Longrightarrow> progress d s s'"
  by (auto simp: importOffer_def Let_def map_of_None_gkeys
      intro!: progress_upd_colony progress_new_trade progress_put_trade intro: step_trade_later
      split: option.splits if_splits sum.splits go_error.splits prod.splits)

lemma importAcceptance_progress: "importAcceptance pr cx draw source target env s = (x, s') \<Longrightarrow> progress d s s'"
  by (auto simp: importAcceptance_def Let_def dest: decideRefund_progress [where d = d] creditAcceptance_progress [where d = d]
      split: option.splits if_splits sum.splits go_error.splits bool.splits)

lemma importSettlement_progress: "importSettlement pr cx source target env s = (x, s') \<Longrightarrow> progress d s s'"
  by (auto simp: importSettlement_def Let_def
      intro!: progress_upd_colony progress_put_trade intro: step_trade_later
      split: option.splits if_splits sum.splits prod.splits)

lemma importEnvelope_progress:
  assumes "importEnvelope pr cx draw source target env s = (x, s')"
  shows "progress d s s'"
proof -
  have cancel: "importCancel pr cx draw source target env s = (x, s') \<Longrightarrow> progress d s s'"
    by (auto simp: importCancel_def Let_def dest: decideRefund_progress [where d = d]
        split: option.splits if_splits go_error.splits stepKind.splits)
  have refund: "importRefund pr cx source target env s = (x, s') \<Longrightarrow> progress d s s'"
    by (auto simp: importRefund_def Let_def dest: applyRefund_progress [where d = d]
        split: option.splits if_splits stepKind.splits prod.splits sum.splits)
  from assms show ?thesis
    by (auto simp: importEnvelope_def split: if_splits
        dest: importOffer_progress [where d = d] importAcceptance_progress [where d = d] importSettlement_progress [where d = d] cancel refund)
qed

lemma import_messages_progress:
  "import_messages pr cx i source target msgs res s = (Inr r, s') \<Longrightarrow> progress d s s'"
proof (induction msgs arbitrary: i res s)
  case Nil
  then show ?case by simp
next
  case (Cons m msgs)
  show ?case
  proof (cases m)
    case None
    with Cons show ?thesis by (simp only: import_messages_None)
  next
    case (Some env)
    from Cons.prems [unfolded Some] show ?thesis
    proof (cases rule: import_messages_round)
      case skip
      with Cons show ?thesis by blast
    next
      case (step tk applied s1 res')
      have "progress d s (mark_processed target (e_id env) s1)"
        using importEnvelope_progress [OF step(5)] by simp
      with Cons.IH [OF step(7)] show ?thesis by (rule progress_trans [rotated])
    qed
  qed
qed

section \<open>Requests\<close>

lemma map_of_colony_at: "map_of (st_colonies s) k = Some c \<Longrightarrow> colony_at s k = c"
  by (simp add: colony_at_def gget_def)

lemma applyMint_progress:
  "applyMint pr cx ck u amt ac ap s = (x, s') \<Longrightarrow> (d \<Longrightarrow> \<not> c_require_dual_control (colony_at s ck)) \<Longrightarrow> progress d s s'"
  by (auto simp: applyMint_def Let_def map_of_colony_at intro!: progress_upd_colony colony_progress_supply
      split: option.splits sum.splits if_splits)

lemma applyPolicy_progress:
  "applyPolicy pr cx ck req ac ap s = (x, s') \<Longrightarrow> (d \<Longrightarrow> \<not> c_require_dual_control (colony_at s ck)) \<Longrightarrow> progress d s s'"
  by (auto simp: applyPolicy_def Let_def map_of_colony_at intro!: progress_upd_colony colony_progress_supply
      split: option.splits)

lemma progress_put_action:
  assumes "fresh_ids cx s" and "NewID cx i ''act'' = Inr k" and "p_id pa = k"
  shows "progress d s (put_action k pa s)"
  using progress_new_action [of d s s k pa] assms by (auto simp: put_action_def fresh_ids_def)

lemma executeAction_progress: "executeAction pr cx ck pa actor s = (x, s') \<Longrightarrow> progress False s s'"
  by (auto simp: executeAction_def dest!: applyMint_progress [where d = False] applyPolicy_progress [where d = False]
      applyRefund_progress [where d = False] split: if_splits prod.splits sum.splits option.splits)

lemma sweep_progress: "sweep pr cx tks n s = (x, s') \<Longrightarrow> progress d s s'"
proof (induction tks arbitrary: n s)
  case (Cons tk tks)
  show ?case
  proof (cases "due cx (trade_at s tk)")
    case False
    with Cons show ?thesis by (auto simp: Let_def)
  next
    case True
    show ?thesis
    proof (cases "advance_at tk StatusExpired s")
      case (Inl e)
      with Cons.prems True show ?thesis by (simp add: Let_def)
    next
      case (Inr s1)
      let ?s2 = "\<lambda>pl. upd_colony (t_seller_colony_id (trade_at s tk)) (appendLedger pr cx ''trade_offer_expired'' [] pl) s1"
      from Cons.prems True Inr obtain pl where rest: "sweep pr cx tks (n + 1) (?s2 pl) = (x, s')"
        by (auto simp: Let_def)
      have "progress d s (?s2 pl)" using advance_at_progress [OF Inr progress_refl] by simp
      then show ?thesis using Cons.IH [OF rest] by (rule progress_trans)
    qed
  qed
qed simp

lemma trade_requests_progress:
  "progress d s (snd (AcceptTrade pr cx tok tk s))"
  "progress d s (snd (ExportBundle pr cx tok c dest s))"
  "progress d s (snd (ImportBundle pr cx tok c b s))"
  "progress d s (snd (CancelTrade pr cx tok tk s))"
  "progress d s (snd (SweepExpired pr cx s))"
proof -
  have acc: "progress d s (accepted_state pr cx ac k t b a e i g s)" if "map_of (st_trades s) k = Some t"
    "t_status t = StatusOfferReceived" for ac k t b a e i g
  proof -
    have "TransitionAllowed StatusOfferReceived StatusAcceptancePendingExport" by code_simp
    with that have "trade_progress t (t\<lparr>t_status := StatusAcceptancePendingExport\<rparr>)"
      by (auto simp: trade_progress_def terms_of_def)
    with that(1) show ?thesis
      by (auto simp: accepted_state_def Let_def intro!: progress_upd_colony progress_trade_simps progress_upd_trade)
  qed
  show "progress d s (snd (AcceptTrade pr cx tok tk s))"
  proof (cases "AcceptTrade pr cx tok tk s")
    case (Pair r s')
    show ?thesis
    proof (cases r)
      case (Inl e)
      with Pair have "s' = s" by (auto simp: AcceptTrade_def AcceptTrade_update_def dest: StoreUpdateScoped_Inl)
      with Pair show ?thesis by simp
    next
      case (Inr v)
      with AcceptTrade_Inr Pair acc show ?thesis by (fastforce simp: prog.sees_through_updated_at)
    qed
  qed
  show "progress d s (snd (ExportBundle pr cx tok c dest s))"
    by (auto simp: ExportBundle_def Let_def intro!: prog.store_update split: if_splits sum.splits option.splits)
  show "progress d s (snd (ImportBundle pr cx tok c b s))"
    by (auto simp: ImportBundle_def Let_def intro!: prog.store_update dest!: import_messages_progress [where d = d]
        split: if_splits option.splits sum.splits prod.splits)
  show "progress d s (snd (CancelTrade pr cx tok tk s))"
    by (auto simp: CancelTrade_def CancelTrade_update_def Let_def intro!: prog.store_update dest!: advance_at_progress [where d = d, OF _ progress_refl]
        split: if_splits sum.splits option.splits)
  show "progress d s (snd (SweepExpired pr cx s))"
    by (auto simp: SweepExpired_def Let_def intro!: prog.store_update dest!: sweep_progress [where d = d])
qed

lemma CreateOffer_progress:
  assumes "fresh_ids cx s" shows "progress d s (snd (CreateOffer pr cx tok req s))"
proof -
  have new: "progress d s (upd_colony k (push_outbox e) s\<lparr>st_trades := AList.update x t (st_trades s)\<rparr>)"
    if "NewID cx 0 ''trd'' = Inr x" "t_id t = x" for k e x t
    using progress_new_trade [of d s "upd_colony k (push_outbox e) s" x t] that assms by (simp add: fresh_ids_def)
  show ?thesis
    by (auto simp: CreateOffer_def CreateOffer_update_def Let_def intro!: prog.store_update progress_upd_colony new
        split: if_splits sum.splits option.splits prod.splits)
qed

lemma CreateUser_commit_progress:
  assumes "fresh_ids cx s" shows "progress d s (snd (CreateUser_commit pr cx tok cu h s))"
proof -
  have new: "progress d s (s\<lparr>st_users := AList.update (u_id u) u (st_users s)\<rparr>)"
    if "newUser pr cx a b h' e f = Inr u" for a b h' e f u
    using progress_new_user [OF progress_refl, of "u_id u" s u d] newUser_id [OF that] assms
    by (simp add: fresh_ids_def)
  show ?thesis
    by (auto simp: CreateUser_commit_def Let_def intro!: prog.store_update progress_upd_colony new
        split: if_splits sum.splits option.splits)
qed

lemma proposals_progress:
  assumes "fresh_ids cx s"
  shows "progress d s (snd (mint pr cx tok mr al s))"
    and "progress d s (snd (SetPolicy pr cx tok c pq s))"
    and "progress d s (snd (ProposeForceRefund pr cx tok tk s))"
proof -
  note put = progress_put_action [OF assms]
  show "progress d s (snd (mint pr cx tok mr al s))"
    by (auto simp: mint_def Let_def map_of_colony_at intro!: prog.store_update progress_upd_colony put
        dest!: newPendingAction_Inr elim!: applyMint_progress split: if_splits sum.splits option.splits prod.splits)
  show "progress d s (snd (SetPolicy pr cx tok c pq s))"
    by (auto simp: SetPolicy_def Let_def map_of_colony_at intro!: prog.store_update progress_upd_colony put
        dest!: newPendingAction_Inr elim!: applyPolicy_progress split: if_splits sum.splits option.splits prod.splits)
  show "progress d s (snd (ProposeForceRefund pr cx tok tk s))"
    by (auto simp: ProposeForceRefund_def Let_def intro!: prog.store_update progress_upd_colony put
        dest!: newPendingAction_Inr split: if_splits sum.splits option.splits prod.splits)
qed

lemma DecideApproval_progress: "progress False s (snd (DecideApproval pr cx tok a b s))"
proof -
  have approved: "progress False s (s'\<lparr>st_pending_actions := AList.map_entry k (\<lambda>_. pa') (st_pending_actions s')\<rparr>)"
    if "executeAction pr cx ck pa actor s = (Inr r, s')" "map_of (st_pending_actions s) k = Some pa"
      "action_progress pa pa'" for ck pa actor r s' k pa'
    using progress_decided [OF executeAction_progress [OF that(1)], of k pa pa'] that(2,3)
      executeAction_actions [OF that(1)] by simp
  have rejected: "progress False s (s1\<lparr>st_pending_actions := AList.map_entry k (\<lambda>_. pa') (st_pending_actions s)\<rparr>)"
    if "map_of (st_pending_actions s) k = Some pa" "action_progress pa pa'"
      "s1 = upd_colony ck (appendLedger pr cx ty ac pl) s" for s1 ck ty ac pl k pa pa'
    using progress_decided [of False s s1 k pa pa'] that by simp
  show ?thesis
    by (auto simp: DecideApproval_def Let_def action_progress_def action_terms_def
        intro!: prog.store_update approved rejected split: if_splits sum.splits option.splits prod.splits)
qed

lemma admin_requests_progress:
  "fresh_ids cx s \<Longrightarrow> progress d s (snd (CreateColony pr cx tok name s))"
  "progress d s (snd (TrustPeer pr cx tok c p s))"
proof -
  have new: "progress d s (s\<lparr>st_colonies := AList.update k c (st_colonies s)\<rparr>)"
    if "fresh_ids cx s" "NewID cx 0 ''col'' = Inr k" "c_id c = k" for k c
    using progress_new_colony [OF progress_refl, of k s c d] that by (simp add: fresh_ids_def)
  show "fresh_ids cx s \<Longrightarrow> progress d s (snd (CreateColony pr cx tok name s))"
    by (auto simp: CreateColony_def Let_def intro!: prog.store_update progress_upd_colony new
        split: if_splits sum.splits)
  show "progress d s (snd (TrustPeer pr cx tok c p s))"
    by (auto simp: TrustPeer_def Let_def intro!: prog.store_update split: if_splits sum.splits option.splits)
qed

section \<open>Users and sessions\<close>

lemma steady_updates [simp]:
  "steady u u"
  "steady u (u\<lparr>u_failed_logins := n\<rparr>)"
  "steady u (u\<lparr>u_failed_logins := n, u_locked_until := l\<rparr>)"
  "steady u (u\<lparr>u_mfa_pending_secret := x\<rparr>)"
  "steady u (u\<lparr>u_mfa_secret := x, u_mfa_pending_secret := y, u_mfa_enabled := b, u_mfa_last_step := i\<rparr>)"
  "steady u (u\<lparr>u_mfa_enabled := b, u_mfa_secret := x, u_mfa_pending_secret := y, u_mfa_last_step := i\<rparr>)"
  "steady u (u\<lparr>u_mfa_last_step := i, u_password_hash := h, u_password_salt := x, u_failed_logins := n, u_locked_until := l\<rparr>)"
  "steady u (u\<lparr>u_password_hash := h, u_password_salt := x, u_failed_logins := n, u_locked_until := l\<rparr>)"
  "steady u (u\<lparr>u_mfa_last_step := i, u_failed_logins := n, u_locked_until := l\<rparr>)"
  "steady u (u\<lparr>u_reset_token_hash := h, u_reset_expires_at := x\<rparr>)"
  "steady u (u\<lparr>u_password_hash := h, u_password_salt := x, u_password_changed_at := y\<rparr>)"
  "steady u (u\<lparr>u_password_hash := h, u_password_salt := x, u_reset_token_hash := a, u_reset_expires_at := b',
     u_failed_logins := n, u_locked_until := l, u_password_changed_at := y\<rparr>)"
  by (simp_all add: steady_def user_identity_def)

lemma createSession_progress:
  assumes "createSessionForUser pr cx dr u s' = (x, s'')" and "progress d s s'"
  shows "progress d s s''"
proof -
  from assms(1) have fr: "st_trades s'' = st_trades s'" "st_colonies s'' = st_colonies s'"
    "st_pending_actions s'' = st_pending_actions s'" "st_users s'' = st_users s'"
    by (auto simp: createSessionForUser_def Let_def split: sum.splits)
  have "has_admin s'' = has_admin s'" "ids_ok s'' = ids_ok s'" by (simp_all add: has_admin_def ids_ok_def fr)
  with assms(2) createSession_sessions [OF assms(1)] show ?thesis by (simp add: progress_def fr)
qed

text \<open>
  An administrator acts on another user, never on itself; who acts on a super admin is one and stays
  one, so the platform is never left without.
\<close>

lemma progress_administer:
  assumes "actorFromToken pr cx s tok = Inr (ak, actor)" and t: "map_of (st_users s) tk = Some target"
    and au: "authorizeUserAdmin actor (Some target) = None" and same: "user_identity target' = user_identity target"
  shows "progress d s (upd_user tk (\<lambda>_. target') s)"
proof -
  have a: "map_of (st_users s) ak = Some actor" "u_active actor"
    using actorFromToken_user [OF assms(1)] by simp_all
  from au have other: "u_id actor \<noteq> u_id target" and super: "HasRole target ''super_admin'' \<Longrightarrow> HasRole actor ''super_admin''"
    by (auto simp: authorizeUserAdmin_def split: if_splits)
  have "ak \<noteq> tk" using a(1) t other by auto
  have "has_admin (upd_user tk (\<lambda>_. target') s)" if admin: "has_admin s"
  proof -
    from admin obtain k u where u: "map_of (st_users s) k = Some u" "active_admin u" by (auto simp: has_admin_def)
    show ?thesis
    proof (cases "k = tk")
      case True
      with u t super a(2) have "active_admin actor" by (simp add: active_admin_def)
      with a(1) \<open>ak \<noteq> tk\<close> show ?thesis unfolding has_admin_def by (intro exI [of _ ak] exI [of _ actor]) simp
    next
      case False
      with u show ?thesis unfolding has_admin_def by (intro exI [of _ k] exI [of _ u]) simp
    qed
  qed
  moreover have "ids_ok s \<Longrightarrow> ids_ok (upd_user tk (\<lambda>_. target') s)"
    using t same by (auto simp: ids_ok_def user_identity_def)
  moreover have "sessions_ok (upd_user tk (\<lambda>_. target') s) = sessions_ok s" by (simp add: upd_user_def)
  ultimately show ?thesis
    using t same by (simp add: progress_def) (auto simp: upd_user_def user_progress_def intro!: gkept_map_entry)
qed

lemma late_requests_progress:
  "progress d s (snd (Bootstrap_commit pr cx un dn h s))"
  "progress d s (snd (Login_commit pr cx lr c up s))"
  "progress d s (snd (noteLoginFailure_update cx u s))"
  "progress d s (snd (noteLoginFailure cx u s))"
  "progress d s (snd (CompleteReset_commit cx u h nh s))"
  "progress d s (snd (ChangePassword_commit cx tok h nh s))"
proof -
  have first: "progress d s (s\<lparr>st_users := [(u_id u, u)]\<rparr>)" if "st_users s = []" for u
    using progress_new_user [OF progress_refl, of "u_id u" s u d] that by simp
  show "progress d s (snd (Bootstrap_commit pr cx un dn h s))"
    by (auto simp: Bootstrap_commit_def intro!: prog.store_update first elim!: createSession_progress
        split: if_splits sum.splits)
  show "progress d s (snd (Login_commit pr cx lr c up s))"
    by (auto simp: Login_commit_def Let_def intro!: prog.store_update progress_upd_user elim!: createSession_progress
        split: option.splits if_splits)
  show "progress d s (snd (noteLoginFailure_update cx u s))"
    by (auto simp: noteLoginFailure_update_def Let_def intro!: prog.store_update split: option.splits if_splits)
  then show "progress d s (snd (noteLoginFailure cx u s))" by (simp add: noteLoginFailure_state)
  show "progress d s (snd (CompleteReset_commit cx u h nh s))"
    by (auto simp: CompleteReset_commit_def intro!: prog.store_update split: if_splits)
  show "progress d s (snd (ChangePassword_commit cx tok h nh s))"
    by (auto simp: ChangePassword_commit_def intro!: prog.store_update split: if_splits sum.splits)
qed

lemma noteLoginFailure_progress: "noteLoginFailure cx u s = (b, s') \<Longrightarrow> progress d s s'"
  using late_requests_progress(4) [of d s cx u] by simp

lemma actor_lookup: "actorFromTokenNoMFA cx s tok = Inr (k, u) \<Longrightarrow> map_of (st_users s) k = Some u"
  by (simp add: actorFromTokenNoMFA_Inr)

lemma user_requests_progress:
  "progress d s (snd (Bootstrap pr cx br s))"
  "progress d s (snd (Login pr cx lr s))"
  "progress d s (snd (Logout cx tok s))"
  "progress d s (snd (EnrollMFA pr cx tok s))"
  "progress d s (snd (ConfirmMFA pr cx tok co s))"
  "progress d s (snd (IssueResetToken pr cx tok u s))"
  "progress d s (snd (CompleteReset pr cx tok pw s))"
  "progress d s (snd (ChangePassword pr cx tok pw npw s))"
  "progress d s (snd (ResetMFA pr cx tok u s))"
  "progress d s (snd (SetUserActive pr cx tok u b s))"
  "progress d s (snd (SetUserRoles pr cx tok u roles s))"
proof -
  show "progress d s (snd (Bootstrap pr cx br s))"
    by (auto simp: Bootstrap_def Let_def intro: late_requests_progress split: sum.splits)
  show "progress d s (snd (Login pr cx lr s))"
    by (auto simp: Login_def Login_failed_def Let_def intro: late_requests_progress noteLoginFailure_progress
        split: prod.splits sum.splits)
  show "progress d s (snd (Logout cx tok s))"
    by (auto simp: Logout_def delete_filter sessions_ok_filter intro!: prog.store_update)
  show "progress d s (snd (EnrollMFA pr cx tok s))"
    by (auto simp: EnrollMFA_def intro!: prog.store_update split: sum.splits if_splits)
  show "progress d s (snd (ConfirmMFA pr cx tok co s))"
    by (auto simp: ConfirmMFA_def Let_def dest!: actor_lookup intro!: prog.store_update progress_upd_user
        split: sum.splits if_splits)
  show "progress d s (snd (IssueResetToken pr cx tok u s))"
    by (auto simp: IssueResetToken_def Let_def intro!: prog.store_update dest!: with_target_Inr split: sum.splits)
  show "progress d s (snd (CompleteReset pr cx tok pw s))"
    by (auto simp: CompleteReset_def intro: late_requests_progress split: option.splits sum.splits)
  show "progress d s (snd (ChangePassword pr cx tok pw npw s))"
    by (auto simp: ChangePassword_def intro: late_requests_progress noteLoginFailure_progress
        split: option.splits sum.splits prod.splits)
  show "progress d s (snd (ResetMFA pr cx tok u s))"
    by (auto simp: ResetMFA_def Let_def intro!: prog.store_update progress_upd_user progress_dropSessions
        dest!: with_target_Inr)
  show "progress d s (snd (SetUserActive pr cx tok u b s))"
    by (auto simp: SetUserActive_def Let_def user_identity_def
        intro!: prog.store_update progress_upd_colony progress_dropSessions dest!: with_target_Inr
        elim!: progress_administer split: if_splits)
  show "progress d s (snd (SetUserRoles pr cx tok u roles s))"
    by (auto simp: SetUserRoles_def Let_def user_identity_def intro!: prog.store_update progress_upd_colony
        dest!: with_target_Inr elim!: progress_administer split: if_splits)
qed

section \<open>Any request\<close>

lemma CreateUser_progress: "fresh_ids cx s \<Longrightarrow> progress d s (snd (CreateUser pr cx tok req s))"
  by (auto simp: CreateUser_def intro: CreateUser_commit_progress split: sum.splits)

lemma Mint_progress: "fresh_ids cx s \<Longrightarrow> progress d s (snd (Mint pr cx tok req s))"
  using proposals_progress(1) [of cx s d pr tok req False]
  by (auto simp: Mint_def split: prod.splits sum.splits option.splits)

lemmas all_requests_progress = trade_requests_progress CreateOffer_progress admin_requests_progress
  CreateUser_commit_progress CreateUser_progress proposals_progress Mint_progress
  user_requests_progress late_requests_progress

fun decision :: "request \<Rightarrow> bool" where
  "decision (ReqDecideApproval tok a b) = True"
| "decision r = False"

lemma serve_progress_other: "fresh_ids cx s \<Longrightarrow> \<not> decision r \<Longrightarrow> progress d s (serve pr cx r s)"
  by (cases r) (simp_all add: all_requests_progress MintOrPropose_def)

lemma serve_progress:
  assumes "fresh_ids cx s" shows "progress False s (serve pr cx r s)"
  using DecideApproval_progress serve_progress_other [OF assms]
  by (cases "decision r") (auto elim!: decision.elims)

lemma step_progress: "step pr s s' \<Longrightarrow> progress False s s'"
  by (induction rule: step.induct) (simp_all add: serve_progress all_requests_progress)

lemma steps_progress: "(step pr)\<^sup>*\<^sup>* s s' \<Longrightarrow> progress False s s'"
  by (induction rule: rtranclp_induct) (auto intro: step_progress progress_trans)

section \<open>From the start\<close>

lemma newEmptyState_parts: "sessions_ok (newEmptyState cx)" "ids_ok (newEmptyState cx)"
  by (simp_all add: sessions_ok_def ids_ok_def newEmptyState_def sessions_of_def)

lemma reachable_parts: "reachable pr s \<Longrightarrow> sessions_ok s \<and> ids_ok s"
proof (induction rule: reachable.induct)
  case (next_step s s')
  with step_progress [OF next_step(2)] show ?case by (simp add: progress_def)
qed (simp add: newEmptyState_parts)

lemma steps_admin: "(step pr)\<^sup>*\<^sup>* s s' \<Longrightarrow> has_admin s \<Longrightarrow> has_admin s'"
  using steps_progress by (auto simp: progress_def)

text \<open>What a successful decision has checked and done.\<close>

lemma DecideApproval_Inr:
  assumes "DecideApproval pr cx token k approve s = (Inr v, s')"
  shows "\<exists>ak actor pa exp pa'. actorFromToken pr cx s token = Inr (ak, actor)
    \<and> map_of (st_pending_actions s) k = Some pa \<and> p_status pa = ''pending'' \<and> u_id actor \<noteq> p_proposed_by pa
    \<and> canManageColony actor (p_colony_id pa) \<and> parse_rfc3339 (p_expires_at pa) = Some exp \<and> now cx \<le> exp
    \<and> map_of (st_pending_actions s') k = Some pa' \<and> v = pa' \<and> p_decided_by pa' = u_id actor
    \<and> p_status pa' = (if approve then ''approved'' else ''rejected'') \<and> action_terms pa' = action_terms pa
    \<and> (\<not> approve \<longrightarrow> (\<forall>i c. map_of (st_colonies s) i = Some c \<longrightarrow> (\<exists>c'. map_of (st_colonies s') i = Some c'
         \<and> c_accounts c' = c_accounts c \<and> c_minted_total c' = c_minted_total c)) \<and> st_trades s' = st_trades s)"
proof -
  have quiet: "\<exists>c'. map_of (st_colonies (upd_colony ck (appendLedger pr cx ty ac pl) s)) i = Some c'
      \<and> c_accounts c' = c_accounts c \<and> c_minted_total c' = c_minted_total c"
    if "map_of (st_colonies s) i = Some c" for ck ty ac pl i c
    using that by (cases "i = ck") auto
  from assms show ?thesis
    unfolding DecideApproval_def StoreUpdateScoped_Inr
    by (elim exE conjE)
      (auto simp: Let_def action_terms_def quiet not_less dest!: executeAction_actions
        split: if_splits sum.splits option.splits prod.splits)
qed


end
