(* ===== verification/Protection.thy ===== *)
theory Protection
  imports Progress
begin

text \<open>
  What protects an account: the lock after repeated failures, the checks behind a successful login and
  the session it opens, and the one-time reset token.
\<close>

section \<open>Looking a user up\<close>

lemma findUserByUsername_lookup:
  assumes "ids_ok s" and "findUserByUsername s name = Some u"
  shows "map_of (st_users s) (u_id u) = Some u"
proof -
  from assms(2) obtain k where "find (\<lambda>(k, u). equal_fold (u_username u) name) (st_users s) = Some (k, u)"
    by (auto simp: findUserByUsername_def)
  then have "(k, u) \<in> set (st_users s)" by (auto simp: find_Some_iff in_set_conv_nth)
  then have k: "map_of (st_users s) k = Some u" using assms(1) by (simp add: ids_ok_def in_set_map_of)
  with assms(1) have "u_id u = k" by (simp add: ids_ok_def)
  with k show ?thesis by simp
qed

lemma Login_lookup_user:
  "findUserByUsername s name = Some u \<Longrightarrow> u_active u \<Longrightarrow>
   Login_lookup cx name s = \<lparr>cr_id = u_id u, cr_salt = u_password_salt u, cr_hash = u_password_hash u,
     cr_secret = u_mfa_secret u, cr_last_step = u_mfa_last_step u, cr_ok = True, cr_locked = IsLocked cx u,
     cr_mfa = u_mfa_enabled u\<rparr>"
  by (simp add: Login_lookup_def)

lemma Login_lookup_ok:
  "cr_ok (Login_lookup cx name s) \<Longrightarrow> \<exists>u. findUserByUsername s name = Some u \<and> u_active u"
  by (auto simp: Login_lookup_def zero_cred_def split: option.splits if_splits)

section \<open>The lock\<close>

lemma locked_login:
  assumes "findUserByUsername s (NormalizeUsername (lr_username req)) = Some u" and "IsLocked cx u"
  shows "\<exists>e. Login pr cx req s = (Inl e, s)"
  using assms by (auto simp: Login_def Login_lookup_def zero_cred_def Let_def)

lemma IsLocked_until:
  assumes "u_locked_until u = format_rfc3339 t" and "four_digit_year t" and "lock_clock cx < t div second * second"
  shows "IsLocked cx u"
proof -
  have "format_rfc3339 t \<noteq> []" by (simp add: format_rfc3339_def)
  with assms show ?thesis by (simp add: IsLocked_def parse_format_rfc3339)
qed

text \<open>The failure that locks.\<close>

lemma fifth_failure:
  assumes "map_of (st_users s) k = Some u" and "u_failed_logins u = MaxFailedLogins - 1" and "save_error cx = None"
  shows "noteLoginFailure cx k s = (True, (upd_user k (\<lambda>u. u\<lparr>u_failed_logins := 0,
      u_locked_until := format_rfc3339 (lock_clock cx + LockoutDuration)\<rparr>) s)\<lparr>meta_updated_at := format_rfc3339 (now cx)\<rparr>)"
proof -
  have "wrap64 5 = 5" by (rule wrap64_id) (simp add: in_int64_def min_int64_def max_int64_def)
  with assms show ?thesis
    by (simp add: noteLoginFailure_def noteLoginFailure_update_def StoreUpdateScoped_def MaxFailedLogins_def)
qed

lemma earlier_failure:
  assumes "map_of (st_users s) k = Some u" and "u_failed_logins u = n" and "0 \<le> n" and "n < MaxFailedLogins - 1"
    and "save_error cx = None"
  shows "noteLoginFailure cx k s = (False, (upd_user k (\<lambda>u. u\<lparr>u_failed_logins := n + 1\<rparr>) s)
     \<lparr>meta_updated_at := format_rfc3339 (now cx)\<rparr>)"
proof -
  have "wrap64 (n + 1) = n + 1"
    using assms(3,4) by (intro wrap64_id) (simp add: in_int64_def min_int64_def max_int64_def MaxFailedLogins_def)
  with assms show ?thesis
    by (simp add: noteLoginFailure_def noteLoginFailure_update_def StoreUpdateScoped_def MaxFailedLogins_def)
qed

text \<open>A wrong password is counted and reported without saying which part was wrong.\<close>

lemma wrong_password:
  assumes "findUserByUsername s (NormalizeUsername (lr_username req)) = Some u" and "u_active u" and "\<not> IsLocked cx u"
    and "NormalizeUsername (lr_username req) \<noteq> []" and "lr_password req \<noteq> []" and "length (lr_password req) \<le> MaxPasswordLen"
    and "\<not> fst (VerifyPassword pr (lr_password req) (u_password_salt u) (u_password_hash u))"
  shows "snd (Login pr cx req s) = snd (noteLoginFailure cx (u_id u) s) \<and>
    (\<exists>reason. fst (Login pr cx req s) = bad (invalidCreds reason))"
  using assms by (auto simp: Login_def Login_lookup_user Login_failed_def Let_def split: prod.splits)

lemma find_map_entry:
  assumes "gmap_ok m" and "\<And>u. P (h u) = P u"
  shows "find (\<lambda>(i, u). P u) (AList.map_entry k h m) =
    map_option (\<lambda>(i, u). (i, if i = k then h u else u)) (find (\<lambda>(i, u). P u) m)"
  using assms(1)
proof (induction m)
  case (Cons p m)
  obtain i u where p: "p = (i, u)" by (cases p)
  show ?case
  proof (cases "i = k")
    case True
    with Cons.prems p have "k \<notin> gkeys m" by simp
    then have "find (\<lambda>(i, u). P u) m = Some (j, v) \<Longrightarrow> j \<noteq> k" for j v
      by (auto simp: find_Some_iff gkeys_def) (metis fst_conv image_eqI nth_mem)
    then show ?thesis using True p assms(2) by (cases "find (\<lambda>(i, u). P u) m") auto
  next
    case False
    with Cons p show ?thesis by simp
  qed
qed simp

lemma findUserByUsername_upd:
  assumes "ids_ok s" and "findUserByUsername s name = Some u" and "\<And>u. u_username (h u) = u_username u"
  shows "findUserByUsername ((upd_user (u_id u) h s)\<lparr>meta_updated_at := t\<rparr>) name = Some (h u)"
proof -
  let ?P = "\<lambda>u. equal_fold (u_username u) name"
  from assms(2) obtain k where f: "find (\<lambda>(k, u). ?P u) (st_users s) = Some (k, u)"
    by (auto simp: findUserByUsername_def)
  then have "(k, u) \<in> set (st_users s)" by (auto simp: find_Some_iff in_set_conv_nth)
  then have "u_id u = k" using assms(1) by (simp add: ids_ok_def in_set_map_of)
  moreover have "gmap_ok (st_users s)" using assms(1) by (simp add: ids_ok_def)
  ultimately show ?thesis
    using find_map_entry [of "st_users s" ?P h k] assms(3) f
    by (simp add: findUserByUsername_def upd_user_def)
qed

text \<open>After the fifth failure in a row every login of the user fails for fifteen minutes.\<close>

lemma lockout_holds:
  assumes "ids_ok s" and u: "findUserByUsername s (NormalizeUsername (lr_username req)) = Some u"
    and wrong: "u_active u" "\<not> IsLocked cx u" "NormalizeUsername (lr_username req) \<noteq> []" "lr_password req \<noteq> []"
      "length (lr_password req) \<le> MaxPasswordLen"
      "\<not> fst (VerifyPassword pr (lr_password req) (u_password_salt u) (u_password_hash u))"
    and four: "u_failed_logins u = MaxFailedLogins - 1" and "save_error cx = None"
    and year: "four_digit_year (lock_clock cx + LockoutDuration)"
    and same: "NormalizeUsername (lr_username req') = NormalizeUsername (lr_username req)"
    and time: "lock_clock cx' < (lock_clock cx + LockoutDuration) div second * second"
  shows "\<exists>e. Login pr cx' req' (snd (Login pr cx req s)) = (Inl e, snd (Login pr cx req s))"
proof -
  let ?l = "\<lambda>u. u\<lparr>u_failed_logins := 0, u_locked_until := format_rfc3339 (lock_clock cx + LockoutDuration)\<rparr>"
  let ?s1 = "(upd_user (u_id u) ?l s)\<lparr>meta_updated_at := format_rfc3339 (now cx)\<rparr>"
  have "map_of (st_users s) (u_id u) = Some u" by (rule findUserByUsername_lookup [OF assms(1) u])
  from fifth_failure [OF this four \<open>save_error cx = None\<close>] wrong_password [OF u wrong]
  have s1: "snd (Login pr cx req s) = ?s1" by simp
  have "findUserByUsername ?s1 (NormalizeUsername (lr_username req')) = Some (?l u)"
    unfolding same by (rule findUserByUsername_upd [OF assms(1) u]) simp
  moreover have "IsLocked cx' (?l u)" by (rule IsLocked_until [OF _ year time]) simp
  ultimately show ?thesis unfolding s1 by (rule locked_login)
qed

section \<open>A successful login\<close>

lemma createSession_Inr:
  assumes "createSessionForUser pr cx draw user s = (Inr r, s')"
  shows "ar_user r = toUserView user \<and> st_users s' = st_users s \<and> st_trades s' = st_trades s
    \<and> st_colonies s' = st_colonies s
    \<and> (\<exists>sess. map_of (st_sessions s') (ar_token r) = Some sess \<and> s_user_id sess = u_id user
        \<and> s_expires_at sess = format_rfc3339 (wall_clock cx + SessionTTL))"
  using assms by (auto simp: createSessionForUser_def Let_def split: sum.splits)

lemma Login_commit_Inr:
  assumes "Login_commit pr cx req c up s = (Inr r, s')"
  shows "\<exists>u u'. map_of (st_users s) (cr_id c) = Some u \<and> u_active u \<and> \<not> IsLocked cx u \<and> u_password_hash u = cr_hash c
    \<and> (u_mfa_enabled u \<longrightarrow> VerifyTOTP pr cx (u_mfa_secret u) (lr_totp_code req) (u_mfa_last_step u) \<noteq> 0)
    \<and> map_of (st_users s') (cr_id c) = Some u' \<and> steady u u' \<and> u_failed_logins u' = 0 \<and> u_locked_until u' = []
    \<and> (u_mfa_enabled u \<longrightarrow> u_mfa_last_step u < u_mfa_last_step u' \<and> u_mfa_last_step u' =
          VerifyTOTP pr cx (u_mfa_secret u) (lr_totp_code req) (u_mfa_last_step u))
    \<and> (\<exists>sess. map_of (st_sessions s') (ar_token r) = Some sess \<and> s_user_id sess = u_id u
        \<and> s_expires_at sess = format_rfc3339 (wall_clock cx + SessionTTL))"
proof -
  have step: "VerifyTOTP pr cx sec co l \<noteq> 0 \<Longrightarrow> l < VerifyTOTP pr cx sec co l" for sec co l
    using VerifyTOTP_nonzero [OF refl] by blast
  from assms show ?thesis
    by (auto simp: Login_commit_def Let_def StoreUpdateScoped_Inr step steady_def user_identity_def
        dest!: createSession_Inr split: option.splits if_splits)
qed

lemma Login_Inr:
  assumes "Login pr cx req s = (Inr r, s')" and "ids_ok s"
  shows "\<exists>u u'. findUserByUsername s (NormalizeUsername (lr_username req)) = Some u \<and> map_of (st_users s) (u_id u) = Some u
    \<and> u_active u \<and> \<not> IsLocked cx u
    \<and> fst (VerifyPassword pr (lr_password req) (u_password_salt u) (u_password_hash u))
    \<and> (u_mfa_enabled u \<longrightarrow> VerifyTOTP pr cx (u_mfa_secret u) (lr_totp_code req) (u_mfa_last_step u) \<noteq> 0)
    \<and> map_of (st_users s') (u_id u) = Some u' \<and> steady u u' \<and> u_failed_logins u' = 0 \<and> u_locked_until u' = []
    \<and> (u_mfa_enabled u \<longrightarrow> u_mfa_last_step u < u_mfa_last_step u')
    \<and> (\<exists>sess. map_of (st_sessions s') (ar_token r) = Some sess \<and> s_user_id sess = u_id u
        \<and> s_expires_at sess = format_rfc3339 (wall_clock cx + SessionTTL))"
proof -
  let ?name = "NormalizeUsername (lr_username req)"
  let ?c = "Login_lookup cx ?name s"
  from assms(1) have ok: "cr_ok ?c"
    and pw: "fst (VerifyPassword pr (lr_password req) (cr_salt ?c) (cr_hash ?c))"
    and "\<exists>up. Login_commit pr cx req ?c up s = (Inr r, s')"
    by (auto simp: Login_def Login_failed_def Let_def split: if_splits prod.splits sum.splits)
  then obtain up where commit: "Login_commit pr cx req ?c up s = (Inr r, s')" by blast
  from Login_lookup_ok [OF ok] obtain u where u: "findUserByUsername s ?name = Some u" "u_active u" by blast
  note c = Login_lookup_user [OF u, of cx]
  have look: "map_of (st_users s) (u_id u) = Some u" by (rule findUserByUsername_lookup [OF assms(2) u(1)])
  from Login_commit_Inr [OF commit] pw u look show ?thesis by (auto simp: c)
qed

section \<open>Reset tokens\<close>

lemma dropSessions_gone:
  assumes "actorFromTokenNoMFA cx (dropSessions k [] s) t = Inr (ak, v)"
  shows "ak \<noteq> k"
proof -
  from actorFromTokenNoMFA_Inr [OF assms] obtain sess where "t \<noteq> []" "s_user_id sess = ak"
    "map_of (st_sessions (dropSessions k [] s)) t = Some sess" by blast
  then show ?thesis by (auto simp: dropSessions_def dest: map_of_in_set)
qed

lemma actor_ignores_updated_at [simp]:
  "actorFromTokenNoMFA cx (s\<lparr>meta_updated_at := x\<rparr>) t = actorFromTokenNoMFA cx s t"
  by (simp add: actorFromTokenNoMFA_def split: option.split)

lemma valid_reset_Some:
  "valid_reset cx h uo \<Longrightarrow> \<exists>u exp. uo = Some u \<and> u_active u \<and> u_reset_token_hash u = h \<and> h \<noteq> []
     \<and> parse_rfc3339 (u_reset_expires_at u) = Some exp \<and> lock_clock cx < exp"
  by (auto simp: valid_reset_def split: option.splits if_splits)

lemma CompleteReset_commit_Inr:
  assumes "CompleteReset_commit cx k h nh s = (Inr r, s')"
  shows "\<exists>u u'. map_of (st_users s) k = Some u \<and> valid_reset cx h (Some u)
    \<and> map_of (st_users s') k = Some u' \<and> u_password_hash u' = nh \<and> u_reset_token_hash u' = [] \<and> steady u u'
    \<and> (\<forall>cx' t a. actorFromTokenNoMFA cx' s' t = Inr a \<longrightarrow> fst a \<noteq> k)"
proof -
  from assms have v: "valid_reset cx h (map_of (st_users s) k)"
    and s': "s' = (dropSessions k [] (upd_user k (\<lambda>u. u\<lparr>u_password_hash := nh, u_password_salt := [],
        u_reset_token_hash := [], u_reset_expires_at := [], u_failed_logins := 0, u_locked_until := [],
        u_password_changed_at := format_rfc3339 (now cx)\<rparr>) s))\<lparr>meta_updated_at := format_rfc3339 (now cx)\<rparr>"
    by (auto simp: CompleteReset_commit_def StoreUpdateScoped_Inr split: if_splits)
  from valid_reset_Some [OF v] obtain u where u: "map_of (st_users s) k = Some u" by blast
  have "fst a \<noteq> k" if "actorFromTokenNoMFA cx' s' t = Inr a" for cx' t a
    using that dropSessions_gone by (cases a) (auto simp: s')
  with u v show ?thesis by (auto simp: s' dropSessions_def)
qed

text \<open>A token is good once: the same token is refused in any state in which its hash is not set again.\<close>

lemma reset_refused:
  assumes "SplitResetToken pr tok = Some (k, h)" and "map_of (st_users s) k = Some u" and "u_reset_token_hash u \<noteq> h"
  shows "\<exists>e. CompleteReset pr cx tok pw s = (Inl e, s)"
  using assms by (auto simp: CompleteReset_def valid_reset_def split: option.splits)

end
