(* ===== verification/Demo.thy ===== *)
theory Demo
  imports Progress
begin

text \<open>
  A small concrete world on which the properties are exercised: primitives that are easy to evaluate
  (encodings are the identity, a signature is a constant, every signature verifies), a request
  context at the epoch, and a state with two colonies that trust each other, three users with
  sessions, and one offer that its buyer can accept.
\<close>

definition demo_prims :: prims where
  "demo_prims =
   \<lparr>sha256 = (\<lambda>s. ''h''), hmac_sha1 = (\<lambda>k m. []), hmac_sha256 = (\<lambda>k m. []),
    argon2_id_key = (\<lambda>pw salt t m p n. take n (pw @ replicate n (CHR ''x''))),
    ed25519_sign = (\<lambda>k m. ''s''), ed25519_verify = (\<lambda>k m sg. sg = ''s''),
    b64_encode = (\<lambda>s. s), b64_decode = Inr, raw_b64_encode = (\<lambda>s. s), raw_b64_decode = Inr,
    raw_b64url_encode = (\<lambda>s. s), raw_b32_encode = (\<lambda>s. s), raw_b32_decode = Inr, admin_mfa_required = False\<rparr>"

definition demo_ctx :: ctx where
  "demo_ctx =
   \<lparr>now = 0, wall_clock = 0, lock_clock = 0, rand_read = (\<lambda>i n. Inr (replicate n (CHR ''z''))),
    gen_key = (\<lambda>i. Inr (replicate 32 (CHR ''p''), replicate 64 (CHR ''k''))), save_error = None\<rparr>"

definition demo_key :: string where
  "demo_key = replicate 64 (CHR ''k'')"

definition demo_pub :: string where
  "demo_pub = replicate 32 (CHR ''p'')"

definition demo_user :: "string \<Rightarrow> string \<Rightarrow> string list \<Rightarrow> user" where
  "demo_user i col roles =
   \<lparr>u_id = i, u_username = i, u_display_name = i, u_colony_id = col, u_roles = roles, u_password_salt = [],
    u_password_hash = [], u_public_key = demo_pub, u_private_key = demo_key, u_created_at = [], u_active = True,
    u_failed_logins = 0, u_locked_until = [], u_mfa_enabled = False, u_mfa_secret = [], u_mfa_pending_secret = [],
    u_mfa_last_step = 0, u_reset_token_hash = [], u_reset_expires_at = [], u_password_changed_at = []\<rparr>"

definition demo_colony :: "string \<Rightarrow> account gmap \<Rightarrow> int \<Rightarrow> colony" where
  "demo_colony i accs minted = zero_colony\<lparr>c_id := i, c_name := i, c_public_key := demo_pub, c_private_key := demo_key,
     c_trusted_colonies := [(''A'', demo_pub), (''B'', demo_pub)], c_accounts := accs, c_minted_total := minted\<rparr>"

definition demo_account :: "string \<Rightarrow> string \<Rightarrow> int \<Rightarrow> account" where
  "demo_account u c b = \<lparr>a_user_id = u, a_colony_id = c, a_balance = b\<rparr>"

definition demo_trade :: "trade_status \<Rightarrow> trade" where
  "demo_trade st = zero_trade\<lparr>t_id := ''T'', t_asset := ''iron'', t_price := 40, t_seller_user_id := ''seller'',
     t_buyer_user_id := ''buyer'', t_seller_colony_id := ''A'', t_buyer_colony_id := ''B'', t_status := st,
     t_expires_at := ''1970-01-08T00:00:00Z''\<rparr>"

definition demo_session :: "string \<Rightarrow> session" where
  "demo_session u = \<lparr>s_token = u, s_user_id = u, s_created_at = [], s_expires_at = ''1970-01-02T00:00:00Z'',
     s_last_seen_at = []\<rparr>"

text \<open>The tokens are the user names.\<close>

definition demo_state :: "trade_status \<Rightarrow> int \<Rightarrow> app_state" where
  "demo_state st bal =
   \<lparr>meta_created_at = [], meta_updated_at = [],
    st_colonies = [(''A'', demo_colony ''A'' [(''seller'', demo_account ''seller'' ''A'' 0)] 0),
                   (''B'', demo_colony ''B'' [(''buyer'', demo_account ''buyer'' ''B'' bal)] 100)],
    st_users = [(''seller'', demo_user ''seller'' ''A'' [''trader'']), (''buyer'', demo_user ''buyer'' ''B'' [''trader'']),
                (''admin'', demo_user ''admin'' [] [''super_admin''])],
    st_sessions = [(''seller'', demo_session ''seller''), (''buyer'', demo_session ''buyer''),
                   (''admin'', demo_session ''admin'')],
    st_trades = [(''T'', demo_trade st)], st_bundles = [], st_pending_actions = [], st_counts = None\<rparr>"

section \<open>A whole trade, from the empty state\<close>

text \<open>Contexts whose random bytes all are one character: different requests use different characters.\<close>

definition ctx_of :: "char \<Rightarrow> ctx" where
  "ctx_of ch = demo_ctx\<lparr>rand_read := (\<lambda>i n. Inr (replicate n ch))\<rparr>"

definition id_of :: "string \<Rightarrow> char \<Rightarrow> string" where
  "id_of kind ch = kind @ ''_'' @ hex_encode (replicate 8 ch)"

definition fresh_for :: "char \<Rightarrow> app_state \<Rightarrow> bool" where
  "fresh_for ch s \<longleftrightarrow>
     id_of ''trd'' ch \<notin> set (map fst (st_trades s)) \<and>
     id_of ''col'' ch \<notin> set (map fst (st_colonies s)) \<and>
     id_of ''act'' ch \<notin> set (map fst (st_pending_actions s)) \<and>
     id_of ''usr'' ch \<notin> set (map fst (st_users s)) \<and>
     list_all (\<lambda>(k, c). id_of ''usr'' ch \<notin> set (map fst (c_accounts c))) (st_colonies s)"

lemma gkeys_set: "gkeys m = set (map fst m)"
  by (auto simp: gkeys_def)

lemma fresh_for_fresh_ids: "fresh_for ch s \<Longrightarrow> fresh_ids (ctx_of ch) s"
  by (auto simp: fresh_for_def fresh_ids_def gkeys_set NewID_def ctx_of_def id_of_def list_all_iff
      dest!: map_of_SomeD)

text \<open>The identifiers that \<open>demo_ctx\<close> draws are new in the demonstration state.\<close>

lemma demo_fresh: "fresh_ids demo_ctx (demo_state st bal)"
proof -
  have "fresh_for (CHR ''z'') (demo_state st bal)"
    by (simp add: fresh_for_def demo_state_def demo_colony_def zero_colony_def id_of_def)
  from fresh_for_fresh_ids [OF this] show ?thesis
    by (simp add: ctx_of_def demo_ctx_def)
qed

text \<open>Serving requests in order, as long as the identifiers they draw are new.\<close>

fun run_checked :: "(char \<times> request) list \<Rightarrow> app_state \<Rightarrow> app_state option" where
  "run_checked [] s = Some s"
| "run_checked ((ch, r) # rs) s =
     (if fresh_for ch s then run_checked rs (serve demo_prims (ctx_of ch) r s) else None)"

lemma run_checked_reachable:
  "run_checked rs s = Some s' \<Longrightarrow> reachable demo_prims s \<Longrightarrow> reachable demo_prims s'"
  by (induction rs s rule: run_checked.induct)
    (auto intro: reachable.next_step step.request fresh_for_fresh_ids split: if_splits)

definition admin_token :: string where
  "admin_token = replicate 32 (CHR ''a'')"

definition mint_run :: "(char \<times> request) list" where
  "mint_run =
   [(CHR ''a'', ReqBootstrap \<lparr>br_username = ''root'', br_display_name = [], br_password = ''password''\<rparr>),
    (CHR ''b'', ReqCreateColony admin_token ''Ares''),
    (CHR ''c'', ReqCreateUser admin_token \<lparr>cu_username = ''buy'', cu_display_name = [], cu_password = ''password'',
        cu_colony_id = id_of ''col'' (CHR ''b''), cu_roles = []\<rparr>),
    (CHR ''d'', ReqMint admin_token \<lparr>mr_colony_id = id_of ''col'' (CHR ''b''),
        mr_user_id = id_of ''usr'' (CHR ''c''), mr_amount = 100\<rparr>)]"

text \<open>One evaluation serves all properties of reachable states: a reachable state with money in it.\<close>

definition interesting :: "app_state \<Rightarrow> bool" where
  "interesting s \<longleftrightarrow> total_balances s = 100 \<and> total_minted s = 100
     \<and> map (\<lambda>(k, c). map le_type (c_ledger c)) (st_colonies s) = [[''colony_created'', ''user_created'', ''funds_minted'']]
     \<and> map (\<lambda>(k, u). u_roles u) (st_users s) = [[''super_admin''], [''trader'']]
     \<and> length (st_sessions s) = 1
     \<and> (case actorFromToken demo_prims demo_ctx s admin_token of Inl e \<Rightarrow> False | Inr (k, u) \<Rightarrow> HasRole u ''super_admin'')
     \<and> (case ListTrades demo_prims demo_ctx admin_token s of Inl e \<Rightarrow> False | Inr vs \<Rightarrow> True)"

lemma mint_run_interesting:
  "case run_checked mint_run (newEmptyState demo_ctx) of None \<Rightarrow> False | Some s \<Rightarrow> interesting s"
  by code_simp

lemma interesting_reachable:
  obtains s where "reachable demo_prims s" and "interesting s"
proof -
  obtain s where s: "run_checked mint_run (newEmptyState demo_ctx) = Some s" "interesting s"
    using mint_run_interesting by (auto split: option.splits)
  with run_checked_reachable [OF s(1) reachable.start] that show thesis by blast
qed

lemma interesting_account:
  assumes "interesting s"
  obtains k c u a where "map_of (st_colonies s) k = Some c" and "map_of (c_accounts c) u = Some a"
proof -
  obtain k c where c: "st_colonies s = [(k, c)]" "colony_balances c = 100"
    using assms by (auto simp: interesting_def total_balances_def)
  then obtain p as where "c_accounts c = p # as"
    by (cases "c_accounts c") (auto simp: colony_balances_def)
  with c that [of k c "fst p" "snd p"] show thesis by (cases p) simp
qed

lemma interesting_ledger:
  assumes "interesting s" and "map_of (st_colonies s) k = Some c"
  shows "length (c_ledger c) = 3"
proof -
  obtain j d where "st_colonies s = [(j, d)]"
    "map le_type (c_ledger d) = [''colony_created'', ''user_created'', ''funds_minted'']"
    using assms(1) by (auto simp: interesting_def)
  with assms(2) show ?thesis by (auto dest!: arg_cong [of _ _ length] split: if_splits)
qed

section \<open>Dual control\<close>

text \<open>The same world with colony \<open>B\<close> under dual control and a second administrator.\<close>

definition dual_state :: "int \<Rightarrow> app_state" where
  "dual_state bal =
   (let s = demo_state StatusOfferReceived bal
    in upd_colony ''B'' (\<lambda>c. c\<lparr>c_require_dual_control := True\<rparr>)
         (s\<lparr>st_users := (''root2'', demo_user ''root2'' [] [''super_admin'']) # st_users s,
            st_sessions := (''root2'', demo_session ''root2'') # st_sessions s\<rparr>))"

definition dual_mint :: request where
  "dual_mint = ReqMintOrPropose ''admin'' \<lparr>mr_colony_id = ''B'', mr_user_id = ''buyer'', mr_amount = 5\<rparr>"

lemma dual_fresh: "fresh_ids demo_ctx (dual_state bal)"
proof -
  have "fresh_for (CHR ''z'') (dual_state bal)"
    by (simp add: fresh_for_def dual_state_def demo_state_def demo_colony_def zero_colony_def id_of_def
        upd_colony_def)
  from fresh_for_fresh_ids [OF this] show ?thesis
    by (simp add: ctx_of_def demo_ctx_def)
qed

section \<open>Accounts to log in to\<close>

text \<open>A stored hash whose key is the word \<open>secret\<close> (the demonstration key of a password is its beginning).\<close>

definition demo_hash :: string where
  "demo_hash = ''$argon2id$v=19$m=19456,t=2,p=1$salt$secret''"

definition login_state :: "int \<Rightarrow> app_state" where
  "login_state n = upd_user ''buyer'' (\<lambda>u. u\<lparr>u_password_hash := demo_hash, u_failed_logins := n,
     u_reset_token_hash := ''68'', u_reset_expires_at := ''1970-01-02T00:00:00Z''\<rparr>) (demo_state StatusOfferReceived 100)"

definition login_with :: "string \<Rightarrow> login_request" where
  "login_with pw = \<lparr>lr_username = ''Buyer'', lr_password = pw, lr_totp_code = []\<rparr>"

lemma login_state_ids: "ids_ok (login_state n)"
  by (simp add: ids_ok_def login_state_def demo_state_def upd_user_def demo_user_def demo_colony_def demo_trade_def)

section \<open>Envelopes\<close>

text \<open>The acceptance of the demonstration trade as its buyer's colony sends it, dated \<open>at\<close>.\<close>

definition demo_acceptance :: "string \<Rightarrow> envelope" where
  "demo_acceptance at = (new_envelope ''E'' ''acceptance'' ''B'' ''A'' (encode_acceptance
     \<lparr>ap_trade_id = ''T'', ap_buyer_user_id = ''buyer'', ap_buyer_colony_id = ''B'', ap_debit_amount = 40,
      ap_accepted_at = at, ap_buyer_signature = ''s''\<rparr>) at)\<lparr>e_colony_signature := ''s''\<rparr>"

definition demo_refund :: envelope where
  "demo_refund = (new_envelope ''F'' ''refund'' ''A'' ''B'' (encode_refund
     \<lparr>rp_trade_id = ''T'', rp_buyer_user_id = ''buyer'', rp_buyer_colony_id = ''B'', rp_seller_colony_id = ''A'',
      rp_refund_amount = 40, rp_reason = [], rp_decided_at = []\<rparr>) [])\<lparr>e_colony_signature := ''s''\<rparr>"

definition demo_bundle :: "envelope option list \<Rightarrow> relay_bundle" where
  "demo_bundle msgs = \<lparr>b_id = ''bdl'', b_from_colony_id = ''B'', b_to_colony_id = ''A'', b_exported_at = [],
     b_messages = msgs\<rparr>"

lemma demo_sys:
  assumes "bal + (if IsEscrowed st then 40 else 0) = 100" and "0 \<le> bal"
  shows "sys_ok demo_prims (demo_state st bal)"
proof -
  have "ledger_ok demo_prims (demo_colony i accs m)" for i accs m
    by (simp add: demo_colony_def zero_colony_def)
  moreover have "bal \<le> 100" using assms(1) by (simp split: if_splits)
  ultimately have "struct_ok demo_prims (demo_state st bal)"
    using assms(2)
    by (auto simp: struct_ok_def demo_state_def colony_ok_def minted_seen_def account_ok_def trade_ok_def demo_account_def
        EffectiveMintCap_def DefaultMintCap_def ValidAmount_def MaxAmount_def max_int64_def demo_trade_def zero_trade_def
        demo_colony_def zero_colony_def)
  moreover have "gap (demo_state st bal) = 0"
    using assms(1)
    by (auto simp: gap_def total_balances_def total_escrow_def total_minted_def demo_state_def colony_balances_def
        escrow_of_def demo_account_def demo_colony_def demo_trade_def split: if_splits)
  ultimately show ?thesis by (simp add: sys_ok_def money_ok_def actions_ok_def demo_state_def)
qed

definition demo_settlement :: envelope where
  "demo_settlement = (new_envelope ''G'' ''settlement'' ''A'' ''B'' (encode_settlement
     \<lparr>sp_trade_id = ''T'', sp_seller_user_id = ''seller'', sp_seller_colony_id = ''A'', sp_credit_amount = 40,
      sp_accepted_from_colony = ''B'', sp_settled_at = []\<rparr>) [])\<lparr>e_colony_signature := ''s''\<rparr>"

section \<open>An offer that expires\<close>

definition offer_run :: "(char \<times> request) list" where
  "offer_run =
   [(CHR ''a'', ReqBootstrap \<lparr>br_username = ''root'', br_display_name = [], br_password = ''password''\<rparr>),
    (CHR ''b'', ReqCreateColony admin_token ''Ares''),
    (CHR ''c'', ReqCreateColony admin_token ''Boreas''),
    (CHR ''d'', ReqTrustPeer admin_token (id_of ''col'' (CHR ''b'')) (id_of ''col'' (CHR ''c''))),
    (CHR ''e'', ReqCreateUser admin_token \<lparr>cu_username = ''sell'', cu_display_name = [], cu_password = ''password'',
        cu_colony_id = id_of ''col'' (CHR ''b''), cu_roles = []\<rparr>),
    (CHR ''f'', ReqCreateUser admin_token \<lparr>cu_username = ''buy'', cu_display_name = [], cu_password = ''password'',
        cu_colony_id = id_of ''col'' (CHR ''c''), cu_roles = []\<rparr>),
    (CHR ''g'', ReqCreateOffer admin_token \<lparr>co_seller_user_id = id_of ''usr'' (CHR ''e''),
        co_buyer_user_id = id_of ''usr'' (CHR ''f''), co_asset = ''iron'', co_price = 40, co_ttl_seconds = 60\<rparr>)]"

definition late_ctx :: ctx where
  "late_ctx = demo_ctx\<lparr>now := 61 * second\<rparr>"

lemma offer_run_due:
  "case run_checked offer_run (newEmptyState demo_ctx) of None \<Rightarrow> False
   | Some s \<Rightarrow> map (\<lambda>(k, t). due late_ctx t) (st_trades s) = [True]"
  by code_simp

lemma due_offer_reachable:
  obtains s where "reachable demo_prims s" and "map (\<lambda>(k, t). due late_ctx t) (st_trades s) = [True]"
proof -
  obtain s where s: "run_checked offer_run (newEmptyState demo_ctx) = Some s"
    "map (\<lambda>(k, t). due late_ctx t) (st_trades s) = [True]"
    using offer_run_due by (auto split: option.splits)
  show thesis by (rule that [OF run_checked_reachable [OF s(1) reachable.start] s(2)])
qed

end
