(* ===== verification/Limits.thy ===== *)
theory Limits
  imports Demo
begin

text \<open>
  Where the code does something else than it means to, each on the smallest input that shows it:
  an offer's time to live overflows, pruning evicts the newer of two sessions.  (A legacy password
  hash that is empty matches every password: \<open>legacy_empty_hash\<close> in theory \<open>Credentials\<close>.  The refund
  of an acceptance that reaches a closed offer cannot happen: \<open>closed_unaccepted\<close> in theory
  \<open>Settlement\<close>.)
\<close>

section \<open>Offers\<close>

text \<open>Within the range where the product does not overflow the limits are the documented ones.\<close>

lemma offer_ttl_exact:
  assumes "co_ttl_seconds req \<noteq> 0" and "\<bar>co_ttl_seconds req\<bar> \<le> 9223372036"
  shows "offer_ttl req = (if 60 \<le> co_ttl_seconds req \<and> co_ttl_seconds req \<le> 7776000
     then Inr (co_ttl_seconds req * second)
     else bad (BadRequest ''ttl_seconds must be between 60 and 7776000''))"
proof -
  have "wrap64 (co_ttl_seconds req * second) = co_ttl_seconds req * second"
    using assms(2) by (intro wrap64_id) (auto simp: in_int64_def min_int64_def max_int64_def second_def)
  with assms(1) show ?thesis
    by (auto simp: offer_ttl_def Let_def MinOfferTTL_def MaxOfferTTL_def hour_def minute_def second_def)
qed

lemma offer_ttl_range: "offer_ttl req = Inr ttl \<Longrightarrow> MinOfferTTL \<le> ttl \<and> ttl \<le> MaxOfferTTL"
  by (auto simp: offer_ttl_def Let_def DefaultOfferTTL_def MinOfferTTL_def MaxOfferTTL_def hour_def minute_def second_def
      split: if_splits)

text \<open>Beyond it the product wraps around: more than a billion years are accepted as one minute.\<close>

lemma offer_ttl_overflow:
  "offer_ttl \<lparr>co_seller_user_id = [], co_buyer_user_id = [], co_asset = [], co_price = 1,
     co_ttl_seconds = 60 + 2 ^ 55\<rparr> = Inr (60 * second)"
  by code_simp

section \<open>Sessions\<close>

text \<open>
  The creation times of sessions are compared as strings, but \<open>RFC3339Nano\<close> drops trailing zeros, so
  the later of two instants can sort first, and pruning then evicts the newer session.
\<close>

lemma nano_order:
  "500000000 < (510000000 :: int) \<and> format_rfc3339_nano 510000000 < format_rfc3339_nano 500000000"
  by code_simp

definition two_sessions :: app_state where
  "two_sessions = (newEmptyState demo_ctx)\<lparr>st_sessions :=
     [(''old'', (demo_session ''u'')\<lparr>s_token := ''old'', s_created_at := format_rfc3339_nano 500000000\<rparr>),
      (''new'', (demo_session ''u'')\<lparr>s_token := ''new'', s_created_at := format_rfc3339_nano 510000000\<rparr>)]\<rparr>"

lemma prune_evicts_newer: "map fst (st_sessions (pruneSessions demo_ctx ''u'' 1 two_sessions)) = [''old'']"
  by code_simp

end
