(* ===== verification/Requests.thy ===== *)
theory Requests
  imports Queries "HOL-Library.Monad_Syntax"
begin

text \<open>
  Decoding the JSON bodies of the requests (\<open>decodeJSON\<close> of \<open>httpapi/handlers.go\<close> with the request
  structs of \<open>service\<close>).  As in theory \<open>Json\<close> a body is the value its text stands for.  Member names
  are matched without regard to case, a repeated member is decoded over the value of the one
  before, \<open>null\<close> leaves the field alone, and a member that is no field of the struct is an error
  (\<open>DisallowUnknownFields\<close>), in nested structs too.  \<open>None\<close> is a decoding error.
\<close>

section \<open>Fields\<close>

fun field :: "(json \<Rightarrow> 'a \<Rightarrow> 'a option) \<Rightarrow> string \<Rightarrow> (string \<times> json) list \<Rightarrow> 'a \<Rightarrow> 'a option" where
  "field dec n [] cur = Some cur"
| "field dec n ((k, v) # ms) cur =
     (if equal_fold k n
      then (case dec v cur of None \<Rightarrow> None | Some x \<Rightarrow> field dec n ms x)
      else field dec n ms cur)"

definition bool_value :: "json \<Rightarrow> bool \<Rightarrow> bool option" where
  "bool_value v cur = (case v of JBool b \<Rightarrow> Some b | JNull \<Rightarrow> Some cur | _ \<Rightarrow> None)"

text \<open>The targets of the pointers \<open>*int64\<close> and \<open>*bool\<close>.\<close>

definition int_pointer :: "json \<Rightarrow> int option \<Rightarrow> int option option" where
  "int_pointer v cur =
     (case v of JInt i \<Rightarrow> (if in_int64 i then Some (Some i) else None) | JNull \<Rightarrow> Some None | _ \<Rightarrow> None)"

definition bool_pointer :: "json \<Rightarrow> bool option \<Rightarrow> bool option option" where
  "bool_pointer v cur = (case v of JBool b \<Rightarrow> Some (Some b) | JNull \<Rightarrow> Some None | _ \<Rightarrow> None)"

text \<open>The elements of a slice: an element that was decoded before is decoded over.\<close>

fun elements :: "(json \<Rightarrow> 'a \<Rightarrow> 'a option) \<Rightarrow> 'a \<Rightarrow> json list \<Rightarrow> 'a list \<Rightarrow> 'a list option" where
  "elements dec z [] cur = Some []"
| "elements dec z (v # vs) cur =
     (case dec v (case cur of [] \<Rightarrow> z | c # _ \<Rightarrow> c) of
        None \<Rightarrow> None
      | Some x \<Rightarrow> map_option (\<lambda>xs. x # xs) (elements dec z vs (tl cur)))"

definition slice_value :: "(json \<Rightarrow> 'a \<Rightarrow> 'a option) \<Rightarrow> 'a \<Rightarrow> json \<Rightarrow> 'a list \<Rightarrow> 'a list option" where
  "slice_value dec z v cur =
     (case v of JArr vs \<Rightarrow> elements dec z vs cur | JNull \<Rightarrow> Some [] | _ \<Rightarrow> None)"

definition str_value :: "json \<Rightarrow> string \<Rightarrow> string option" where
  "str_value v cur = (case v of JStr s \<Rightarrow> Some s | JNull \<Rightarrow> Some cur | _ \<Rightarrow> None)"

text \<open>\<open>json.RawMessage\<close> takes any value, \<open>null\<close> included.\<close>

definition raw_value :: "json \<Rightarrow> raw_message \<Rightarrow> raw_message option" where
  "raw_value v cur = Some (Some v)"

text \<open>The members of the struct a value is decoded into, when all of them are fields of it.\<close>

definition known_members :: "string list \<Rightarrow> (string \<times> json) list \<Rightarrow> bool" where
  "known_members ns ms \<longleftrightarrow> list_all (\<lambda>(k, v). list_ex (equal_fold k) ns) ms"

definition struct_members :: "string list \<Rightarrow> json \<Rightarrow> (string \<times> json) list option" where
  "struct_members ns v =
     (case v of JObj ms \<Rightarrow> if known_members ns ms then Some ms else None
              | JNull \<Rightarrow> Some []
              | _ \<Rightarrow> None)"

section \<open>The request structs\<close>

definition decode_bootstrap :: "json \<Rightarrow> bootstrap_request option" where
  "decode_bootstrap v =
     do { ms \<leftarrow> struct_members [''username'', ''display_name'', ''password''] v;
          un \<leftarrow> get_str ''username'' ms;
          dn \<leftarrow> get_str ''display_name'' ms;
          pw \<leftarrow> get_str ''password'' ms;
          Some \<lparr>br_username = un, br_display_name = dn, br_password = pw\<rparr> }"

definition decode_login :: "json \<Rightarrow> login_request option" where
  "decode_login v =
     do { ms \<leftarrow> struct_members [''username'', ''password'', ''totp_code''] v;
          un \<leftarrow> get_str ''username'' ms;
          pw \<leftarrow> get_str ''password'' ms;
          code \<leftarrow> get_str ''totp_code'' ms;
          Some \<lparr>lr_username = un, lr_password = pw, lr_totp_code = code\<rparr> }"

text \<open>The structs with one field are that field.\<close>

definition decode_create_colony :: "json \<Rightarrow> string option" where
  "decode_create_colony v = do { ms \<leftarrow> struct_members [''name''] v; get_str ''name'' ms }"

definition decode_trust_peer :: "json \<Rightarrow> string option" where
  "decode_trust_peer v =
     do { ms \<leftarrow> struct_members [''peer_colony_id''] v; get_str ''peer_colony_id'' ms }"

definition decode_create_user :: "json \<Rightarrow> create_user_request option" where
  "decode_create_user v =
     do { ms \<leftarrow> struct_members [''username'', ''display_name'', ''password'', ''colony_id'', ''roles''] v;
          un \<leftarrow> get_str ''username'' ms;
          dn \<leftarrow> get_str ''display_name'' ms;
          pw \<leftarrow> get_str ''password'' ms;
          cid \<leftarrow> get_str ''colony_id'' ms;
          roles \<leftarrow> field (slice_value str_value []) ''roles'' ms [];
          Some \<lparr>cu_username = un, cu_display_name = dn, cu_password = pw, cu_colony_id = cid, cu_roles = roles\<rparr> }"

definition decode_mint :: "json \<Rightarrow> mint_request option" where
  "decode_mint v =
     do { ms \<leftarrow> struct_members [''colony_id'', ''user_id'', ''amount''] v;
          cid \<leftarrow> get_str ''colony_id'' ms;
          uid \<leftarrow> get_str ''user_id'' ms;
          amount \<leftarrow> get_int ''amount'' ms;
          Some \<lparr>mr_colony_id = cid, mr_user_id = uid, mr_amount = amount\<rparr> }"

definition decode_create_offer :: "json \<Rightarrow> create_offer_request option" where
  "decode_create_offer v =
     do { ms \<leftarrow> struct_members [''seller_user_id'', ''buyer_user_id'', ''asset'', ''price'', ''ttl_seconds''] v;
          seller \<leftarrow> get_str ''seller_user_id'' ms;
          buyer \<leftarrow> get_str ''buyer_user_id'' ms;
          asset \<leftarrow> get_str ''asset'' ms;
          price \<leftarrow> get_int ''price'' ms;
          ttl \<leftarrow> get_int ''ttl_seconds'' ms;
          Some \<lparr>co_seller_user_id = seller, co_buyer_user_id = buyer, co_asset = asset, co_price = price,
                co_ttl_seconds = ttl\<rparr> }"

definition decode_export_bundle :: "json \<Rightarrow> (string \<times> string) option" where
  "decode_export_bundle v =
     do { ms \<leftarrow> struct_members [''colony_id'', ''to_colony_id''] v;
          cid \<leftarrow> get_str ''colony_id'' ms;
          tid \<leftarrow> get_str ''to_colony_id'' ms;
          Some (cid, tid) }"

definition decode_policy :: "json \<Rightarrow> policy_request option" where
  "decode_policy v =
     do { ms \<leftarrow> struct_members [''mint_cap'', ''require_dual_control''] v;
          cap \<leftarrow> field int_pointer ''mint_cap'' ms None;
          dual \<leftarrow> field bool_pointer ''require_dual_control'' ms None;
          Some \<lparr>pq_mint_cap = cap, pq_require_dual_control = dual\<rparr> }"

definition decode_mfa_confirm :: "json \<Rightarrow> string option" where
  "decode_mfa_confirm v = do { ms \<leftarrow> struct_members [''code''] v; get_str ''code'' ms }"

definition decode_change_password :: "json \<Rightarrow> (string \<times> string) option" where
  "decode_change_password v =
     do { ms \<leftarrow> struct_members [''current_password'', ''new_password''] v;
          cur \<leftarrow> get_str ''current_password'' ms;
          new \<leftarrow> get_str ''new_password'' ms;
          Some (cur, new) }"

definition decode_complete_reset :: "json \<Rightarrow> (string \<times> string) option" where
  "decode_complete_reset v =
     do { ms \<leftarrow> struct_members [''reset_token'', ''new_password''] v;
          tok \<leftarrow> get_str ''reset_token'' ms;
          new \<leftarrow> get_str ''new_password'' ms;
          Some (tok, new) }"

definition decode_set_active :: "json \<Rightarrow> bool option" where
  "decode_set_active v = do { ms \<leftarrow> struct_members [''active''] v; field bool_value ''active'' ms False }"

definition decode_set_roles :: "json \<Rightarrow> string list option" where
  "decode_set_roles v =
     do { ms \<leftarrow> struct_members [''roles''] v; field (slice_value str_value []) ''roles'' ms [] }"

subsection \<open>Bundles\<close>

definition envelope_value :: "json \<Rightarrow> envelope \<Rightarrow> envelope option" where
  "envelope_value v cur =
     do { ms \<leftarrow> struct_members [''id'', ''type'', ''from_colony_id'', ''to_colony_id'', ''payload'',
                 ''colony_signature'', ''created_at''] v;
          i \<leftarrow> str_field ''id'' ms (e_id cur);
          t \<leftarrow> str_field ''type'' ms (e_type cur);
          src \<leftarrow> str_field ''from_colony_id'' ms (e_from_colony_id cur);
          tgt \<leftarrow> str_field ''to_colony_id'' ms (e_to_colony_id cur);
          p \<leftarrow> field raw_value ''payload'' ms (e_payload cur);
          sig \<leftarrow> str_field ''colony_signature'' ms (e_colony_signature cur);
          at \<leftarrow> str_field ''created_at'' ms (e_created_at cur);
          Some \<lparr>e_id = i, e_type = t, e_from_colony_id = src, e_to_colony_id = tgt, e_payload = p,
                e_colony_signature = sig, e_created_at = at\<rparr> }"

definition zero_envelope :: envelope where
  "zero_envelope = \<lparr>e_id = [], e_type = [], e_from_colony_id = [], e_to_colony_id = [], e_payload = None,
     e_colony_signature = [], e_created_at = []\<rparr>"

definition envelope_pointer :: "json \<Rightarrow> envelope option \<Rightarrow> envelope option option" where
  "envelope_pointer v cur =
     (if v = JNull then Some None
      else map_option Some (envelope_value v (case cur of None \<Rightarrow> zero_envelope | Some e \<Rightarrow> e)))"

definition bundle_value :: "json \<Rightarrow> relay_bundle \<Rightarrow> relay_bundle option" where
  "bundle_value v cur =
     do { ms \<leftarrow> struct_members [''id'', ''from_colony_id'', ''to_colony_id'', ''exported_at'', ''messages''] v;
          i \<leftarrow> str_field ''id'' ms (b_id cur);
          src \<leftarrow> str_field ''from_colony_id'' ms (b_from_colony_id cur);
          tgt \<leftarrow> str_field ''to_colony_id'' ms (b_to_colony_id cur);
          at \<leftarrow> str_field ''exported_at'' ms (b_exported_at cur);
          msgs \<leftarrow> field (slice_value envelope_pointer None) ''messages'' ms (b_messages cur);
          Some \<lparr>b_id = i, b_from_colony_id = src, b_to_colony_id = tgt, b_exported_at = at, b_messages = msgs\<rparr> }"

definition zero_bundle :: relay_bundle where
  "zero_bundle = \<lparr>b_id = [], b_from_colony_id = [], b_to_colony_id = [], b_exported_at = [], b_messages = []\<rparr>"

definition decode_import_bundle :: "json \<Rightarrow> (string \<times> relay_bundle) option" where
  "decode_import_bundle v =
     do { ms \<leftarrow> struct_members [''colony_id'', ''bundle''] v;
          cid \<leftarrow> get_str ''colony_id'' ms;
          b \<leftarrow> field bundle_value ''bundle'' ms zero_bundle;
          Some (cid, b) }"

section \<open>Facts\<close>

text \<open>A bundle that one colony exports is the bundle the other decodes: the encoder of the struct.\<close>

definition envelope_json :: "envelope \<Rightarrow> json" where
  "envelope_json e = JObj [(''id'', JStr (e_id e)), (''type'', JStr (e_type e)),
     (''from_colony_id'', JStr (e_from_colony_id e)), (''to_colony_id'', JStr (e_to_colony_id e)),
     (''payload'', raw_json (e_payload e)), (''colony_signature'', JStr (e_colony_signature e)),
     (''created_at'', JStr (e_created_at e))]"

definition bundle_json :: "relay_bundle \<Rightarrow> json" where
  "bundle_json b = JObj [(''id'', JStr (b_id b)), (''from_colony_id'', JStr (b_from_colony_id b)),
     (''to_colony_id'', JStr (b_to_colony_id b)), (''exported_at'', JStr (b_exported_at b)),
     (''messages'', JArr (map (\<lambda>m. case m of None \<Rightarrow> JNull | Some e \<Rightarrow> envelope_json e) (b_messages b)))]"

lemma request_names:
  "to_lower ''messages'' = ''messages''" "to_lower ''exported_at'' = ''exported_at''"
  "to_lower ''from_colony_id'' = ''from_colony_id''" "to_lower ''to_colony_id'' = ''to_colony_id''"
  "to_lower ''payload'' = ''payload''" "to_lower ''colony_signature'' = ''colony_signature''"
  "to_lower ''colony_id'' = ''colony_id''" "to_lower ''bundle'' = ''bundle''" "to_lower ''id'' = ''id''"
  "to_lower ''type'' = ''type''" "to_lower ''created_at'' = ''created_at''"
  by code_simp+

lemma envelope_value_json:
  "e_payload e = Some p \<Longrightarrow> envelope_value (envelope_json e) cur = Some e"
  by (simp add: envelope_value_def envelope_json_def struct_members_def known_members_def raw_value_def raw_json_def
      equal_fold_def request_names)

lemma elements_map:
  "(\<And>x cur. x \<in> set xs \<Longrightarrow> dec (enc x) cur = Some x) \<Longrightarrow> elements dec z (map enc xs) cur = Some xs"
  by (induction xs arbitrary: cur) auto

lemma envelope_json_not_null [simp]: "envelope_json e \<noteq> JNull"
  by (simp add: envelope_json_def)

lemma bundle_value_json:
  assumes "\<And>e. Some e \<in> set (b_messages b) \<Longrightarrow> e_payload e \<noteq> None"
  shows "bundle_value (bundle_json b) cur = Some b"
proof -
  have "elements envelope_pointer None (map (\<lambda>m. case m of None \<Rightarrow> JNull | Some e \<Rightarrow> envelope_json e) (b_messages b)) ms
    = Some (b_messages b)" for ms
    by (rule elements_map) (auto simp: envelope_pointer_def envelope_value_json split: option.split dest: assms)
  then show ?thesis
    by (simp add: bundle_value_def bundle_json_def struct_members_def known_members_def slice_value_def
        equal_fold_def request_names)
qed

lemma decode_import_bundle_json:
  assumes "\<And>e. Some e \<in> set (b_messages b) \<Longrightarrow> e_payload e \<noteq> None"
  shows "decode_import_bundle (JObj [(''colony_id'', JStr c), (''bundle'', bundle_json b)]) = Some (c, b)"
  by (simp add: decode_import_bundle_def struct_members_def known_members_def get_str_def bundle_value_json [OF assms]
      equal_fold_def request_names)

end
