(* ===== verification/Observe.thy ===== *)
theory Observe
  imports Requests
begin

text \<open>
  What the server tells about a request, and the request itself: \<open>httpapi/observability.go\<close>.  Metrics
  are exact numbers (the code counts in \<open>float64\<close> and \<open>uint64\<close>), durations are nanoseconds.
  The lemmas show that what ends up in a log line or in the text of a metric cannot be forged by
  the client: request ids are of a fixed alphabet, and labels escape what would end them.
\<close>

section \<open>Requests\<close>

text \<open>
  The fields of \<open>http.Request\<close> the source reads.  \<open>rq_header\<close> maps canonical names to first values,
  \<open>rq_query\<close> the parameters of the query to theirs, \<open>rq_session_cookie\<close> is the value of the cookie
  \<open>itp_session\<close>.  \<open>rq_body\<close> is what a JSON decoder makes of the body: the number of bytes after which
  it knows, and the value or the error text.  \<open>rq_id\<close> is the path's \<open>{id}\<close>, set by the mux.
\<close>

record http_request =
  rq_method :: string
  rq_path :: string
  rq_query :: "string gmap"
  rq_header :: "string gmap"
  rq_session_cookie :: "string option"
  rq_host :: string
  rq_remote_addr :: string
  rq_tls :: bool
  rq_content_length :: int
  rq_body :: "nat \<times> (string + json)"
  rq_id :: string

definition header :: "http_request \<Rightarrow> string \<Rightarrow> string" where
  "header r name = gget [] (rq_header r) name"

text \<open>
  \<open>net.ParseIP\<close>, the host of \<open>url.Parse\<close> and the text of the error for a value that does not fit the
  struct it is decoded into.  An address is its canonical text with \<open>IsLoopback\<close> or \<open>IsPrivate\<close>.
\<close>

record ip_address =
  ip_text :: string
  ip_trusted :: bool

record net_lib =
  parse_ip :: "string \<Rightarrow> ip_address option"
  url_host :: "string \<Rightarrow> string option"
  json_error :: "json \<Rightarrow> string"

text \<open>\<open>net.SplitHostPort\<close>, of which the source uses the host.\<close>

definition split_host_port :: "string \<Rightarrow> string option" where
  "split_host_port hp =
     (case split_last (CHR '':'') hp of
        None \<Rightarrow> None
      | Some (before, port) \<Rightarrow>
          if has_prefix hp ''[''
          then (case split_first (CHR '']'') (tl before) of
                  Some (host, []) \<Rightarrow>
                    if CHR ''['' \<in> set host \<or> CHR ''['' \<in> set port \<or> CHR '']'' \<in> set port then None else Some host
                | _ \<Rightarrow> None)
          else if CHR '':'' \<in> set before \<or> CHR ''['' \<in> set hp \<or> CHR '']'' \<in> set hp then None
          else Some before)"

section \<open>Request ids and trace context\<close>

record req_info =
  ri_request_id :: string
  ri_trace_id :: string
  ri_span_id :: string
  ri_ip :: string
  ri_user_id :: string
  ri_route :: string

definition lower_hex :: "char \<Rightarrow> bool" where
  "lower_hex c \<longleftrightarrow> (48 \<le> code c \<and> code c \<le> 57) \<or> (97 \<le> code c \<and> code c \<le> 102)"

definition id_char :: "char \<Rightarrow> bool" where
  "id_char c \<longleftrightarrow> (48 \<le> code c \<and> code c \<le> 57) \<or> (65 \<le> code c \<and> code c \<le> 90) \<or> (97 \<le> code c \<and> code c \<le> 122)
     \<or> c = CHR ''.'' \<or> c = CHR ''_'' \<or> c = CHR ''-''"

text \<open>\<open>^[A-Za-z0-9._-]{8,64}$\<close>\<close>

definition requestIDRe :: "string \<Rightarrow> bool" where
  "requestIDRe s \<longleftrightarrow> 8 \<le> length s \<and> length s \<le> 64 \<and> list_all id_char s"

text \<open>\<open>^00-([0-9a-f]{32})-([0-9a-f]{16})-[0-9a-f]{2}$\<close>, with the first group as the result.\<close>

definition traceparentRe :: "string \<Rightarrow> string option" where
  "traceparentRe s =
     (let trace = take 32 (drop 3 s); span = take 16 (drop 36 s); flags = drop 53 s
      in if length s = 55 \<and> take 3 s = ''00-'' \<and> list_all lower_hex trace \<and> s ! 35 = CHR ''-''
            \<and> list_all lower_hex span \<and> s ! 52 = CHR ''-'' \<and> list_all lower_hex flags
         then Some trace else None)"

text \<open>\<open>clientIP\<close>: a forwarded address counts only when the peer is our own proxy.\<close>

definition clientIP :: "net_lib \<Rightarrow> http_request \<Rightarrow> string" where
  "clientIP lib r =
     (let host = (case split_host_port (rq_remote_addr r) of None \<Rightarrow> rq_remote_addr r | Some h \<Rightarrow> h)
      in case parse_ip lib host of
           None \<Rightarrow> host
         | Some ip \<Rightarrow>
             if ip_trusted ip
             then (case parse_ip lib (trim_space (header r ''X-Real-Ip'')) of
                     Some real \<Rightarrow> ip_text real
                   | None \<Rightarrow> host)
             else host)"

text \<open>
  \<open>newReqInfo\<close>; \<open>rnd n\<close> are the random bytes of its \<open>n\<close>-th call of \<open>randHex\<close> (span, request, trace).
\<close>

definition newReqInfo :: "net_lib \<Rightarrow> (nat \<Rightarrow> string) \<Rightarrow> http_request \<Rightarrow> req_info" where
  "newReqInfo lib rnd r =
     (let trace = (case traceparentRe (header r ''Traceparent'') of
                     Some m \<Rightarrow> if m \<noteq> replicate 32 (CHR ''0'') then m else []
                   | None \<Rightarrow> []);
          i = header r ''X-Request-Id''
      in \<lparr>ri_request_id = (if requestIDRe i then i else hex_encode (take 8 (rnd 1))),
          ri_trace_id = (if trace = [] then hex_encode (take 16 (rnd 2)) else trace),
          ri_span_id = hex_encode (take 8 (rnd 0)), ri_ip = clientIP lib r, ri_user_id = [], ri_route = []\<rparr>)"

section \<open>Metrics\<close>

definition ms_bucket :: "int \<Rightarrow> int" where
  "ms_bucket ms = ms * 1000000"

text \<open>The bounds 0.005, ..., 10 seconds in nanoseconds.\<close>

definition latencyBuckets :: "int list" where
  "latencyBuckets = map ms_bucket [5, 10, 25, 50, 100, 250, 500, 1000, 2500, 5000, 10000]"

record histogram =
  h_counts :: "nat list"
  h_sum :: int
  h_n :: nat

record metrics =
  m_counters :: "nat gmap"
  m_hists :: "histogram gmap"
  m_inflight :: int

definition NewMetrics :: metrics where
  "NewMetrics = \<lparr>m_counters = [], m_hists = [], m_inflight = 0\<rparr>"

fun escape_label_char :: "char \<Rightarrow> string" where
  "escape_label_char c =
     (if c = CHR 0x5C then [CHR 0x5C, CHR 0x5C]
      else if c = CHR 0x22 then [CHR 0x5C, CHR 0x22]
      else if c = CHR 0x0A then [CHR 0x5C, CHR ''n'']
      else [c])"

definition escapeLabel :: "string \<Rightarrow> string" where
  "escapeLabel s = concat (map escape_label_char s)"

fun label_parts :: "string list \<Rightarrow> string list" where
  "label_parts (k # v # kv) = (k @ ''='' @ [CHR 0x22] @ escapeLabel v @ [CHR 0x22]) # label_parts kv"
| "label_parts kv = []"

definition labelPairs :: "string list \<Rightarrow> string" where
  "labelPairs kv = (if kv = [] then [] else ''{'' @ join '','' (label_parts kv) @ ''}'')"

definition Inc :: "string \<Rightarrow> string list \<Rightarrow> metrics \<Rightarrow> metrics" where
  "Inc name kv m =
     (let k = name @ labelPairs kv
      in m\<lparr>m_counters := AList.update k (gget 0 (m_counters m) k + 1) (m_counters m)\<rparr>)"

definition observe :: "string \<Rightarrow> string \<Rightarrow> int \<Rightarrow> metrics \<Rightarrow> metrics" where
  "observe method route dur m =
     (let key = labelPairs [''method'', method, ''route'', route];
          h = (case map_of (m_hists m) key of
                 Some h \<Rightarrow> h
               | None \<Rightarrow> \<lparr>h_counts = replicate (length latencyBuckets) 0, h_sum = 0, h_n = 0\<rparr>);
          h' = \<lparr>h_counts = map2 (\<lambda>b c. if dur \<le> b then c + 1 else c) latencyBuckets (h_counts h),
                h_sum = h_sum h + dur, h_n = h_n h + 1\<rparr>
      in m\<lparr>m_hists := AList.update key h' (m_hists m)\<rparr>)"

definition knownMethod :: "string \<Rightarrow> string" where
  "knownMethod m = (if m \<in> {''GET'', ''POST'', ''HEAD'', ''OPTIONS''} then m else ''OTHER'')"

definition isMutating :: "string \<Rightarrow> bool" where
  "isMutating method \<longleftrightarrow> method \<noteq> ''GET'' \<and> method \<noteq> ''HEAD'' \<and> method \<noteq> ''OPTIONS''"

definition BearerToken :: "string \<Rightarrow> string" where
  "BearerToken hdr =
     (case split_first (CHR '' '') hdr of
        None \<Rightarrow> []
      | Some (scheme, rest) \<Rightarrow> if \<not> equal_fold scheme ''Bearer'' then [] else trim_space rest)"

definition requestToken :: "http_request \<Rightarrow> string" where
  "requestToken r =
     (let t = BearerToken (header r ''Authorization'')
      in if t \<noteq> [] then t
         else case rq_session_cookie r of Some c \<Rightarrow> c | None \<Rightarrow> [])"

definition outcomeOf :: "nat \<Rightarrow> string" where
  "outcomeOf status = (if status \<ge> 200 \<and> status < 400 then ''success'' else ''failure'')"

section \<open>Facts\<close>

lemma hex_encode_lower_hex: "list_all lower_hex (hex_encode s)"
proof -
  have "lower_hex (hex_digit n)" if "n < 16" for n
    using that by (auto simp: lower_hex_def hex_digit_def code_char_of)
  moreover have "code c div 16 < 16" for c
    by (simp add: code_def div_less_iff_less_mult)
  ultimately show ?thesis by (auto simp: hex_encode_def list_all_iff)
qed

lemma lower_hex_id_char: "lower_hex c \<Longrightarrow> id_char c"
  by (auto simp: lower_hex_def id_char_def)

text \<open>Whatever headers the client sends, the ids in the log are short and of a fixed alphabet.\<close>

lemma request_id_safe:
  "list_all id_char (ri_request_id (newReqInfo lib rnd r)) \<and> length (ri_request_id (newReqInfo lib rnd r)) \<le> 64"
  using hex_encode_lower_hex [of "take 8 (rnd 1)"]
  by (auto simp: newReqInfo_def Let_def requestIDRe_def length_hex_encode list_all_iff intro: lower_hex_id_char)

lemma trace_id_safe:
  "list_all lower_hex (ri_trace_id (newReqInfo lib rnd r)) \<and> length (ri_trace_id (newReqInfo lib rnd r)) \<le> 32"
  using hex_encode_lower_hex [of "take 16 (rnd 2)"]
  by (auto simp: newReqInfo_def Let_def traceparentRe_def length_hex_encode split: option.splits if_splits)

text \<open>A label value cannot end the label early: what is between the quotes determines it.\<close>

lemma escape_label_char_cases:
  "escape_label_char c = [c] \<and> c \<noteq> CHR 0x5C \<and> c \<noteq> CHR 0x22 \<and> c \<noteq> CHR 0x0A \<or>
   (\<exists>d. escape_label_char c = [CHR 0x5C, d] \<and> d \<noteq> CHR 0x0A \<and>
      (d = CHR 0x5C \<and> c = CHR 0x5C \<or> d = CHR 0x22 \<and> c = CHR 0x22 \<or> d = CHR ''n'' \<and> c = CHR 0x0A))"
  by auto

lemma escapeLabel_Cons: "escapeLabel (c # s) = escape_label_char c @ escapeLabel s"
  by (simp add: escapeLabel_def)

lemma escapeLabel_Nil [simp]: "escapeLabel [] = []"
  by (simp add: escapeLabel_def)

lemma escapeLabel_until_quote:
  "escapeLabel s @ CHR 0x22 # u = escapeLabel t @ CHR 0x22 # v \<Longrightarrow> s = t \<and> u = v"
proof (induction s arbitrary: t)
  case Nil
  show ?case
  proof (cases t)
    case (Cons d t')
    with Nil show ?thesis using escape_label_char_cases [of d] by (auto simp: escapeLabel_Cons simp del: escape_label_char.simps)
  qed (use Nil in simp)
next
  case (Cons c s)
  note eq = Cons.prems
  show ?case
  proof (cases t)
    case Nil
    with eq show ?thesis using escape_label_char_cases [of c] by (auto simp: escapeLabel_Cons simp del: escape_label_char.simps)
  next
    case (Cons d t')
    from eq escape_label_char_cases [of c] escape_label_char_cases [of d]
    have "c = d" and "escapeLabel s @ CHR 0x22 # u = escapeLabel t' @ CHR 0x22 # v"
      by (auto simp: Cons escapeLabel_Cons simp del: escape_label_char.simps)
    with Cons.IH Cons show ?thesis by blast
  qed
qed

end
