(* ===== verification/Http.thy ===== *)
theory Http
  imports Observe
begin

text \<open>
  The HTTP layer around the handlers: responses, the audit trail and the chain of middlewares of
  \<open>httpapi/handlers.go\<close>, \<open>security_handlers.go\<close>, \<open>server.go\<close> and \<open>observability.go\<close>.  A request is
  served on an \<open>exch\<close>ange: the state of the service, the audit trail and the metrics of the process,
  and the response as far as it has been written.  A handler that panics leaves \<open>x_panic\<close>.
\<close>

section \<open>Responses\<close>

text \<open>What is encoded into the body of a response; \<open>ErrorReply\<close> is an \<open>AppError\<close>'s code and message.\<close>

datatype reply =
    NoReply
  | PlainText string
  | FileReply
  | ErrorReply string string
  | StatusReply string
  | OkReply
  | NeedsBootstrapReply bool
  | AuthReply auth_response
  | UserReply user_view
  | UsersReply "user_view list"
  | DashboardReply dashboard
  | ColonyReply "colony_view option"
  | ColoniesReply "colony_view list"
  | AccountReply "account_view option"
  | AccountsReply "account_view list"
  | ActionReply pending_action
  | ActionsReply "pending_action list"
  | TradeReply trade_view
  | TradesReply "trade_view list"
  | BundleReply relay_bundle
  | ImportReply import_bundle_result
  | LedgerReply "ledger_entry list"
  | EnrollmentReply mfa_enrollment
  | ResetTokenReply reset_token_view

record cookie =
  ck_name :: string
  ck_value :: string
  ck_path :: string
  ck_http_only :: bool
  ck_secure :: bool
  ck_same_site_strict :: bool
  ck_max_age :: int

record audit_event =
  ev_event :: string
  ev_outcome :: string
  ev_request_id :: string
  ev_trace_id :: string
  ev_ip :: string
  ev_user_id :: string
  ev_attrs :: "(string \<times> json) list"

record exch =
  x_state :: app_state
  x_log :: "audit_event list"
  x_metrics :: metrics
  x_info :: req_info
  x_pattern :: string
  x_header :: "string gmap"
  x_cookies :: "cookie list"
  x_status :: nat
  x_body :: reply
  x_panic :: "string option"

type_synonym http_handler = "http_request \<Rightarrow> exch \<Rightarrow> exch"

text \<open>The directory \<open>--static\<close>: which paths are files, and how \<open>http\<close>'s file servers answer.\<close>

record static_files =
  is_file :: "string \<Rightarrow> bool"
  file_status :: "http_request \<Rightarrow> nat"
  index_status :: "http_request \<Rightarrow> nat"

text \<open>\<open>a_ping_error\<close> is the error of \<open>Store.Ping\<close>, which the file store never has.\<close>

record api =
  a_prims :: prims
  a_lib :: net_lib
  a_allowed_origins :: "string list"
  a_static :: "static_files option"
  a_bootstrap_token :: string
  a_ping_error :: "string option"

definition NewAPI :: "prims \<Rightarrow> net_lib \<Rightarrow> string list \<Rightarrow> static_files option \<Rightarrow> api" where
  "NewAPI pr lib allowedOrigins static =
     \<lparr>a_prims = pr, a_lib = lib, a_allowed_origins = filter (\<lambda>o'. o' \<noteq> []) (map trim_space allowedOrigins),
      a_static = static, a_bootstrap_token = [], a_ping_error = None\<rparr>"

definition WithBootstrapToken :: "string \<Rightarrow> api \<Rightarrow> api" where
  "WithBootstrapToken t a = a\<lparr>a_bootstrap_token := t\<rparr>"

definition set_header :: "string \<Rightarrow> string \<Rightarrow> exch \<Rightarrow> exch" where
  "set_header k v x = x\<lparr>x_header := AList.update k v (x_header x)\<rparr>"

text \<open>\<open>statusRecorder.WriteHeader\<close>: the first status is the one that is sent.\<close>

definition WriteHeader :: "nat \<Rightarrow> exch \<Rightarrow> exch" where
  "WriteHeader status x = (if x_status x = 0 then x\<lparr>x_status := status\<rparr> else x)"

definition writeJSON :: "nat \<Rightarrow> reply \<Rightarrow> exch \<Rightarrow> exch" where
  "writeJSON status v x =
     (WriteHeader status (set_header ''Content-Type'' ''application/json'' x))\<lparr>x_body := v\<rparr>"

fun writeError :: "go_error \<Rightarrow> exch \<Rightarrow> exch" where
  "writeError (AppErr e) x = writeJSON (err_status e) (ErrorReply (err_code e) (err_message e)) x"
| "writeError (PlainErr msg) x = writeJSON 500 (ErrorReply ''internal_error'' ''internal server error'') x"
| "writeError (Panic msg) x = x\<lparr>x_panic := Some msg\<rparr>"

definition audit :: "string \<Rightarrow> string \<Rightarrow> (string \<times> json) list \<Rightarrow> exch \<Rightarrow> exch" where
  "audit event outcome kv x =
     (let ri = x_info x
      in x\<lparr>x_log := x_log x @ [\<lparr>ev_event = event, ev_outcome = outcome, ev_request_id = ri_request_id ri,
              ev_trace_id = ri_trace_id ri, ev_ip = ri_ip ri, ev_user_id = ri_user_id ri, ev_attrs = kv\<rparr>],
           x_metrics := Inc ''itp_audit_events_total'' [''event'', event, ''outcome'', outcome] (x_metrics x)\<rparr>)"

section \<open>Middlewares\<close>

definition isHTTPS :: "net_lib \<Rightarrow> http_request \<Rightarrow> bool" where
  "isHTTPS lib r \<longleftrightarrow>
     rq_tls r \<or>
     (case split_host_port (rq_remote_addr r) of
        None \<Rightarrow> False
      | Some host \<Rightarrow>
          (case parse_ip lib host of
             None \<Rightarrow> False
           | Some ip \<Rightarrow> ip_trusted ip \<and> equal_fold (header r ''X-Forwarded-Proto'') ''https''))"

definition in_quotes :: "string \<Rightarrow> string" where
  "in_quotes s = [CHR 0x27] @ s @ [CHR 0x27]"

definition contentSecurityPolicy :: string where
  "contentSecurityPolicy =
     (let self = in_quotes ''self''; nothing = in_quotes ''none''
      in ''default-src '' @ self @ ''; script-src '' @ self @ ''; style-src '' @ self @ '' '' @
         in_quotes ''unsafe-inline'' @ ''; font-src '' @ self @ '' data:; img-src '' @ self @
         '' data:; connect-src '' @ self @ ''; object-src '' @ nothing @ ''; base-uri '' @ nothing @
         ''; form-action '' @ self @ ''; frame-ancestors '' @ nothing)"

definition withSecurityHeaders :: "api \<Rightarrow> http_handler \<Rightarrow> http_handler" where
  "withSecurityHeaders a next r x =
     (let x1 = foldl (\<lambda>x (k, v). set_header k v x) x
            [(''X-Content-Type-Options'', ''nosniff''), (''X-Frame-Options'', ''DENY''),
             (''Referrer-Policy'', ''no-referrer''),
             (''Permissions-Policy'', ''geolocation=(), microphone=(), camera=(), payment=()''),
             (''Cross-Origin-Opener-Policy'', ''same-origin''),
             (''Cross-Origin-Resource-Policy'', ''same-origin''),
             (''Content-Security-Policy'', contentSecurityPolicy)];
          x2 = (if has_prefix (rq_path r) ''/api/'' then set_header ''Cache-Control'' ''no-store'' x1 else x1);
          x3 = (if isHTTPS (a_lib a) r
                then set_header ''Strict-Transport-Security'' ''max-age=31536000; includeSubDomains'' x2 else x2)
      in next r x3)"

definition MaxBodyBytes :: int where
  "MaxBodyBytes = 2 ^ 20"

definition maxRelayBodyBytes :: int where
  "maxRelayBodyBytes = 8 * 2 ^ 20"

definition body_limit :: "http_request \<Rightarrow> int" where
  "body_limit r = (if rq_path r = ''/api/v1/relay/import'' then maxRelayBodyBytes else MaxBodyBytes)"

text \<open>\<open>http.MaxBytesReader\<close>: reading past the limit fails.\<close>

definition MaxBytesReader :: "int \<Rightarrow> nat \<times> (string + json) \<Rightarrow> nat \<times> (string + json)" where
  "MaxBytesReader limit body =
     (if int (fst body) > limit then (fst body, Inl ''http: request body too large'') else body)"

definition withBodyLimit :: "http_handler \<Rightarrow> http_handler" where
  "withBodyLimit next r x =
     (if rq_content_length r > body_limit r
      then writeJSON 413 (ErrorReply ''payload_too_large'' ''request body too large'') x
      else next (r\<lparr>rq_body := MaxBytesReader (body_limit r) (rq_body r)\<rparr>) x)"

definition withCORS :: "api \<Rightarrow> http_handler \<Rightarrow> http_handler" where
  "withCORS a next r x =
     (let origin = header r ''Origin'';
          x1 = (if origin \<noteq> [] \<and> origin \<in> set (a_allowed_origins a)
                then set_header ''Access-Control-Allow-Methods'' ''GET, POST, OPTIONS''
                       (set_header ''Access-Control-Allow-Headers''
                          ''Authorization, Content-Type, X-Session-Mode, X-Bootstrap-Token''
                          (set_header ''Vary'' ''Origin'' (set_header ''Access-Control-Allow-Origin'' origin x)))
                else x)
      in if rq_method r = ''OPTIONS'' then WriteHeader 204 x1 else next r x1)"

definition sameOrigin :: "api \<Rightarrow> http_request \<Rightarrow> bool" where
  "sameOrigin a r =
     (let origin = header r ''Origin''
      in if origin = [] then False
         else if origin \<in> set (a_allowed_origins a) then True
         else case url_host (a_lib a) origin of
                None \<Rightarrow> False
              | Some host \<Rightarrow> host \<noteq> [] \<and> equal_fold host (rq_host r))"

definition withSession :: "api \<Rightarrow> http_handler \<Rightarrow> http_handler" where
  "withSession a next r x =
     (case (header r ''Authorization'', rq_session_cookie r) of
        ([], Some c) \<Rightarrow>
          if c \<noteq> []
          then if isMutating (rq_method r) \<and> \<not> sameOrigin a r
               then writeJSON 403 (ErrorReply ''forbidden'' ''cross-origin request refused'')
                      (audit ''csrf.blocked'' ''failure'' [(''origin'', JStr (header r ''Origin''))] x)
               else next (r\<lparr>rq_header := AList.update ''Authorization'' (''Bearer '' @ c) (rq_header r)\<rparr>) x
          else next r x
      | _ \<Rightarrow> next r x)"

text \<open>
  \<open>withObs\<close>: \<open>rnd\<close> are the random bytes of the request's ids, \<open>dur\<close> its duration.  The first part runs
  before the handler, the second is the deferred function.
\<close>

definition audited :: "http_request \<Rightarrow> bool" where
  "audited r \<longleftrightarrow> isMutating (rq_method r) \<and> has_prefix (rq_path r) ''/api/''"

definition withObs_before :: "api \<Rightarrow> ctx \<Rightarrow> (nat \<Rightarrow> string) \<Rightarrow> http_handler" where
  "withObs_before a cx rnd r x =
     (let ri = newReqInfo (a_lib a) rnd r;
          ri' = (if audited r then ri\<lparr>ri_user_id := ActorID cx (requestToken r) (x_state x)\<rparr> else ri);
          x1 = set_header ''Traceresponse'' (''00-'' @ ri_trace_id ri @ ''-'' @ ri_span_id ri @ ''-01'')
                 (set_header ''X-Request-Id'' (ri_request_id ri) x)
      in x1\<lparr>x_info := ri', x_metrics := (x_metrics x1)\<lparr>m_inflight := m_inflight (x_metrics x1) + 1\<rparr>\<rparr>)"

definition route_of :: "string \<Rightarrow> string" where
  "route_of pattern =
     (if pattern = [] then ''unmatched''
      else case split_first (CHR '' '') pattern of None \<Rightarrow> pattern | Some (m, p) \<Rightarrow> p)"

definition withObs_after :: "int \<Rightarrow> http_handler" where
  "withObs_after dur r x =
     (let x1 = x\<lparr>x_metrics := (x_metrics x)\<lparr>m_inflight := m_inflight (x_metrics x) - 1\<rparr>\<rparr>;
          x2 = (if x_panic x1 \<noteq> None \<and> x_status x1 = 0
                then writeJSON 500 (ErrorReply ''internal_error'' ''internal server error'') x1 else x1);
          x3 = (if x_status x2 = 0 then x2\<lparr>x_status := 200\<rparr> else x2);
          route = route_of (x_pattern x3);
          x4 = x3\<lparr>x_info := (x_info x3)\<lparr>ri_route := route\<rparr>,
                  x_metrics := observe (knownMethod (rq_method r)) route dur
                    (Inc ''itp_http_requests_total'' [''method'', knownMethod (rq_method r), ''route'', route,
                       ''code'', show_nat (x_status x3)] (x_metrics x3))\<rparr>
      in if audited r
         then audit ''http.mutation'' (outcomeOf (x_status x4))
                [(''route'', JStr route), (''method'', JStr (rq_method r)), (''status'', JInt (int (x_status x4)))] x4
         else x4)"

definition withObs :: "api \<Rightarrow> ctx \<Rightarrow> (nat \<Rightarrow> string) \<Rightarrow> int \<Rightarrow> http_handler \<Rightarrow> http_handler" where
  "withObs a cx rnd dur next r x = withObs_after dur r (next r (withObs_before a cx rnd r x))"

section \<open>Answers to a login\<close>

definition SessionCookie :: string where
  "SessionCookie = ''itp_session''"

definition respondAuth :: "api \<Rightarrow> http_request \<Rightarrow> nat \<Rightarrow> auth_response \<Rightarrow> exch \<Rightarrow> exch" where
  "respondAuth a r status v x =
     (if equal_fold (header r ''X-Session-Mode'') ''cookie''
      then writeJSON status (AuthReply (v\<lparr>ar_token := []\<rparr>))
             (x\<lparr>x_cookies := x_cookies x @ [\<lparr>ck_name = SessionCookie, ck_value = ar_token v, ck_path = ''/api'',
                ck_http_only = True, ck_secure = isHTTPS (a_lib a) r, ck_same_site_strict = True,
                ck_max_age = SessionTTL div second\<rparr>]\<rparr>)
      else writeJSON status (AuthReply v) x)"

definition clearSessionCookie :: "api \<Rightarrow> http_request \<Rightarrow> exch \<Rightarrow> exch" where
  "clearSessionCookie a r x =
     x\<lparr>x_cookies := x_cookies x @ [\<lparr>ck_name = SessionCookie, ck_value = [], ck_path = ''/api'', ck_http_only = True,
        ck_secure = isHTTPS (a_lib a) r, ck_same_site_strict = True, ck_max_age = -1\<rparr>]\<rparr>"

definition bootstrapAllowed :: "api \<Rightarrow> http_request \<Rightarrow> bool" where
  "bootstrapAllowed a r \<longleftrightarrow>
     a_bootstrap_token a \<noteq> [] \<and> header r ''X-Bootstrap-Token'' = a_bootstrap_token a"

definition metricReason :: "string \<Rightarrow> string" where
  "metricReason r =
     (if r \<in> {''unknown_or_inactive'', ''locked'', ''bad_password'', ''bad_password_lockout_started'', ''bad_totp'',
              ''bad_totp_lockout_started'', ''mfa_code_missing'', ''totp_replay'', ''changed_during_login'',
              ''oversized_password''}
      then r else ''other'')"

end
