(* ===== verification/Handlers.thy ===== *)
theory Handlers
  imports Http
begin

text \<open>
  The handlers of the API, one per route, the routing table and \<open>API.Handler\<close>, which puts the
  middlewares around the mux: \<open>httpapi/handlers.go\<close> and \<open>security_handlers.go\<close>.
\<close>

section \<open>Calling the service\<close>

definition token_of :: "http_request \<Rightarrow> string" where
  "token_of r = BearerToken (header r ''Authorization'')"

text \<open>A request that runs on the state, and one that only reads it.\<close>

definition call :: "'a handler \<Rightarrow> exch \<Rightarrow> 'a result \<times> exch" where
  "call f x = (case f (x_state x) of (res, s) \<Rightarrow> (res, x\<lparr>x_state := s\<rparr>))"

definition ask :: "(app_state \<Rightarrow> 'a result) \<Rightarrow> exch \<Rightarrow> 'a result \<times> exch" where
  "ask f x = (f (x_state x), x)"

text \<open>
  \<open>if err != nil { note; writeError; return }\<close> followed by the rest.  A panic of the service unwinds
  the handler: neither \<open>note\<close> nor the rest runs.
\<close>

fun failed :: "go_error \<Rightarrow> (go_error \<Rightarrow> exch \<Rightarrow> exch) \<Rightarrow> exch \<Rightarrow> exch" where
  "failed (Panic msg) note x = x\<lparr>x_panic := Some msg\<rparr>"
| "failed err note x = writeError err (note err x)"

definition noted :: "(go_error \<Rightarrow> exch \<Rightarrow> exch) \<Rightarrow> 'a result \<times> exch \<Rightarrow> ('a \<Rightarrow> exch \<Rightarrow> exch) \<Rightarrow> exch" where
  "noted note rx rest =
     (case rx of (Inl err, x) \<Rightarrow> failed err note x | (Inr v, x) \<Rightarrow> rest v x)"

abbreviation answered :: "'a result \<times> exch \<Rightarrow> ('a \<Rightarrow> exch \<Rightarrow> exch) \<Rightarrow> exch" where
  "answered rx rest \<equiv> noted (\<lambda>err x. x) rx rest"

definition decodeJSON :: "api \<Rightarrow> (json \<Rightarrow> 'a option) \<Rightarrow> http_request \<Rightarrow> string + 'a" where
  "decodeJSON a dec r =
     (case snd (rq_body r) of
        Inl err \<Rightarrow> Inl (''invalid json: '' @ err)
      | Inr v \<Rightarrow>
          (case dec v of
             None \<Rightarrow> Inl (''invalid json: '' @ json_error (a_lib a) v)
           | Some req \<Rightarrow> Inr req))"

definition with_body :: "api \<Rightarrow> (json \<Rightarrow> 'a option) \<Rightarrow> ('a \<Rightarrow> exch \<Rightarrow> exch) \<Rightarrow> http_handler" where
  "with_body a dec rest r x =
     (case decodeJSON a dec r of
        Inl err \<Rightarrow> writeError (AppErr (BadRequest err)) x
      | Inr req \<Rightarrow> rest req x)"

fun error_reason :: "go_error \<Rightarrow> string" where
  "error_reason (AppErr e) = err_reason e"
| "error_reason err = []"

fun error_string :: "go_error \<Rightarrow> string" where
  "error_string (AppErr e) = err_message e"
| "error_string (PlainErr msg) = msg"
| "error_string (Panic msg) = msg"

definition set_actor :: "string \<Rightarrow> exch \<Rightarrow> exch" where
  "set_actor i x = x\<lparr>x_info := (x_info x)\<lparr>ri_user_id := i\<rparr>\<rparr>"

section \<open>Public routes and sessions\<close>

definition handleHealthz :: http_handler where
  "handleHealthz r x = writeJSON 200 (StatusReply ''ok'') x"

definition handleReadyz :: "api \<Rightarrow> http_handler" where
  "handleReadyz a r x =
     (case a_ping_error a of
        Some err \<Rightarrow> writeJSON 503 (StatusReply ''unavailable'') x
      | None \<Rightarrow> writeJSON 200 (StatusReply ''ready'') x)"

definition handleNeedsBootstrap :: http_handler where
  "handleNeedsBootstrap r x = answered (ask NeedsBootstrap x) (\<lambda>v. writeJSON 200 (NeedsBootstrapReply v))"

definition handleBootstrap :: "api \<Rightarrow> ctx \<Rightarrow> http_handler" where
  "handleBootstrap a cx r x =
     (if \<not> bootstrapAllowed a r
      then writeError (AppErr (Forbidden ''a valid bootstrap token is required (X-Bootstrap-Token)''))
             (audit ''auth.bootstrap'' ''failure'' [(''reason'', JStr ''bad_or_missing_bootstrap_token'')] x)
      else with_body a decode_bootstrap (\<lambda>req x.
        noted (\<lambda>err. audit ''auth.bootstrap'' ''failure'' [(''reason'', JStr (error_string err))])
          (call (Bootstrap (a_prims a) cx req) x)
          (\<lambda>v x. respondAuth a r 201 v
             (audit ''auth.bootstrap'' ''success'' [(''username'', JStr (uv_username (ar_user v)))]
                (set_actor (uv_id (ar_user v)) x)))) r x)"

definition handleLogin :: "api \<Rightarrow> ctx \<Rightarrow> http_handler" where
  "handleLogin a cx r x =
     with_body a decode_login (\<lambda>req x.
       noted (\<lambda>err x.
           let x1 = audit ''auth.login'' ''failure'' [(''username'', JStr (NormalizeUsername (lr_username req))),
                      (''reason'', JStr (error_reason err))] x
           in x1\<lparr>x_metrics := Inc ''itp_login_failures_total'' [''reason'', metricReason (error_reason err)]
                  (x_metrics x1)\<rparr>)
         (call (Login (a_prims a) cx req) x)
         (\<lambda>v x. respondAuth a r 200 v
            (audit ''auth.login'' ''success'' [(''username'', JStr (uv_username (ar_user v)))]
               (set_actor (uv_id (ar_user v)) x)))) r x"

definition handleLogout :: "api \<Rightarrow> ctx \<Rightarrow> http_handler" where
  "handleLogout a cx r x =
     answered (call (Logout cx (requestToken r)) x)
       (\<lambda>v x. writeJSON 200 OkReply (audit ''auth.logout'' ''success'' [] (clearSessionCookie a r x)))"

definition handleMe :: "api \<Rightarrow> ctx \<Rightarrow> http_handler" where
  "handleMe a cx r x = answered (ask (Me cx (token_of r)) x) (\<lambda>v. writeJSON 200 (UserReply v))"

section \<open>Account security\<close>

definition handleMFAEnroll :: "api \<Rightarrow> ctx \<Rightarrow> http_handler" where
  "handleMFAEnroll a cx r x =
     answered (call (EnrollMFA (a_prims a) cx (token_of r)) x)
       (\<lambda>v x. writeJSON 200 (EnrollmentReply v) (audit ''mfa.enroll_started'' ''success'' [] x))"

definition handleMFAConfirm :: "api \<Rightarrow> ctx \<Rightarrow> http_handler" where
  "handleMFAConfirm a cx r x =
     with_body a decode_mfa_confirm (\<lambda>c x.
       noted (\<lambda>err. audit ''mfa.enroll_confirmed'' ''failure'' [])
         (call (ConfirmMFA (a_prims a) cx (token_of r) c) x)
         (\<lambda>v x. writeJSON 200 (UserReply v) (audit ''mfa.enroll_confirmed'' ''success'' [] x))) r x"

definition handleChangePassword :: "api \<Rightarrow> ctx \<Rightarrow> http_handler" where
  "handleChangePassword a cx r x =
     with_body a decode_change_password (\<lambda>(current, new) x.
       noted (\<lambda>err. audit ''password.changed'' ''failure'' [])
         (call (ChangePassword (a_prims a) cx (token_of r) current new) x)
         (\<lambda>v x. writeJSON 200 OkReply (audit ''password.changed'' ''success'' [] x))) r x"

definition handleCompleteReset :: "api \<Rightarrow> ctx \<Rightarrow> http_handler" where
  "handleCompleteReset a cx r x =
     with_body a decode_complete_reset (\<lambda>(tok, new) x.
       noted (\<lambda>err. audit ''password.reset_completed'' ''failure'' [(''reason'', JStr (error_reason err))])
         (call (CompleteReset (a_prims a) cx tok new) x)
         (\<lambda>v x. writeJSON 200 OkReply (audit ''password.reset_completed'' ''success'' [] x))) r x"

definition target_attrs :: "http_request \<Rightarrow> (string \<times> json) list" where
  "target_attrs r = [(''target_user_id'', JStr (rq_id r))]"

definition handleIssueReset :: "api \<Rightarrow> ctx \<Rightarrow> http_handler" where
  "handleIssueReset a cx r x =
     noted (\<lambda>err. audit ''password.reset_issued'' ''failure'' (target_attrs r))
       (call (IssueResetToken (a_prims a) cx (token_of r) (rq_id r)) x)
       (\<lambda>v x. writeJSON 200 (ResetTokenReply v) (audit ''password.reset_issued'' ''success'' (target_attrs r) x))"

definition handleResetMFA :: "api \<Rightarrow> ctx \<Rightarrow> http_handler" where
  "handleResetMFA a cx r x =
     noted (\<lambda>err. audit ''mfa.reset'' ''failure'' (target_attrs r))
       (call (ResetMFA (a_prims a) cx (token_of r) (rq_id r)) x)
       (\<lambda>v x. writeJSON 200 (UserReply v) (audit ''mfa.reset'' ''success'' (target_attrs r) x))"

definition handleSetActive :: "api \<Rightarrow> ctx \<Rightarrow> http_handler" where
  "handleSetActive a cx r x =
     with_body a decode_set_active (\<lambda>active x.
       let attrs = target_attrs r @ [(''active'', JBool active)]
       in noted (\<lambda>err. audit ''user.set_active'' ''failure'' attrs)
            (call (SetUserActive (a_prims a) cx (token_of r) (rq_id r) active) x)
            (\<lambda>v x. writeJSON 200 (UserReply v) (audit ''user.set_active'' ''success'' attrs x))) r x"

definition handleSetRoles :: "api \<Rightarrow> ctx \<Rightarrow> http_handler" where
  "handleSetRoles a cx r x =
     with_body a decode_set_roles (\<lambda>roles x.
       noted (\<lambda>err. audit ''user.set_roles'' ''failure'' (target_attrs r))
         (call (SetUserRoles (a_prims a) cx (token_of r) (rq_id r) roles) x)
         (\<lambda>v x. writeJSON 200 (UserReply v) (audit ''user.set_roles'' ''success''
            (target_attrs r @ [(''roles'', JArr (map JStr (uv_roles v)))]) x))) r x"

section \<open>Colonies, users and accounts\<close>

definition handleDashboard :: "api \<Rightarrow> ctx \<Rightarrow> http_handler" where
  "handleDashboard a cx r x =
     answered (ask (Dashboard (a_prims a) cx (token_of r)) x) (\<lambda>v. writeJSON 200 (DashboardReply v))"

definition handleListColonies :: "api \<Rightarrow> ctx \<Rightarrow> http_handler" where
  "handleListColonies a cx r x =
     answered (ask (ListColonies (a_prims a) cx (token_of r)) x) (\<lambda>v. writeJSON 200 (ColoniesReply v))"

definition handleCreateColony :: "api \<Rightarrow> ctx \<Rightarrow> http_handler" where
  "handleCreateColony a cx r x =
     with_body a decode_create_colony (\<lambda>name x.
       answered (call (CreateColony (a_prims a) cx (token_of r) name) x)
         (\<lambda>v. writeJSON 201 (ColonyReply (Some v)))) r x"

definition handleTrustPeer :: "api \<Rightarrow> ctx \<Rightarrow> http_handler" where
  "handleTrustPeer a cx r x =
     with_body a decode_trust_peer (\<lambda>peer x.
       answered (call (TrustPeer (a_prims a) cx (token_of r) (rq_id r) peer) x)
         (\<lambda>v. writeJSON 200 (ColonyReply (Some v)))) r x"

definition handleListUsers :: "api \<Rightarrow> ctx \<Rightarrow> http_handler" where
  "handleListUsers a cx r x =
     answered (ask (ListUsers (a_prims a) cx (token_of r)) x) (\<lambda>v. writeJSON 200 (UsersReply v))"

definition handleCreateUser :: "api \<Rightarrow> ctx \<Rightarrow> http_handler" where
  "handleCreateUser a cx r x =
     with_body a decode_create_user (\<lambda>req x.
       answered (call (CreateUser (a_prims a) cx (token_of r) req) x) (\<lambda>v. writeJSON 201 (UserReply v))) r x"

definition handleListAccounts :: "api \<Rightarrow> ctx \<Rightarrow> http_handler" where
  "handleListAccounts a cx r x =
     answered (ask (ListAccounts (a_prims a) cx (token_of r)) x) (\<lambda>v. writeJSON 200 (AccountsReply v))"

definition handleMint :: "api \<Rightarrow> ctx \<Rightarrow> http_handler" where
  "handleMint a cx r x =
     with_body a decode_mint (\<lambda>req x.
       answered (call (MintOrPropose (a_prims a) cx (token_of r) req) x)
         (\<lambda>v. case mo_pending v of
                 Some pa \<Rightarrow> writeJSON 202 (ActionReply pa)
               | None \<Rightarrow> writeJSON 200 (AccountReply (mo_account v)))) r x"

definition handleSetPolicy :: "api \<Rightarrow> ctx \<Rightarrow> http_handler" where
  "handleSetPolicy a cx r x =
     with_body a decode_policy (\<lambda>req x.
       answered (call (SetPolicy (a_prims a) cx (token_of r) (rq_id r) req) x)
         (\<lambda>v. case po_pending v of
                 Some pa \<Rightarrow> writeJSON 202 (ActionReply pa)
               | None \<Rightarrow> writeJSON 200 (ColonyReply (po_colony v)))) r x"

definition handleListApprovals :: "api \<Rightarrow> ctx \<Rightarrow> http_handler" where
  "handleListApprovals a cx r x =
     answered (ask (ListApprovals (a_prims a) cx (token_of r)) x) (\<lambda>v. writeJSON 200 (ActionsReply v))"

definition decide :: "api \<Rightarrow> ctx \<Rightarrow> bool \<Rightarrow> http_handler" where
  "decide a cx approve r x =
     answered (call (DecideApproval (a_prims a) cx (token_of r) (rq_id r) approve) x)
       (\<lambda>v. writeJSON 200 (ActionReply v))"

definition handleApprove :: "api \<Rightarrow> ctx \<Rightarrow> http_handler" where
  "handleApprove a cx r x = decide a cx True r x"

definition handleReject :: "api \<Rightarrow> ctx \<Rightarrow> http_handler" where
  "handleReject a cx r x = decide a cx False r x"

section \<open>Trades, relay and ledger\<close>

definition handleCancelTrade :: "api \<Rightarrow> ctx \<Rightarrow> http_handler" where
  "handleCancelTrade a cx r x =
     answered (call (CancelTrade (a_prims a) cx (token_of r) (rq_id r)) x) (\<lambda>v. writeJSON 200 (TradeReply v))"

definition handleForceRefund :: "api \<Rightarrow> ctx \<Rightarrow> http_handler" where
  "handleForceRefund a cx r x =
     answered (call (ProposeForceRefund (a_prims a) cx (token_of r) (rq_id r)) x)
       (\<lambda>v. writeJSON 202 (ActionReply v))"

definition handleListTrades :: "api \<Rightarrow> ctx \<Rightarrow> http_handler" where
  "handleListTrades a cx r x =
     answered (ask (ListTrades (a_prims a) cx (token_of r)) x) (\<lambda>v. writeJSON 200 (TradesReply v))"

definition handleGetTrade :: "api \<Rightarrow> ctx \<Rightarrow> http_handler" where
  "handleGetTrade a cx r x =
     answered (ask (GetTrade (a_prims a) cx (token_of r) (rq_id r)) x) (\<lambda>v. writeJSON 200 (TradeReply v))"

definition handleCreateOffer :: "api \<Rightarrow> ctx \<Rightarrow> http_handler" where
  "handleCreateOffer a cx r x =
     with_body a decode_create_offer (\<lambda>req x.
       answered (call (CreateOffer (a_prims a) cx (token_of r) req) x) (\<lambda>v. writeJSON 201 (TradeReply v))) r x"

definition handleAcceptTrade :: "api \<Rightarrow> ctx \<Rightarrow> http_handler" where
  "handleAcceptTrade a cx r x =
     answered (call (AcceptTrade (a_prims a) cx (token_of r) (rq_id r)) x) (\<lambda>v. writeJSON 200 (TradeReply v))"

definition handleExportBundle :: "api \<Rightarrow> ctx \<Rightarrow> http_handler" where
  "handleExportBundle a cx r x =
     with_body a decode_export_bundle (\<lambda>(colony, to) x.
       answered (call (ExportBundle (a_prims a) cx (token_of r) colony to) x)
         (\<lambda>v. writeJSON 200 (BundleReply v))) r x"

definition handleImportBundle :: "api \<Rightarrow> ctx \<Rightarrow> http_handler" where
  "handleImportBundle a cx r x =
     with_body a decode_import_bundle (\<lambda>(colony, b) x.
       answered (call (ImportBundle (a_prims a) cx (token_of r) colony b) x)
         (\<lambda>v. writeJSON 200 (ImportReply v))) r x"

text \<open>\<open>strconv.ParseInt(s, 10, 64)\<close>, which \<open>strconv.Atoi\<close> is on 64-bit machines.\<close>

definition parse_digits :: "string \<Rightarrow> nat option" where
  "parse_digits s = (if s \<noteq> [] \<and> list_all is_digit s then Some (digits_val 0 s) else None)"

definition parse_int64 :: "string \<Rightarrow> int option" where
  "parse_int64 s =
     (let neg = has_prefix s ''-'';
          body = (if neg \<or> has_prefix s ''+'' then tl s else s)
      in case parse_digits body of
           None \<Rightarrow> None
         | Some n \<Rightarrow> (let i = (if neg then - int n else int n) in if in_int64 i then Some i else None))"

definition handleListLedger :: "api \<Rightarrow> ctx \<Rightarrow> http_handler" where
  "handleListLedger a cx r x =
     (let colonyID = gget [] (rq_query r) ''colony_id'';
          raw_limit = gget [] (rq_query r) ''limit'';
          raw_before = gget [] (rq_query r) ''before_seq''
      in case (if raw_limit = [] then Some 0 else parse_int64 raw_limit) of
           None \<Rightarrow> writeError (AppErr (BadRequest ''invalid limit'')) x
         | Some limit \<Rightarrow>
             (case (if raw_before = [] then Some 0 else parse_int64 raw_before) of
                None \<Rightarrow> writeError (AppErr (BadRequest ''invalid before_seq'')) x
              | Some beforeSeq \<Rightarrow>
                  if beforeSeq < 0 then writeError (AppErr (BadRequest ''invalid before_seq'')) x
                  else answered (ask (ListLedgerPage (a_prims a) cx (token_of r) colonyID limit beforeSeq) x)
                         (\<lambda>v. writeJSON 200 (LedgerReply v))))"

section \<open>The routing table\<close>

definition securityRoutes :: "api \<Rightarrow> ctx \<Rightarrow> (string \<times> string \<times> http_handler) list" where
  "securityRoutes a cx =
    [(''POST'', ''/api/v1/auth/mfa/enroll'', handleMFAEnroll a cx),
     (''POST'', ''/api/v1/auth/mfa/confirm'', handleMFAConfirm a cx),
     (''POST'', ''/api/v1/auth/password'', handleChangePassword a cx),
     (''POST'', ''/api/v1/auth/reset-password'', handleCompleteReset a cx),
     (''POST'', ''/api/v1/users/{id}/reset-password'', handleIssueReset a cx),
     (''POST'', ''/api/v1/users/{id}/mfa/reset'', handleResetMFA a cx),
     (''POST'', ''/api/v1/users/{id}/active'', handleSetActive a cx),
     (''POST'', ''/api/v1/users/{id}/roles'', handleSetRoles a cx)]"

definition routes :: "api \<Rightarrow> ctx \<Rightarrow> (string \<times> string \<times> http_handler) list" where
  "routes a cx =
    [(''GET'', ''/api/v1/healthz'', handleHealthz),
     (''GET'', ''/api/v1/readyz'', handleReadyz a),
     (''GET'', ''/api/v1/bootstrap'', handleNeedsBootstrap),
     (''POST'', ''/api/v1/auth/bootstrap'', handleBootstrap a cx),
     (''POST'', ''/api/v1/auth/login'', handleLogin a cx),
     (''POST'', ''/api/v1/auth/logout'', handleLogout a cx),
     (''GET'', ''/api/v1/auth/me'', handleMe a cx)] @
    securityRoutes a cx @
    [(''GET'', ''/api/v1/dashboard'', handleDashboard a cx),
     (''GET'', ''/api/v1/colonies'', handleListColonies a cx),
     (''POST'', ''/api/v1/colonies'', handleCreateColony a cx),
     (''POST'', ''/api/v1/colonies/{id}/trust'', handleTrustPeer a cx),
     (''GET'', ''/api/v1/users'', handleListUsers a cx),
     (''POST'', ''/api/v1/users'', handleCreateUser a cx),
     (''GET'', ''/api/v1/accounts'', handleListAccounts a cx),
     (''POST'', ''/api/v1/accounts/mint'', handleMint a cx),
     (''GET'', ''/api/v1/trades'', handleListTrades a cx),
     (''GET'', ''/api/v1/trades/{id}'', handleGetTrade a cx),
     (''POST'', ''/api/v1/trades/offers'', handleCreateOffer a cx),
     (''POST'', ''/api/v1/trades/{id}/accept'', handleAcceptTrade a cx),
     (''POST'', ''/api/v1/trades/{id}/cancel'', handleCancelTrade a cx),
     (''POST'', ''/api/v1/trades/{id}/force-refund'', handleForceRefund a cx),
     (''POST'', ''/api/v1/colonies/{id}/policy'', handleSetPolicy a cx),
     (''GET'', ''/api/v1/approvals'', handleListApprovals a cx),
     (''POST'', ''/api/v1/approvals/{id}/approve'', handleApprove a cx),
     (''POST'', ''/api/v1/approvals/{id}/reject'', handleReject a cx),
     (''POST'', ''/api/v1/relay/export'', handleExportBundle a cx),
     (''POST'', ''/api/v1/relay/import'', handleImportBundle a cx),
     (''GET'', ''/api/v1/ledger'', handleListLedger a cx)]"

section \<open>The mux\<close>

text \<open>
  \<open>http.ServeMux\<close>, as far as patterns of literal segments and \<open>{id}\<close> need it.  Paths are taken without
  percent escapes.  A path that is not clean is redirected to its clean form.
\<close>

fun split_on :: "char \<Rightarrow> string \<Rightarrow> string list" where
  "split_on c [] = [[]]"
| "split_on c (x # xs) =
     (if x = c then [] # split_on c xs
      else case split_on c xs of [] \<Rightarrow> [[x]] | s # ss \<Rightarrow> (x # s) # ss)"

definition clean_step :: "string list \<Rightarrow> string \<Rightarrow> string list" where
  "clean_step acc seg =
     (if seg = [] \<or> seg = ''.'' then acc else if seg = ''..'' then butlast acc else acc @ [seg])"

definition clean_path :: "string \<Rightarrow> string" where
  "clean_path p =
     (let segs = foldl clean_step [] (split_on (CHR ''/'') p);
          np = ''/'' @ join ''/'' segs
      in if p \<noteq> [] \<and> last p = CHR ''/'' \<and> segs \<noteq> [] then np @ ''/'' else np)"

fun match_segments :: "string list \<Rightarrow> string list \<Rightarrow> string \<Rightarrow> string option" where
  "match_segments [] [] i = Some i"
| "match_segments (p # ps) (s # ss) i =
     (if p = ''{id}'' then (if s = [] then None else match_segments ps ss s)
      else if p = s then match_segments ps ss i else None)"
| "match_segments _ _ i = None"

definition method_matches :: "string \<Rightarrow> string \<Rightarrow> bool" where
  "method_matches pat m \<longleftrightarrow> pat = m \<or> (pat = ''GET'' \<and> m = ''HEAD'')"

fun find_route :: "string \<Rightarrow> string list \<Rightarrow> (string \<times> string \<times> http_handler) list \<Rightarrow>
    (string \<times> string \<times> http_handler) option" where
  "find_route m segs [] = None"
| "find_route m segs ((pm, pp, h) # rs) =
     (if method_matches pm m
      then (case match_segments (split_on (CHR ''/'') pp) segs [] of
              Some i \<Rightarrow> Some (pm @ '' '' @ pp, i, h)
            | None \<Rightarrow> find_route m segs rs)
      else find_route m segs rs)"

definition spaFileServer :: "static_files \<Rightarrow> http_handler" where
  "spaFileServer fs r x =
     (if is_file fs (clean_path (rq_path r))
      then (WriteHeader (file_status fs r)
             (set_header ''Cache-Control'' (if has_prefix (rq_path r) ''/assets/''
                then ''public, max-age=31536000, immutable'' else ''no-cache'') x))\<lparr>x_body := FileReply\<rparr>
      else if has_prefix (rq_path r) ''/api/''
      then (WriteHeader 404 x)\<lparr>x_body := PlainText ''404 page not found''\<rparr>
      else (WriteHeader (index_status fs r) (set_header ''Cache-Control'' ''no-cache'' x))\<lparr>x_body := FileReply\<rparr>)"

definition mux :: "api \<Rightarrow> ctx \<Rightarrow> http_handler" where
  "mux a cx r x =
     (let path = (if rq_method r = ''CONNECT'' then rq_path r else clean_path (rq_path r));
          segs = split_on (CHR ''/'') path;
          hit = find_route (rq_method r) segs (routes a cx);
          pattern = (case hit of Some (p, i, h) \<Rightarrow> p | None \<Rightarrow> if a_static a = None then [] else ''/'')
      in if path \<noteq> rq_path r
         then (WriteHeader 301 (set_header ''Location'' path (x\<lparr>x_pattern := pattern\<rparr>)))
         else case hit of
           Some (p, i, h) \<Rightarrow> h (r\<lparr>rq_id := i\<rparr>) (x\<lparr>x_pattern := pattern\<rparr>)
         | None \<Rightarrow>
             (case a_static a of
                Some fs \<Rightarrow> spaFileServer fs r (x\<lparr>x_pattern := pattern\<rparr>)
              | None \<Rightarrow>
                  if list_ex (\<lambda>(pm, pp, h). match_segments (split_on (CHR ''/'') pp) segs [] \<noteq> None) (routes a cx)
                  then (WriteHeader 405 x)\<lparr>x_body := PlainText ''Method Not Allowed''\<rparr>
                  else (WriteHeader 404 x)\<lparr>x_body := PlainText ''404 page not found''\<rparr>))"

section \<open>The server\<close>

text \<open>What the process keeps between requests: the state, and what it has told about the requests so far.\<close>

record server =
  sv_state :: app_state
  sv_log :: "audit_event list"
  sv_metrics :: metrics

definition accept_conn :: "server \<Rightarrow> exch" where
  "accept_conn sv =
     \<lparr>x_state = sv_state sv, x_log = sv_log sv, x_metrics = sv_metrics sv,
      x_info = \<lparr>ri_request_id = [], ri_trace_id = [], ri_span_id = [], ri_ip = [], ri_user_id = [], ri_route = []\<rparr>,
      x_pattern = [], x_header = [], x_cookies = [], x_status = 0, x_body = NoReply, x_panic = None\<rparr>"

definition Handler :: "api \<Rightarrow> ctx \<Rightarrow> (nat \<Rightarrow> string) \<Rightarrow> int \<Rightarrow> http_handler" where
  "Handler a cx rnd dur =
     withObs a cx rnd dur (withSecurityHeaders a (withBodyLimit (withCORS a (withSession a (mux a cx)))))"

definition ServeHTTP :: "api \<Rightarrow> ctx \<Rightarrow> (nat \<Rightarrow> string) \<Rightarrow> int \<Rightarrow> http_request \<Rightarrow> server \<Rightarrow> exch" where
  "ServeHTTP a cx rnd dur r sv = Handler a cx rnd dur r (accept_conn sv)"

definition after_exch :: "exch \<Rightarrow> server" where
  "after_exch x = \<lparr>sv_state = x_state x, sv_log = x_log x, sv_metrics = x_metrics x\<rparr>"

end
