(* ===== verification/Gateway.thy ===== *)
theory Gateway
  imports Handlers System
begin

text \<open>
  What the HTTP layer guarantees.  Every exchange leaves the state alone or is one request of the
  state machine of theory \<open>System\<close>, so whatever holds of the reachable states holds of a server that
  is only driven over HTTP.
\<close>

section \<open>What the parts of a handler leave alone\<close>

named_theorems x_frame \<open>the state under the operations that write the response\<close>

lemma state_set_header [x_frame]: "x_state (set_header k v x) = x_state x"
  by (simp add: set_header_def)

lemma state_WriteHeader [x_frame]: "x_state (WriteHeader st x) = x_state x"
  by (simp add: WriteHeader_def)

lemma state_writeJSON [x_frame]: "x_state (writeJSON st v x) = x_state x"
  by (simp add: writeJSON_def x_frame)

lemma state_writeError [x_frame]: "x_state (writeError err x) = x_state x"
  by (cases err) (simp_all add: x_frame)

lemma state_audit [x_frame]: "x_state (audit ev oc kv x) = x_state x"
  by (simp add: audit_def Let_def)

lemma state_set_actor [x_frame]: "x_state (set_actor i x) = x_state x"
  by (simp add: set_actor_def)

lemma state_respondAuth [x_frame]: "x_state (respondAuth a r st v x) = x_state x"
  by (simp add: respondAuth_def x_frame)

lemma state_clearSessionCookie [x_frame]: "x_state (clearSessionCookie a r x) = x_state x"
  by (simp add: clearSessionCookie_def)

lemma state_failed: "(\<And>err x. x_state (note err x) = x_state x) \<Longrightarrow> x_state (failed err note x) = x_state x"
  by (cases err) (simp_all add: x_frame)

lemma state_noted:
  assumes "\<And>err x. x_state (note err x) = x_state x" and "\<And>v x. x_state (rest v x) = x_state x"
  shows "x_state (noted note rx rest) = x_state (snd rx)"
  by (cases rx; cases "fst rx") (auto simp: noted_def state_failed assms)

lemma state_call [simp]: "x_state (snd (call f x)) = snd (f (x_state x))"
  by (simp add: call_def split: prod.split)

lemma state_ask [simp]: "x_state (snd (ask f x)) = x_state x"
  by (simp add: ask_def)

section \<open>Every exchange is a request of the state machine or nothing\<close>

text \<open>The bootstrap request is only for those who present the token.\<close>

definition entitled :: "api \<Rightarrow> http_request \<Rightarrow> request \<Rightarrow> bool" where
  "entitled a r req \<longleftrightarrow> (case req of ReqBootstrap b \<Rightarrow> bootstrapAllowed a r | _ \<Rightarrow> True)"

definition effect :: "api \<Rightarrow> ctx \<Rightarrow> http_request \<Rightarrow> exch \<Rightarrow> exch \<Rightarrow> bool" where
  "effect a cx r x x' \<longleftrightarrow> x_state x' = x_state x \<or>
     (\<exists>req. entitled a r req \<and> x_state x' = serve (a_prims a) cx req (x_state x))"

lemma effect_same: "x_state x' = x_state x \<Longrightarrow> effect a cx r x x'"
  by (simp add: effect_def)

lemma effect_serve: "x_state x' = serve (a_prims a) cx req (x_state x) \<Longrightarrow> entitled a r req \<Longrightarrow> effect a cx r x x'"
  by (auto simp: effect_def)

text \<open>A handler that decodes a body, makes one call of the service and reports on it.\<close>

lemma effect_with_body:
  "(\<And>req x. effect a cx r x (rest req x)) \<Longrightarrow> effect a cx r x (with_body a dec rest r x)"
  by (simp add: with_body_def effect_def x_frame split: sum.split)

lemma effect_noted:
  assumes "\<And>err x. x_state (note err x) = x_state x" and "\<And>v x. x_state (rest v x) = x_state x"
    and "snd (f (x_state x)) = serve (a_prims a) cx req (x_state x)" and "entitled a r req"
  shows "effect a cx r x (noted note (call f x) rest)"
  by (rule effect_serve [OF _ assms(4)]) (simp add: state_noted assms(1-3))

lemma reads_noted:
  "(\<And>v x. x_state (rest v x) = x_state x) \<Longrightarrow> x_state (answered (ask f x) rest) = x_state x"
  by (simp add: state_noted)

definition read_only :: "http_handler \<Rightarrow> bool" where
  "read_only h \<longleftrightarrow> (\<forall>r x. x_state (h r x) = x_state x)"

definition serving :: "api \<Rightarrow> ctx \<Rightarrow> http_handler \<Rightarrow> bool" where
  "serving a cx h \<longleftrightarrow> (\<forall>r x. effect a cx r x (h r x))"

lemmas read_handler_defs = handleHealthz_def handleReadyz_def handleNeedsBootstrap_def handleMe_def handleDashboard_def
  handleListColonies_def handleListUsers_def handleListAccounts_def handleListApprovals_def handleListTrades_def
  handleGetTrade_def handleListLedger_def

lemma read_only_handlers:
  "read_only handleHealthz" "read_only (handleReadyz a)" "read_only handleNeedsBootstrap" "read_only (handleMe a cx)"
  "read_only (handleDashboard a cx)" "read_only (handleListColonies a cx)" "read_only (handleListUsers a cx)"
  "read_only (handleListAccounts a cx)" "read_only (handleListApprovals a cx)" "read_only (handleListTrades a cx)"
  "read_only (handleGetTrade a cx)" "read_only (handleListLedger a cx)"
  by (simp_all add: read_only_def read_handler_defs x_frame reads_noted Let_def split: option.split)

lemma serving_read_only: "read_only h \<Longrightarrow> serving a cx h"
  by (simp add: read_only_def serving_def effect_same)

lemma serving_bootstrap: "serving a cx (handleBootstrap a cx)"
proof -
  have "effect a cx r x (handleBootstrap a cx r x)" for r x
  proof (cases "bootstrapAllowed a r")
    case True
    then show ?thesis unfolding handleBootstrap_def
      by simp (rule effect_with_body effect_noted [where req = "ReqBootstrap _"] | simp add: x_frame entitled_def)+
  next
    case False
    then show ?thesis by (simp add: handleBootstrap_def effect_same x_frame)
  qed
  then show ?thesis by (simp add: serving_def)
qed

lemma serving_login: "serving a cx (handleLogin a cx)"
  by (auto simp: serving_def handleLogin_def x_frame Let_def entitled_def
      intro!: effect_with_body effect_noted [where req = "ReqLogin _"])

text \<open>The other handlers follow the pattern of a call, with and without a body.\<close>

lemma serving_calls:
  assumes "\<And>r x. h r x = noted (note r) (call (f r) x) (rest r)"
    and "\<And>r err x. x_state (note r err x) = x_state x" and "\<And>r v x. x_state (rest r v x) = x_state x"
    and "\<And>r s. snd (f r s) = serve (a_prims a) cx (req r) s" and "\<And>r. entitled a r (req r)"
  shows "serving a cx h"
  using assms(2-5) by (auto simp: serving_def assms(1) intro!: effect_noted)

lemma serving_calls_body:
  assumes "\<And>r x. h r x = with_body a dec (\<lambda>b x. noted (note r b) (call (f r b) x) (rest r b)) r x"
    and "\<And>r b err x. x_state (note r b err x) = x_state x" and "\<And>r b v x. x_state (rest r b v x) = x_state x"
    and "\<And>r b s. snd (f r b s) = serve (a_prims a) cx (req r b) s" and "\<And>r b. entitled a r (req r b)"
  shows "serving a cx h"
  using assms(2-5) by (auto simp: serving_def assms(1) intro!: effect_with_body effect_noted)

lemma serving_handlers:
  "serving a cx (handleLogout a cx)" "serving a cx (handleMFAEnroll a cx)" "serving a cx (handleIssueReset a cx)"
  "serving a cx (handleResetMFA a cx)" "serving a cx (handleCancelTrade a cx)" "serving a cx (handleForceRefund a cx)"
  "serving a cx (handleAcceptTrade a cx)" "serving a cx (handleApprove a cx)" "serving a cx (handleReject a cx)"
  by (rule serving_calls [OF handleLogout_def, where req = "\<lambda>r. ReqLogout (requestToken r)"]
      serving_calls [OF handleMFAEnroll_def, where req = "\<lambda>r. ReqEnrollMFA (token_of r)"]
      serving_calls [OF handleIssueReset_def, where req = "\<lambda>r. ReqIssueReset (token_of r) (rq_id r)"]
      serving_calls [OF handleResetMFA_def, where req = "\<lambda>r. ReqResetMFA (token_of r) (rq_id r)"]
      serving_calls [OF handleCancelTrade_def, where req = "\<lambda>r. ReqCancelTrade (token_of r) (rq_id r)"]
      serving_calls [OF handleForceRefund_def, where req = "\<lambda>r. ReqProposeForceRefund (token_of r) (rq_id r)"]
      serving_calls [OF handleAcceptTrade_def, where req = "\<lambda>r. ReqAcceptTrade (token_of r) (rq_id r)"]
      serving_calls [OF handleApprove_def [unfolded decide_def], where req = "\<lambda>r. ReqDecideApproval (token_of r) (rq_id r) True"]
      serving_calls [OF handleReject_def [unfolded decide_def], where req = "\<lambda>r. ReqDecideApproval (token_of r) (rq_id r) False"];
    simp add: x_frame entitled_def)+

lemma with_body_pair:
  "with_body a dec (\<lambda>(b, c) x. F b c x) r x = with_body a dec (\<lambda>p x. F (fst p) (snd p) x) r x"
  by (simp add: case_prod_beta' with_body_def)

lemma serving_body_handlers:
  "serving a cx (handleMFAConfirm a cx)" "serving a cx (handleSetRoles a cx)" "serving a cx (handleCreateColony a cx)"
  "serving a cx (handleTrustPeer a cx)" "serving a cx (handleCreateUser a cx)" "serving a cx (handleCreateOffer a cx)"
  "serving a cx (handleMint a cx)" "serving a cx (handleSetPolicy a cx)" "serving a cx (handleSetActive a cx)"
  "serving a cx (handleChangePassword a cx)" "serving a cx (handleCompleteReset a cx)"
  "serving a cx (handleExportBundle a cx)" "serving a cx (handleImportBundle a cx)"
  by (rule serving_calls_body [OF handleMFAConfirm_def, where req = "\<lambda>r. ReqConfirmMFA (token_of r)"]
      serving_calls_body [OF handleSetRoles_def, where req = "\<lambda>r. ReqSetUserRoles (token_of r) (rq_id r)"]
      serving_calls_body [OF handleCreateColony_def, where req = "\<lambda>r. ReqCreateColony (token_of r)"]
      serving_calls_body [OF handleTrustPeer_def, where req = "\<lambda>r. ReqTrustPeer (token_of r) (rq_id r)"]
      serving_calls_body [OF handleCreateUser_def, where req = "\<lambda>r. ReqCreateUser (token_of r)"]
      serving_calls_body [OF handleCreateOffer_def, where req = "\<lambda>r. ReqCreateOffer (token_of r)"]
      serving_calls_body [OF handleMint_def, where req = "\<lambda>r. ReqMintOrPropose (token_of r)"]
      serving_calls_body [OF handleSetPolicy_def, where req = "\<lambda>r. ReqSetPolicy (token_of r) (rq_id r)"]
      serving_calls_body [OF handleSetActive_def [unfolded Let_def], where req = "\<lambda>r. ReqSetUserActive (token_of r) (rq_id r)"]
      serving_calls_body [OF handleChangePassword_def [unfolded with_body_pair],
        where req = "\<lambda>r b. ReqChangePassword (token_of r) (fst b) (snd b)"]
      serving_calls_body [OF handleCompleteReset_def [unfolded with_body_pair],
        where req = "\<lambda>r b. ReqCompleteReset (fst b) (snd b)"]
      serving_calls_body [OF handleExportBundle_def [unfolded with_body_pair],
        where req = "\<lambda>r b. ReqExportBundle (token_of r) (fst b) (snd b)"]
      serving_calls_body [OF handleImportBundle_def [unfolded with_body_pair],
        where req = "\<lambda>r b. ReqImportBundle (token_of r) (fst b) (snd b)"];
    simp add: x_frame entitled_def split: option.split)+

text \<open>Every route is read-only when its method is \<open>GET\<close>, and a \<open>POST\<close> serves one request.\<close>

lemma routes_ok:
  "list_all (\<lambda>(m, p, h). serving a cx h \<and> (m = ''POST'' \<or> m = ''GET'' \<and> read_only h)) (routes a cx)"
  by (simp add: routes_def securityRoutes_def serving_bootstrap serving_login serving_handlers serving_body_handlers
      read_only_handlers serving_read_only)

lemma find_route_member:
  "find_route m segs rs = Some (p, i, h) \<Longrightarrow> list_all (\<lambda>(pm, pp, h). method_matches pm m \<longrightarrow> P pm h) rs \<Longrightarrow>
   \<exists>pm. method_matches pm m \<and> P pm h"
  by (induction rs) (auto split: if_splits option.splits)

section \<open>The chain of middlewares\<close>

text \<open>What the next handler sees of a request: only \<open>Authorization\<close>, the body and the id are changed.\<close>

definition same_request :: "http_request \<Rightarrow> http_request \<Rightarrow> bool" where
  "same_request r r' \<longleftrightarrow> rq_method r' = rq_method r \<and> rq_path r' = rq_path r \<and>
     header r' ''X-Bootstrap-Token'' = header r ''X-Bootstrap-Token''"

lemma same_request_refl [simp]: "same_request r r"
  by (simp add: same_request_def)

lemma same_request_changes [simp]:
  "same_request r (r'\<lparr>rq_body := b\<rparr>) = same_request r r'" "same_request r (r'\<lparr>rq_id := i\<rparr>) = same_request r r'"
  "same_request r (r'\<lparr>rq_header := AList.update ''Authorization'' v (rq_header r')\<rparr>) = same_request r r'"
  by (simp_all add: same_request_def header_def gget_def)

lemma entitled_same: "same_request r r' \<Longrightarrow> entitled a r' = entitled a r"
  by (rule ext) (auto simp: entitled_def bootstrapAllowed_def same_request_def split: request.split)

text \<open>An exchange that serves at most one request, and only when the method is \<open>POST\<close>.\<close>

definition one_request :: "api \<Rightarrow> ctx \<Rightarrow> http_request \<Rightarrow> exch \<Rightarrow> exch \<Rightarrow> bool" where
  "one_request a cx r x x' \<longleftrightarrow> effect a cx r x x' \<and> (x_state x' \<noteq> x_state x \<longrightarrow> rq_method r = ''POST'')"

lemma one_request_same: "x_state x' = x_state x \<Longrightarrow> one_request a cx r x x'"
  by (simp add: one_request_def effect_same)

lemma one_request_frame:
  "one_request a cx r x x' \<Longrightarrow> x_state x = x_state y \<Longrightarrow> x_state x' = x_state y' \<Longrightarrow> one_request a cx r y y'"
  by (simp add: one_request_def effect_def)

lemma one_request_request: "one_request a cx r' x x' \<Longrightarrow> same_request r r' \<Longrightarrow> one_request a cx r x x'"
  using entitled_same [of r r' a] by (auto simp: one_request_def effect_def same_request_def)

lemma mux_one_request: "one_request a cx r x (mux a cx r x)"
proof -
  let ?path = "if rq_method r = ''CONNECT'' then rq_path r else clean_path (rq_path r)"
  let ?hit = "find_route (rq_method r) (split_on (CHR ''/'') ?path) (routes a cx)"
  have files: "x_state (spaFileServer fs r y) = x_state y" for fs y
    by (simp add: spaFileServer_def x_frame)
  show ?thesis
  proof (cases "?path \<noteq> rq_path r \<or> ?hit = None")
    case True
    then show ?thesis
      by (intro one_request_same) (auto simp: mux_def Let_def x_frame files split: option.splits)
  next
    case False
    then obtain p i h where hit: "?path = rq_path r" "?hit = Some (p, i, h)" by auto
    have "\<exists>pm. method_matches pm (rq_method r) \<and> serving a cx h \<and> (pm = ''POST'' \<or> pm = ''GET'' \<and> read_only h)"
      by (rule find_route_member [OF hit(2), where P = "\<lambda>m h. serving a cx h \<and> (m = ''POST'' \<or> m = ''GET'' \<and> read_only h)"])
        (use routes_ok [of a cx] in \<open>auto simp: list_all_iff\<close>)
    then have h: "serving a cx h" "rq_method r = ''POST'' \<or> read_only h"
      by (auto simp: method_matches_def)
    let ?r = "r\<lparr>rq_id := i\<rparr>" and ?x = "x\<lparr>x_pattern := p\<rparr>"
    from h have "one_request a cx ?r ?x (h ?r ?x)"
      by (auto simp: one_request_def serving_def read_only_def)
    then have "one_request a cx r x (h ?r ?x)"
      by (rule one_request_frame [OF one_request_request]) simp_all
    with hit show ?thesis by (simp add: mux_def Let_def)
  qed
qed

text \<open>A request that the session middleware refuses: a cookie, no header, a foreign origin.\<close>

definition forged :: "api \<Rightarrow> http_request \<Rightarrow> bool" where
  "forged a r \<longleftrightarrow> header r ''Authorization'' = [] \<and> rq_session_cookie r \<noteq> None \<and> rq_session_cookie r \<noteq> Some [] \<and>
     isMutating (rq_method r) \<and> \<not> sameOrigin a r"

lemma withSession_forged:
  "forged a r \<Longrightarrow> withSession a next r x =
     writeJSON 403 (ErrorReply ''forbidden'' ''cross-origin request refused'')
       (audit ''csrf.blocked'' ''failure'' [(''origin'', JStr (header r ''Origin''))] x)"
  by (auto simp: withSession_def forged_def)

lemma withSession_passes:
  assumes "\<not> forged a r" and "\<And>r'. same_request r r' \<Longrightarrow> one_request a cx r' x (next r' x)"
  shows "one_request a cx r x (withSession a next r x)"
proof -
  have "\<exists>r'. same_request r r' \<and> withSession a next r x = next r' x"
    using assms(1)
    by (auto simp: withSession_def forged_def split: list.splits option.splits
        intro: exI [of _ r] exI [of _ "r\<lparr>rq_header := AList.update ''Authorization'' v (rq_header r)\<rparr>" for v])
  then show ?thesis using assms(2) one_request_request by metis
qed

definition chain :: "api \<Rightarrow> ctx \<Rightarrow> http_handler" where
  "chain a cx = withSecurityHeaders a (withBodyLimit (withCORS a (withSession a (mux a cx))))"

lemma Handler_chain: "Handler a cx rnd dur r x = withObs_after dur r (chain a cx r (withObs_before a cx rnd r x))"
  by (simp add: Handler_def withObs_def chain_def)

definition oversized :: "http_request \<Rightarrow> bool" where
  "oversized r \<longleftrightarrow> rq_content_length r > body_limit r"

text \<open>The middlewares before the session check only write headers; \<open>decorated\<close> is the exchange they hand on.\<close>

definition decorated :: "exch \<Rightarrow> exch \<Rightarrow> bool" where
  "decorated x y \<longleftrightarrow> (\<exists>h. y = x\<lparr>x_header := h\<rparr>)"

lemma decorated_refl [simp]: "decorated x x"
  by (auto simp: decorated_def intro: exI [of _ "x_header x"])

lemma decorated_set_header [simp]: "decorated x y \<Longrightarrow> decorated x (set_header k v y)"
  by (auto simp: decorated_def set_header_def)

lemma chain_cases:
  "\<exists>y. decorated x y \<and> chain a cx r x =
    (if oversized r then writeJSON 413 (ErrorReply ''payload_too_large'' ''request body too large'') y
     else if rq_method r = ''OPTIONS'' then WriteHeader 204 y
     else withSession a (mux a cx) (r\<lparr>rq_body := MaxBytesReader (body_limit r) (rq_body r)\<rparr>) y)"
proof -
  have cors: "\<exists>y'. decorated y y' \<and> withCORS a next r' y = (if rq_method r' = ''OPTIONS'' then WriteHeader 204 y' else next r' y')"
    for y r' "next"
    unfolding withCORS_def Let_def by (intro exI conjI) (auto simp del: decorated_set_header intro!: decorated_set_header)
  have "\<exists>y. decorated x y \<and> withSecurityHeaders a next r x = next r y" for "next"
    unfolding withSecurityHeaders_def Let_def by (intro exI conjI) (auto)
  then obtain y where y: "decorated x y" "chain a cx r x = withBodyLimit (withCORS a (withSession a (mux a cx))) r y"
    unfolding chain_def by blast
  show ?thesis
  proof (cases "oversized r")
    case True
    with y show ?thesis by (auto simp: withBodyLimit_def oversized_def)
  next
    case False
    let ?r = "r\<lparr>rq_body := MaxBytesReader (body_limit r) (rq_body r)\<rparr>"
    from False y have c: "chain a cx r x = withCORS a (withSession a (mux a cx)) ?r y"
      by (simp add: withBodyLimit_def oversized_def)
    obtain y' where "decorated y y'" "withCORS a (withSession a (mux a cx)) ?r y =
        (if rq_method ?r = ''OPTIONS'' then WriteHeader 204 y' else withSession a (mux a cx) ?r y')"
      using cors by blast
    moreover from y(1) \<open>decorated y y'\<close> have "decorated x y'" by (auto simp: decorated_def)
    ultimately show ?thesis using False c by auto
  qed
qed

lemma decorated_state: "decorated x y \<Longrightarrow> x_state y = x_state x"
  by (auto simp: decorated_def)

lemma forged_body [simp]: "forged a (r\<lparr>rq_body := b\<rparr>) = forged a r"
  by (simp add: forged_def sameOrigin_def header_def cong: option.case_cong)

lemma chain_one_request:
  "one_request a cx r x (chain a cx r x) \<and>
   (x_state (chain a cx r x) \<noteq> x_state x \<longrightarrow> \<not> oversized r \<and> \<not> forged a r)"
proof -
  let ?r = "r\<lparr>rq_body := MaxBytesReader (body_limit r) (rq_body r)\<rparr>"
  obtain y where y: "decorated x y" "chain a cx r x =
    (if oversized r then writeJSON 413 (ErrorReply ''payload_too_large'' ''request body too large'') y
     else if rq_method r = ''OPTIONS'' then WriteHeader 204 y
     else withSession a (mux a cx) ?r y)" using chain_cases by blast
  note st = decorated_state [OF y(1)]
  show ?thesis
  proof (cases "oversized r \<or> rq_method r = ''OPTIONS'' \<or> forged a r")
    case True
    then have "x_state (chain a cx r x) = x_state x" by (auto simp: y(2) x_frame st withSession_forged)
    then show ?thesis by (simp add: one_request_same)
  next
    case False
    then have "one_request a cx ?r y (withSession a (mux a cx) ?r y)"
      by (intro withSession_passes mux_one_request) auto
    then have "one_request a cx r y (withSession a (mux a cx) ?r y)" by (rule one_request_request) simp
    with False y st show ?thesis by (auto simp: one_request_def effect_def)
  qed
qed

lemma obs_state [x_frame]:
  "x_state (withObs_before a cx rnd r x) = x_state x" "x_state (withObs_after dur r x) = x_state x"
  by (simp_all add: withObs_before_def withObs_after_def Let_def x_frame)

lemma accept_conn_state [simp]: "x_state (accept_conn sv) = sv_state sv"
  by (simp add: accept_conn_def)

text \<open>The two facts about an exchange: it is one request or nothing, and what changes the state is a proper request.\<close>

theorem ServeHTTP_effect: "effect a cx r (accept_conn sv) (ServeHTTP a cx rnd dur r sv)"
  using chain_one_request [of a cx r "withObs_before a cx rnd r (accept_conn sv)"]
  by (simp add: one_request_def effect_def ServeHTTP_def Handler_chain x_frame)

theorem ServeHTTP_guard:
  "x_state (ServeHTTP a cx rnd dur r sv) \<noteq> sv_state sv \<Longrightarrow>
   rq_method r = ''POST'' \<and> \<not> oversized r \<and> \<not> forged a r"
  using chain_one_request [of a cx r "withObs_before a cx rnd r (accept_conn sv)"]
  by (simp add: one_request_def ServeHTTP_def Handler_chain x_frame)

section \<open>Servers driven over HTTP\<close>

text \<open>
  A server that starts empty, serves HTTP requests and sweeps expired offers in between.  The files,
  origins and tokens it is configured with may change with a restart, the primitives may not.
\<close>

inductive http_reachable :: "prims \<Rightarrow> server \<Rightarrow> bool" for pr where
  boot: "http_reachable pr \<lparr>sv_state = newEmptyState cx, sv_log = [], sv_metrics = NewMetrics\<rparr>"
| exchange: "http_reachable pr sv \<Longrightarrow> fresh_ids cx (sv_state sv) \<Longrightarrow> a_prims a = pr \<Longrightarrow>
    http_reachable pr (after_exch (ServeHTTP a cx rnd dur r sv))"
| sweep: "http_reachable pr sv \<Longrightarrow> fresh_ids cx (sv_state sv) \<Longrightarrow>
    http_reachable pr (sv\<lparr>sv_state := serve pr cx ReqSweep (sv_state sv)\<rparr>)"

lemma http_reachable_sound: "http_reachable pr sv \<Longrightarrow> reachable pr (sv_state sv)"
proof (induction rule: http_reachable.induct)
  case (exchange sv cx a rnd dur r)
  have "effect a cx r (accept_conn sv) (ServeHTTP a cx rnd dur r sv)" by (rule ServeHTTP_effect)
  moreover have "reachable pr (serve pr cx req (sv_state sv))" for req
    using exchange.IH exchange.hyps(2) by (rule reachable.next_step [OF _ step.request])
  ultimately show ?case using exchange by (auto simp: effect_def after_exch_def)
next
  case (sweep sv cx)
  from reachable.next_step [OF sweep.IH step.request [OF sweep.hyps(2), where r = ReqSweep]] show ?case by simp
qed (simp add: reachable.start)

section \<open>The first user\<close>

lemma no_users_no_actor:
  assumes "st_users s = []"
  obtains e e' where "\<And>tok. actorFromTokenNoMFA cx s tok = Inl (e tok)" "\<And>tok. actorFromToken pr cx s tok = Inl (e' tok)"
proof -
  have "\<forall>tok. \<exists>err. actorFromTokenNoMFA cx s tok = Inl err"
    using assms by (auto simp: actorFromTokenNoMFA_def split: option.splits)
  then obtain e where "\<And>tok. actorFromTokenNoMFA cx s tok = Inl (e tok)" by metis
  then show thesis by (intro that [of e e]) (auto simp: actorFromToken_def)
qed

lemma advance_at_users: "advance_at tk st s = Inr s' \<Longrightarrow> st_users s' = st_users s"
  by (auto simp: advance_at_def upd_trade_def split: sum.splits)

lemma sweep_users: "st_users (snd (sweep pr cx tks n s)) = st_users s"
  by (induction pr cx tks n s rule: sweep.induct)
    (auto simp: Let_def upd_colony_def advance_at_users split: sum.splits)

lemma SweepExpired_users: "st_users (snd (SweepExpired pr cx s)) = st_users s"
proof -
  have "st_users (snd (StoreUpdateScoped cx f s)) = st_users s" if "st_users (snd (f s)) = st_users s" for f :: "nat handler"
    using that by (auto simp: StoreUpdateScoped_def split: prod.splits sum.splits option.splits)
  then show ?thesis by (simp add: SweepExpired_def Let_def sweep_users)
qed

text \<open>Without users no token has an owner and no name can log in: only the bootstrap makes a user.\<close>

lemma serve_no_users:
  assumes "st_users s = []" and "\<And>b. req \<noteq> ReqBootstrap b"
  shows "st_users (serve pr cx req s) = []"
proof -
  obtain e e' where actor: "\<And>tok. actorFromTokenNoMFA cx s tok = Inl (e tok)"
    "\<And>tok. actorFromToken pr cx s tok = Inl (e' tok)" using no_users_no_actor [OF assms(1)] by blast
  note [simp] = StoreUpdateScoped_def StoreReadScoped_def actor assms(1) Let_def
  show ?thesis
  proof (cases req)
    case (ReqLogin l)
    show ?thesis unfolding ReqLogin
      by (simp add: Login_def Login_lookup_def findUserByUsername_def Login_failed_def zero_cred_def)
  next
    case (ReqImportBundle tok c b)
    then show ?thesis by (simp add: ImportBundle_def split: option.split)
  qed (use assms(2) in \<open>simp_all add: CreateColony_def TrustPeer_def CreateUser_def CreateUser_authorize_def Mint_def
      MintOrPropose_def mint_def SetPolicy_def ProposeForceRefund_def DecideApproval_def CreateOffer_def CreateOffer_update_def AcceptTrade_def AcceptTrade_update_def
      ExportBundle_def CancelTrade_def CancelTrade_update_def SweepExpired_users Logout_def EnrollMFA_def ConfirmMFA_def IssueResetToken_def
      CompleteReset_def ChangePassword_def ResetMFA_def SetUserActive_def SetUserRoles_def with_target_def valid_reset_def
      split: option.split sum.split\<close>)
qed

lemma ServeHTTP_no_users:
  assumes "st_users (sv_state sv) = []" and "\<not> bootstrapAllowed a r"
  shows "st_users (x_state (ServeHTTP a cx rnd dur r sv)) = []"
proof -
  from ServeHTTP_effect [of a cx r sv rnd dur] consider
      "x_state (ServeHTTP a cx rnd dur r sv) = sv_state sv"
    | req where "entitled a r req" "x_state (ServeHTTP a cx rnd dur r sv) = serve (a_prims a) cx req (sv_state sv)"
    by (auto simp: effect_def)
  then show ?thesis
  proof cases
    case (2 req)
    from 2(1) assms(2) have "\<And>b. req \<noteq> ReqBootstrap b" by (auto simp: entitled_def)
    with 2(2) assms(1) show ?thesis by (simp add: serve_no_users)
  qed (use assms in simp)
qed

section \<open>The audit trail\<close>

text \<open>What every part of a handler keeps: events are only added, the request is still the same one and in flight.\<close>

definition keeps :: "exch \<Rightarrow> exch \<Rightarrow> bool" where
  "keeps x x' \<longleftrightarrow> (\<exists>evs. x_log x' = x_log x @ evs) \<and> m_inflight (x_metrics x') = m_inflight (x_metrics x) \<and>
     ri_request_id (x_info x') = ri_request_id (x_info x) \<and> ri_trace_id (x_info x') = ri_trace_id (x_info x) \<and>
     ri_ip (x_info x') = ri_ip (x_info x)"

lemma keeps_trans: "keeps x y \<Longrightarrow> keeps y z \<Longrightarrow> keeps x z"
  by (auto simp: keeps_def)

lemma keeps_step:
  "keeps x x" "keeps x (set_header k v x)" "keeps x (WriteHeader st x)" "keeps x (writeJSON st rv x)"
  "keeps x (writeError err x)" "keeps x (audit ev oc kv x)" "keeps x (set_actor i x)" "keeps x (respondAuth a r st w x)"
  "keeps x (clearSessionCookie a r x)" "keeps x (snd (call f x))" "keeps x (x\<lparr>x_pattern := p\<rparr>)" "keeps x (x\<lparr>x_body := b\<rparr>)"
  "keeps x (x\<lparr>x_metrics := Inc nm kvs (x_metrics x)\<rparr>)" "keeps x (x\<lparr>x_header := hs\<rparr>)"
  "keeps x (x\<lparr>x_panic := pn\<rparr>)"
  by (cases err; simp add: keeps_def set_header_def WriteHeader_def writeJSON_def audit_def Let_def set_actor_def
      respondAuth_def clearSessionCookie_def call_def Inc_def split: prod.split)+

lemma keeps_then:
  assumes "keeps x y"
  shows "keeps x (set_header k v y)" "keeps x (WriteHeader st y)" "keeps x (writeJSON st v' y)"
    "keeps x (writeError err y)" "keeps x (audit ev oc kv y)" "keeps x (set_actor i y)" "keeps x (respondAuth a r st w y)"
    "keeps x (clearSessionCookie a r y)" "keeps x (y\<lparr>x_body := b\<rparr>)" "keeps x (y\<lparr>x_pattern := p\<rparr>)"
    "keeps x (y\<lparr>x_metrics := Inc nm kv' (x_metrics y)\<rparr>)" "keeps x (y\<lparr>x_panic := pn\<rparr>)"
  by (rule keeps_trans [OF assms] keeps_step)+

lemma keeps_failed: "(\<And>err y. keeps x y \<Longrightarrow> keeps x (note err y)) \<Longrightarrow> keeps x y \<Longrightarrow> keeps x (failed err note y)"
  by (cases err) (simp_all add: keeps_then)

lemma keeps_noted:
  assumes "keeps x (snd rx)" "\<And>err y. keeps x y \<Longrightarrow> keeps x (note err y)" "\<And>v y. keeps x y \<Longrightarrow> keeps x (rest v y)"
  shows "keeps x (noted note rx rest)"
  using assms by (cases rx; cases "fst rx") (auto simp: noted_def keeps_failed)

lemma keeps_ask [simp]: "keeps x (snd (ask f x))"
  by (simp add: ask_def keeps_step)

lemma keeps_body: "(\<And>req. keeps x (rest req x)) \<Longrightarrow> keeps x (with_body a dec rest r x)"
  by (simp add: with_body_def keeps_step split: sum.split)

definition keeping :: "http_handler \<Rightarrow> bool" where
  "keeping h \<longleftrightarrow> (\<forall>r x. keeps x (h r x))"

lemmas call_handler_defs = handleLogout_def handleMFAEnroll_def handleMFAConfirm_def handleChangePassword_def
  handleCompleteReset_def handleIssueReset_def handleResetMFA_def handleSetActive_def handleSetRoles_def
  handleCreateColony_def handleTrustPeer_def handleCreateUser_def handleMint_def handleSetPolicy_def handleApprove_def
  handleReject_def decide_def handleCancelTrade_def handleForceRefund_def handleCreateOffer_def handleAcceptTrade_def
  handleExportBundle_def handleImportBundle_def handleBootstrap_def handleLogin_def

lemma keeping_routes: "list_all (\<lambda>(m, p, h). keeping h) (routes a cx)"
  by (simp add: routes_def securityRoutes_def keeping_def)
    (intro conjI allI; auto simp: read_handler_defs call_handler_defs Let_def keeps_step keeps_then
      intro!: keeps_noted keeps_body split: option.split prod.split)

lemma mux_keeps: "keeps x (mux a cx r x)"
proof -
  let ?path = "if rq_method r = ''CONNECT'' then rq_path r else clean_path (rq_path r)"
  let ?hit = "find_route (rq_method r) (split_on (CHR ''/'') ?path) (routes a cx)"
  have files: "keeps x (spaFileServer fs r y)" if "keeps x y" for fs y
    using that by (auto simp: spaFileServer_def intro!: keeps_then)
  have handler: "keeping h" if hit: "?hit = Some (p, i, h)" for p i h
  proof -
    have "list_all (\<lambda>(pm, pp, h). method_matches pm (rq_method r) \<longrightarrow> keeping h) (routes a cx)"
      using keeping_routes [of a cx] by (auto simp: list_all_iff)
    from find_route_member [OF hit this] show ?thesis by blast
  qed
  have "keeps x (h r' (x\<lparr>x_pattern := q\<rparr>))" if "?hit = Some (p, i, h)" for p i h r' q
    by (rule keeps_trans [OF keeps_step(11) [where p = q]]) (use handler [OF that] in \<open>simp add: keeping_def\<close>)
  then show ?thesis
    by (auto simp: mux_def Let_def keeps_then keeps_step files split: option.split)
qed

lemma withSession_keeps: "(\<And>r. keeps x (next r x)) \<Longrightarrow> keeps x (withSession a next r x)"
  by (auto simp: withSession_def keeps_step keeps_then split: list.split option.split)

lemma chain_keeps: "keeps x (chain a cx r x)"
proof -
  obtain y where y: "decorated x y" "chain a cx r x =
    (if oversized r then writeJSON 413 (ErrorReply ''payload_too_large'' ''request body too large'') y
     else if rq_method r = ''OPTIONS'' then WriteHeader 204 y
     else withSession a (mux a cx) (r\<lparr>rq_body := MaxBytesReader (body_limit r) (rq_body r)\<rparr>) y)" using chain_cases by blast
  from y(1) have "keeps x y" by (auto simp: decorated_def keeps_step)
  then show ?thesis
    by (simp add: y(2) keeps_then) (intro impI keeps_trans [OF _ withSession_keeps [OF mux_keeps]])
qed

text \<open>The event that ends the exchange of a mutating request, about the response \<open>x\<close> it got.\<close>

definition mutation_event :: "req_info \<Rightarrow> string \<Rightarrow> http_request \<Rightarrow> exch \<Rightarrow> audit_event" where
  "mutation_event ri uid r x =
     \<lparr>ev_event = ''http.mutation'', ev_outcome = outcomeOf (x_status x), ev_request_id = ri_request_id ri,
      ev_trace_id = ri_trace_id ri, ev_ip = ri_ip ri, ev_user_id = uid,
      ev_attrs = [(''route'', JStr (route_of (x_pattern x))), (''method'', JStr (rq_method r)),
        (''status'', JInt (int (x_status x)))]\<rparr>"

lemma ServeHTTP_log:
  shows "\<exists>evs uid. x_log (ServeHTTP a cx rnd dur r sv) = sv_log sv @ evs @
    (if audited r then [mutation_event (newReqInfo (a_lib a) rnd r) uid r (ServeHTTP a cx rnd dur r sv)] else [])"
    and "x_status (ServeHTTP a cx rnd dur r sv) \<noteq> 0"
    and "m_inflight (x_metrics (ServeHTTP a cx rnd dur r sv)) = m_inflight (sv_metrics sv)"
proof -
  let ?ri = "newReqInfo (a_lib a) rnd r"
  define x where "x = withObs_before a cx rnd r (accept_conn sv)"
  have x: "x_log x = sv_log sv" "m_inflight (x_metrics x) = m_inflight (sv_metrics sv) + 1"
    "ri_request_id (x_info x) = ri_request_id ?ri" "ri_trace_id (x_info x) = ri_trace_id ?ri" "ri_ip (x_info x) = ri_ip ?ri"
    by (simp_all add: x_def withObs_before_def Let_def accept_conn_def set_header_def)
  have "keeps x (chain a cx r x)" by (rule chain_keeps)
  then obtain evs where c: "x_log (chain a cx r x) = sv_log sv @ evs"
    "m_inflight (x_metrics (chain a cx r x)) = m_inflight (sv_metrics sv) + 1"
    "ri_request_id (x_info (chain a cx r x)) = ri_request_id ?ri" "ri_trace_id (x_info (chain a cx r x)) = ri_trace_id ?ri"
    "ri_ip (x_info (chain a cx r x)) = ri_ip ?ri"
    by (auto simp: keeps_def x)
  note defs = ServeHTTP_def Handler_chain x_def [symmetric] withObs_after_def Let_def writeJSON_def WriteHeader_def
    set_header_def audit_def Inc_def observe_def
  show "x_status (ServeHTTP a cx rnd dur r sv) \<noteq> 0" by (simp add: defs)
  show "m_inflight (x_metrics (ServeHTTP a cx rnd dur r sv)) = m_inflight (sv_metrics sv)" by (simp add: defs c)
  show "\<exists>evs uid. x_log (ServeHTTP a cx rnd dur r sv) = sv_log sv @ evs @
    (if audited r then [mutation_event ?ri uid r (ServeHTTP a cx rnd dur r sv)] else [])"
    by (rule exI [of _ evs], rule exI [of _ "ri_user_id (x_info (chain a cx r x))"])
      (simp add: defs c mutation_event_def)
qed

lemma http_reachable_idle: "http_reachable pr sv \<Longrightarrow> m_inflight (sv_metrics sv) = 0"
  by (induction rule: http_reachable.induct) (simp_all add: NewMetrics_def after_exch_def ServeHTTP_log(3))

end
