(* ===== verification/WebDemo.thy ===== *)
theory WebDemo
  imports Gateway Demo
begin

text \<open>A server on which the properties of the HTTP layer are exercised, and requests to it.\<close>

definition demo_lib :: net_lib where
  "demo_lib = \<lparr>parse_ip = (\<lambda>s. if s = ''127.0.0.1'' then Some \<lparr>ip_text = s, ip_trusted = True\<rparr> else None),
     url_host = (\<lambda>s. if has_prefix s ''https://'' then Some (drop 8 s) else None), json_error = (\<lambda>v. ''type error'')\<rparr>"

definition demo_api :: api where
  "demo_api = WithBootstrapToken ''boot'' (NewAPI demo_prims demo_lib ['' https://ui.example ''] None)"

definition demo_rnd :: "nat \<Rightarrow> string" where
  "demo_rnd n = replicate 16 (CHR ''r'')"

text \<open>A \<open>POST\<close> of a JSON value, with the given headers and session cookie.\<close>

definition demo_post :: "string \<Rightarrow> (string \<times> string) list \<Rightarrow> string option \<Rightarrow> json \<Rightarrow> http_request" where
  "demo_post path hs ck v =
     \<lparr>rq_method = ''POST'', rq_path = path, rq_query = [], rq_header = hs, rq_session_cookie = ck,
      rq_host = ''trade.example'', rq_remote_addr = ''127.0.0.1:4000'', rq_tls = False, rq_content_length = 100,
      rq_body = (100, Inr v), rq_id = []\<rparr>"

definition demo_server :: "app_state \<Rightarrow> server" where
  "demo_server s = \<lparr>sv_state = s, sv_log = [], sv_metrics = NewMetrics\<rparr>"

definition demo_serve :: "http_request \<Rightarrow> server \<Rightarrow> exch" where
  "demo_serve r sv = ServeHTTP demo_api (ctx_of (CHR ''a'')) demo_rnd 7000000 r sv"

definition bootstrap_post :: "string \<Rightarrow> http_request" where
  "bootstrap_post tok = demo_post ''/api/v1/auth/bootstrap'' [(''X-Bootstrap-Token'', tok), (''X-Session-Mode'', ''cookie'')] None
     (JObj [(''username'', JStr ''root''), (''password'', JStr ''password'')])"

definition logout_post :: "(string \<times> string) list \<Rightarrow> http_request" where
  "logout_post hs = demo_post ''/api/v1/auth/logout'' hs (Some ''buyer'') JNull"

lemma bootstrap_post_served:
  "let x = demo_serve (bootstrap_post ''boot'') (demo_server (newEmptyState demo_ctx))
   in x_status x = 201 \<and> length (st_users (x_state x)) = 1 \<and> map ev_event (x_log x) = [''auth.bootstrap'', ''http.mutation'']
     \<and> map ck_value (x_cookies x) = [admin_token] \<and> m_inflight (x_metrics x) = 0"
  by code_simp

lemma bootstrap_post_refused:
  "let x = demo_serve (bootstrap_post ''guess'') (demo_server (newEmptyState demo_ctx))
   in x_status x = 403 \<and> st_users (x_state x) = [] \<and> map ev_outcome (x_log x) = [''failure'', ''failure'']"
  by code_simp

text \<open>A logout that a foreign page triggers through the cookie is refused, unless it brings any other \<open>Authorization\<close>.\<close>

lemma forged_logout:
  "let x = demo_serve (logout_post [(''Origin'', ''https://evil.example'')]) (demo_server (demo_state StatusOfferReceived 60))
   in x_status x = 403 \<and> map fst (st_sessions (x_state x)) = [''seller'', ''buyer'', ''admin'']"
  by code_simp

lemma forged_logout_basic:
  "let x = demo_serve (logout_post [(''Origin'', ''https://evil.example''), (''Authorization'', ''Basic x'')])
         (demo_server (demo_state StatusOfferReceived 60))
   in x_status x = 200 \<and> map fst (st_sessions (x_state x)) = [''seller'', ''admin'']"
  by code_simp

lemma bootstrapped_reachable:
  "http_reachable demo_prims (after_exch (demo_serve (bootstrap_post ''boot'') (demo_server (newEmptyState demo_ctx))))"
  unfolding demo_serve_def demo_server_def
  by (rule http_reachable.exchange [OF http_reachable.boot])
    (auto intro: fresh_for_fresh_ids simp: fresh_for_def newEmptyState_def demo_api_def WithBootstrapToken_def NewAPI_def)

end
