(* ===== verification/Tables.thy ===== *)
theory Tables
  imports Queries Money
begin

text \<open>
  The PostgreSQL database behind the second store: the tables of \<open>storage/migrations/001_init.sql\<close>
  with their keys and checks, and the statements that \<open>storage/pg_persist.go\<close> sends.  A table is an
  association list from its primary key to the other columns, \<open>doc\<close> columns hold the struct their JSON
  text stands for, a \<open>timestamptz\<close> is a point in time.  Texts compare by bytes.  A statement returns the database after it or the
  error of the constraint it violates.
\<close>

section \<open>Tables\<close>

record colony_row =
  cr_name_lower :: string
  cr_doc :: colony

record user_row =
  ur_username_lower :: string
  ur_colony_id :: string
  ur_doc :: user

record session_row =
  sr_user_id :: string
  sr_expires_at :: int
  sr_doc :: session

record trade_row =
  tr_seller_user_id :: string
  tr_buyer_user_id :: string
  tr_seller_colony_id :: string
  tr_buyer_colony_id :: string
  tr_status :: trade_status
  tr_created_at :: string
  tr_expires_at :: "int option"
  tr_doc :: trade

record action_row =
  pr_colony_id :: string
  pr_trade_id :: string
  pr_user_id :: string
  pr_status :: string
  pr_proposed_at :: string
  pr_doc :: pending_action

record outbox_row =
  or_colony_id :: string
  or_to_colony_id :: string
  or_doc :: envelope

text \<open>\<open>db_outbox\<close> is in the order of its serial column \<open>ord\<close>, with the unique envelope id as the key.\<close>

record db =
  db_colonies :: "colony_row gmap"
  db_users :: "user_row gmap"
  db_sessions :: "session_row gmap"
  db_trades :: "trade_row gmap"
  db_actions :: "action_row gmap"
  db_accounts :: "((string \<times> string) \<times> int) list"
  db_ledger :: "((string \<times> int) \<times> ledger_entry) list"
  db_outbox :: "outbox_row gmap"
  db_processed :: "(string \<times> string) list"
  db_bundles :: "relay_bundle gmap"

definition empty_db :: db where
  "empty_db = \<lparr>db_colonies = [], db_users = [], db_sessions = [], db_trades = [], db_actions = [], db_accounts = [],
     db_ledger = [], db_outbox = [], db_processed = [], db_bundles = []\<rparr>"

section \<open>Errors\<close>

text \<open>\<open>pgconn.PgError\<close>: SQLSTATE, constraint and text.\<close>

record pg_error =
  pe_code :: string
  pe_constraint :: string
  pe_message :: string

definition unique_violation :: "string \<Rightarrow> pg_error" where
  "unique_violation c = \<lparr>pe_code = ''23505'', pe_constraint = c,
     pe_message = ''duplicate key value violates unique constraint '' @ c\<rparr>"

definition check_violation :: "string \<Rightarrow> pg_error" where
  "check_violation c = \<lparr>pe_code = ''23514'', pe_constraint = c, pe_message = ''new row violates check constraint '' @ c\<rparr>"

definition foreign_key_violation :: "string \<Rightarrow> pg_error" where
  "foreign_key_violation c = \<lparr>pe_code = ''23503'', pe_constraint = c,
     pe_message = ''insert or update violates foreign key constraint '' @ c\<rparr>"

type_synonym stmt = "db \<Rightarrow> pg_error + db"

text \<open>Statements in order, up to the first that fails; one statement per element of a list.\<close>

definition and_then :: "stmt \<Rightarrow> stmt \<Rightarrow> stmt" where
  "and_then f g d = (case f d of Inl e \<Rightarrow> Inl e | Inr d' \<Rightarrow> g d')"

fun each :: "('x \<Rightarrow> stmt) \<Rightarrow> 'x list \<Rightarrow> stmt" where
  "each f [] d = Inr d"
| "each f (x # xs) d = (case f x d of Inl e \<Rightarrow> Inl e | Inr d' \<Rightarrow> each f xs d')"

section \<open>Statements\<close>

definition name_taken :: "string \<Rightarrow> string \<Rightarrow> db \<Rightarrow> bool" where
  "name_taken i name d \<longleftrightarrow> list_ex (\<lambda>(k, r). k \<noteq> i \<and> cr_name_lower r = name) (db_colonies d)"

definition insert_colony :: "string \<Rightarrow> string \<Rightarrow> colony \<Rightarrow> stmt" where
  "insert_colony i name doc d =
     (if i \<in> gkeys (db_colonies d) then Inl (unique_violation ''colonies_pkey'')
      else if name_taken i name d then Inl (unique_violation ''colonies_name_lower_key'')
      else Inr (d\<lparr>db_colonies := AList.update i \<lparr>cr_name_lower = name, cr_doc = doc\<rparr> (db_colonies d)\<rparr>))"

definition update_colony :: "string \<Rightarrow> string \<Rightarrow> colony \<Rightarrow> stmt" where
  "update_colony i name doc d =
     (if i \<in> gkeys (db_colonies d) \<and> name_taken i name d then Inl (unique_violation ''colonies_name_lower_key'')
      else Inr (d\<lparr>db_colonies := AList.map_entry i (\<lambda>_. \<lparr>cr_name_lower = name, cr_doc = doc\<rparr>) (db_colonies d)\<rparr>))"

definition username_taken :: "string \<Rightarrow> string \<Rightarrow> db \<Rightarrow> bool" where
  "username_taken i name d \<longleftrightarrow> list_ex (\<lambda>(k, r). k \<noteq> i \<and> ur_username_lower r = name) (db_users d)"

definition insert_user :: "string \<Rightarrow> user_row \<Rightarrow> stmt" where
  "insert_user i row d =
     (if i \<in> gkeys (db_users d) then Inl (unique_violation ''users_pkey'')
      else if username_taken i (ur_username_lower row) d then Inl (unique_violation ''users_username_lower_key'')
      else Inr (d\<lparr>db_users := AList.update i row (db_users d)\<rparr>))"

definition update_user :: "string \<Rightarrow> user_row \<Rightarrow> stmt" where
  "update_user i row d =
     (if i \<in> gkeys (db_users d) \<and> username_taken i (ur_username_lower row) d
      then Inl (unique_violation ''users_username_lower_key'')
      else Inr (d\<lparr>db_users := AList.map_entry i (\<lambda>_. row) (db_users d)\<rparr>))"

definition delete_session :: "string \<Rightarrow> stmt" where
  "delete_session tok d = Inr (d\<lparr>db_sessions := AList.delete tok (db_sessions d)\<rparr>)"

definition insert_session :: "string \<Rightarrow> session_row \<Rightarrow> stmt" where
  "insert_session tok row d =
     (if tok \<in> gkeys (db_sessions d) then Inl (unique_violation ''sessions_pkey'')
      else Inr (d\<lparr>db_sessions := AList.update tok row (db_sessions d)\<rparr>))"

definition update_session :: "string \<Rightarrow> session_row \<Rightarrow> stmt" where
  "update_session tok row d = Inr (d\<lparr>db_sessions := AList.map_entry tok (\<lambda>_. row) (db_sessions d)\<rparr>)"

definition insert_trade :: "string \<Rightarrow> trade_row \<Rightarrow> stmt" where
  "insert_trade i row d =
     (if i \<in> gkeys (db_trades d) then Inl (unique_violation ''trades_pkey'')
      else Inr (d\<lparr>db_trades := AList.update i row (db_trades d)\<rparr>))"

text \<open>\<open>UPDATE trades SET status, expires_at, doc\<close>: the parties of a trade are immutable columns.\<close>

definition update_trade :: "string \<Rightarrow> trade_status \<Rightarrow> int option \<Rightarrow> trade \<Rightarrow> stmt" where
  "update_trade i st exp doc d =
     Inr (d\<lparr>db_trades := AList.map_entry i (\<lambda>r. r\<lparr>tr_status := st, tr_expires_at := exp, tr_doc := doc\<rparr>) (db_trades d)\<rparr>)"

definition insert_action :: "string \<Rightarrow> action_row \<Rightarrow> stmt" where
  "insert_action i row d =
     (if i \<in> gkeys (db_actions d) then Inl (unique_violation ''pending_actions_pkey'')
      else Inr (d\<lparr>db_actions := AList.update i row (db_actions d)\<rparr>))"

definition update_action :: "string \<Rightarrow> string \<Rightarrow> pending_action \<Rightarrow> stmt" where
  "update_action i st doc d =
     Inr (d\<lparr>db_actions := AList.map_entry i (\<lambda>r. r\<lparr>pr_status := st, pr_doc := doc\<rparr>) (db_actions d)\<rparr>)"

definition insert_account :: "string \<Rightarrow> string \<Rightarrow> int \<Rightarrow> stmt" where
  "insert_account c u bal d =
     (if bal < 0 then Inl (check_violation ''accounts_balance_check'')
      else if (c, u) \<in> fst ` set (db_accounts d) then Inl (unique_violation ''accounts_pkey'')
      else if c \<notin> gkeys (db_colonies d) then Inl (foreign_key_violation ''accounts_colony_id_fkey'')
      else if u \<notin> gkeys (db_users d) then Inl (foreign_key_violation ''accounts_user_id_fkey'')
      else Inr (d\<lparr>db_accounts := AList.update (c, u) bal (db_accounts d)\<rparr>))"

definition update_account :: "string \<Rightarrow> string \<Rightarrow> int \<Rightarrow> stmt" where
  "update_account c u bal d =
     (if bal < 0 \<and> (c, u) \<in> fst ` set (db_accounts d) then Inl (check_violation ''accounts_balance_check'')
      else Inr (d\<lparr>db_accounts := AList.map_entry (c, u) (\<lambda>_. bal) (db_accounts d)\<rparr>))"

definition insert_ledger_entry :: "string \<Rightarrow> ledger_entry \<Rightarrow> stmt" where
  "insert_ledger_entry c e d =
     (if (c, le_seq e) \<in> fst ` set (db_ledger d) then Inl (unique_violation ''ledger_entries_pkey'')
      else if c \<notin> gkeys (db_colonies d) then Inl (foreign_key_violation ''ledger_entries_colony_id_fkey'')
      else Inr (d\<lparr>db_ledger := AList.update (c, le_seq e) e (db_ledger d)\<rparr>))"

definition insert_outbox :: "string \<Rightarrow> envelope \<Rightarrow> stmt" where
  "insert_outbox c e d =
     (if e_id e \<in> gkeys (db_outbox d) then Inl (unique_violation ''outbox_envelope_id_key'')
      else if c \<notin> gkeys (db_colonies d) then Inl (foreign_key_violation ''outbox_colony_id_fkey'')
      else Inr (d\<lparr>db_outbox := AList.update (e_id e)
             \<lparr>or_colony_id = c, or_to_colony_id = e_to_colony_id e, or_doc = e\<rparr> (db_outbox d)\<rparr>))"

definition delete_outbox :: "string \<Rightarrow> stmt" where
  "delete_outbox eid d = Inr (d\<lparr>db_outbox := AList.delete eid (db_outbox d)\<rparr>)"

definition insert_processed :: "string \<Rightarrow> string \<Rightarrow> stmt" where
  "insert_processed c eid d =
     (if (c, eid) \<in> set (db_processed d) then Inl (unique_violation ''processed_envelopes_pkey'')
      else if c \<notin> gkeys (db_colonies d) then Inl (foreign_key_violation ''processed_envelopes_colony_id_fkey'')
      else Inr (d\<lparr>db_processed := db_processed d @ [(c, eid)]\<rparr>))"

text \<open>\<open>ON CONFLICT (id) DO NOTHING\<close>: the first writer wins.\<close>

definition insert_bundle :: "string \<Rightarrow> relay_bundle \<Rightarrow> stmt" where
  "insert_bundle i b d =
     Inr (if i \<in> gkeys (db_bundles d) then d else d\<lparr>db_bundles := AList.update i b (db_bundles d)\<rparr>)"

section \<open>Persisting a state\<close>

text \<open>\<open>pgOrig\<close>: what was loaded, by value instead of by JSON text.\<close>

record pg_orig =
  o_colonies :: "colony gmap"
  o_users :: "user gmap"
  o_sessions :: "session gmap"
  o_trades :: "trade gmap"
  o_actions :: "pending_action gmap"
  o_locked :: "string list"
  o_accounts :: "((string \<times> string) \<times> int) list"
  o_outbox :: "string gmap"
  o_processed :: "(string \<times> string) list"

definition newOrig :: pg_orig where
  "newOrig = \<lparr>o_colonies = [], o_users = [], o_sessions = [], o_trades = [], o_actions = [], o_locked = [],
     o_accounts = [], o_outbox = [], o_processed = []\<rparr>"

definition sortedKeys :: "'a gmap \<Rightarrow> string list" where
  "sortedKeys m = sort (map fst m)"

definition parseTimeOrNil :: "string \<Rightarrow> int option" where
  "parseTimeOrNil s = (if s = [] then None else parse_rfc3339 s)"

text \<open>A \<open>timestamptz\<close> counts microseconds: the driver cuts the rest off.\<close>

definition pg_time :: "int \<Rightarrow> int" where
  "pg_time t = t div 1000 * 1000"

definition column_time :: "string \<Rightarrow> int option" where
  "column_time s = map_option pg_time (parseTimeOrNil s)"

definition colonyHeader :: "colony \<Rightarrow> colony" where
  "colonyHeader c = c\<lparr>c_accounts := [], c_ledger := [], c_outbox := [], c_processed_envelopes := []\<rparr>"

definition owned :: "pg_orig \<Rightarrow> string \<Rightarrow> bool" where
  "owned o' i \<longleftrightarrow> i \<in> set (o_locked o') \<or> map_of (o_colonies o') i = None"

text \<open>
  The loops of \<open>persist\<close>, each over the sorted keys of a map with the value under the key: a row that
  was not loaded is inserted, one that was is updated when it changed.
\<close>

definition pairs :: "'a gmap \<Rightarrow> (string \<times> 'a) list" where
  "pairs m = sort_key fst m"

definition persist_colony :: "pg_orig \<Rightarrow> string \<times> colony \<Rightarrow> stmt" where
  "persist_colony o' p d =
     (let (i, c) = p; hdr = colonyHeader c
      in case map_of (o_colonies o') i of
           None \<Rightarrow> insert_colony i (to_lower (c_name c)) hdr d
         | Some prev \<Rightarrow>
             if i \<in> set (o_locked o') \<and> prev \<noteq> hdr then update_colony i (to_lower (c_name c)) hdr d else Inr d)"

definition user_row_of :: "user \<Rightarrow> user_row" where
  "user_row_of u = \<lparr>ur_username_lower = to_lower (u_username u), ur_colony_id = u_colony_id u, ur_doc = u\<rparr>"

definition persist_user :: "pg_orig \<Rightarrow> string \<times> user \<Rightarrow> stmt" where
  "persist_user o' p d =
     (let (i, u) = p
      in case map_of (o_users o') i of
           None \<Rightarrow> insert_user i (user_row_of u) d
         | Some prev \<Rightarrow> if prev \<noteq> u then update_user i (user_row_of u) d else Inr d)"

definition persist_gone_session :: "app_state \<Rightarrow> string \<Rightarrow> stmt" where
  "persist_gone_session st tok d = (if map_of (st_sessions st) tok = None then delete_session tok d else Inr d)"

definition session_row_of :: "ctx \<Rightarrow> session \<Rightarrow> session_row" where
  "session_row_of cx s = \<lparr>sr_user_id = s_user_id s,
     sr_expires_at = (case column_time (s_expires_at s) of Some t \<Rightarrow> t | None \<Rightarrow> pg_time (wall_clock cx)), sr_doc = s\<rparr>"

definition persist_session :: "ctx \<Rightarrow> pg_orig \<Rightarrow> string \<times> session \<Rightarrow> stmt" where
  "persist_session cx o' p d =
     (let (tok, s) = p
      in case map_of (o_sessions o') tok of
           None \<Rightarrow> insert_session tok (session_row_of cx s) d
         | Some prev \<Rightarrow> if prev \<noteq> s then update_session tok (session_row_of cx s) d else Inr d)"

definition trade_row_of :: "trade \<Rightarrow> trade_row" where
  "trade_row_of t = \<lparr>tr_seller_user_id = t_seller_user_id t, tr_buyer_user_id = t_buyer_user_id t,
     tr_seller_colony_id = t_seller_colony_id t, tr_buyer_colony_id = t_buyer_colony_id t, tr_status = t_status t,
     tr_created_at = t_created_at t, tr_expires_at = column_time (t_expires_at t), tr_doc = t\<rparr>"

definition persist_trade :: "pg_orig \<Rightarrow> string \<times> trade \<Rightarrow> stmt" where
  "persist_trade o' p d =
     (let (i, t) = p
      in case map_of (o_trades o') i of
           None \<Rightarrow> insert_trade i (trade_row_of t) d
         | Some prev \<Rightarrow>
             if prev \<noteq> t then update_trade i (t_status t) (column_time (t_expires_at t)) t d else Inr d)"

definition action_row_of :: "pending_action \<Rightarrow> action_row" where
  "action_row_of a = \<lparr>pr_colony_id = p_colony_id a, pr_trade_id = p_trade_id a, pr_user_id = p_user_id a,
     pr_status = p_status a, pr_proposed_at = p_proposed_at a, pr_doc = a\<rparr>"

definition persist_action :: "pg_orig \<Rightarrow> string \<times> pending_action \<Rightarrow> stmt" where
  "persist_action o' p d =
     (let (i, a) = p
      in case map_of (o_actions o') i of
           None \<Rightarrow> insert_action i (action_row_of a) d
         | Some prev \<Rightarrow> if prev \<noteq> a then update_action i (p_status a) a d else Inr d)"

definition persist_account :: "pg_orig \<Rightarrow> string \<Rightarrow> string \<times> account \<Rightarrow> stmt" where
  "persist_account o' cid p d =
     (let (uid, acc) = p; bal = a_balance acc
      in case map_of (o_accounts o') (cid, uid) of
           None \<Rightarrow> insert_account cid uid bal d
         | Some prev \<Rightarrow> if prev \<noteq> bal then update_account cid uid bal d else Inr d)"

definition persist_envelope :: "pg_orig \<Rightarrow> string \<Rightarrow> envelope \<Rightarrow> stmt" where
  "persist_envelope o' cid e d = (if map_of (o_outbox o') (e_id e) = None then insert_outbox cid e d else Inr d)"

definition persist_processed :: "pg_orig \<Rightarrow> string \<Rightarrow> string \<times> bool \<Rightarrow> stmt" where
  "persist_processed o' cid p d =
     (if \<not> snd p \<or> (cid, fst p) \<in> set (o_processed o') then Inr d else insert_processed cid (fst p) d)"

text \<open>The child rows of a colony that this transaction may write.\<close>

definition persist_children :: "pg_orig \<Rightarrow> string \<times> colony \<Rightarrow> stmt" where
  "persist_children o' p =
     (let (cid, c) = p
      in if \<not> owned o' cid then Inr
         else and_then (each (persist_account o' cid) (pairs (c_accounts c)))
              (and_then (each (insert_ledger_entry cid) (c_ledger c))
               (and_then (each (persist_envelope o' cid) (c_outbox c))
                 (each (persist_processed o' cid) (pairs (c_processed_envelopes c))))))"

definition present :: "app_state \<Rightarrow> pg_orig \<Rightarrow> string set" where
  "present st o' = set (concat (map (\<lambda>(cid, c). if owned o' cid then map e_id (c_outbox c) else []) (st_colonies st)))"

definition persist_gone_envelope :: "app_state \<Rightarrow> pg_orig \<Rightarrow> string \<Rightarrow> stmt" where
  "persist_gone_envelope st o' eid d = (if eid \<notin> present st o' then delete_outbox eid d else Inr d)"

definition persist :: "ctx \<Rightarrow> app_state \<Rightarrow> pg_orig \<Rightarrow> stmt" where
  "persist cx st o' =
     and_then (each (persist_colony o') (pairs (st_colonies st)))
    (and_then (each (persist_user o') (pairs (st_users st)))
    (and_then (each (persist_gone_session st) (sortedKeys (o_sessions o')))
    (and_then (each (persist_session cx o') (pairs (st_sessions st)))
    (and_then (each (persist_trade o') (pairs (st_trades st)))
    (and_then (each (persist_action o') (pairs (st_pending_actions st)))
    (and_then (each (persist_children o') (pairs (st_colonies st)))
    (and_then (each (persist_gone_envelope st o') (sortedKeys (o_outbox o')))
              (each (\<lambda>(i, b). insert_bundle i b) (pairs (st_bundles st))))))))))"

end
