(* ===== verification/Loading.thy ===== *)
theory Loading
  imports Tables
begin

text \<open>
  Loading the part of the database that a request declares it needs, and transactions around it:
  \<open>storage/pg_load.go\<close>, \<open>storage/pg_store.go\<close>, \<open>ImportState\<close> of \<open>storage/pg_migrate.go\<close>.  A query is a
  selection from the tables; \<open>ORDER BY\<close> compares bytes, \<open>now()\<close> is the \<open>wall_clock\<close> of the request.
\<close>

section \<open>Scopes\<close>

record ledger_query =
  lq_colony_id :: string
  lq_limit :: int
  lq_before_seq :: int

record scope =
  sc_all :: bool
  sc_tokens :: "string list"
  sc_user_sessions :: "string list"
  sc_users :: "string list"
  sc_usernames :: "string list"
  sc_trades :: "string list"
  sc_actions :: "string list"
  sc_colonies :: "string list"
  sc_envelope_ids :: "string list"
  sc_user_colonies :: bool
  sc_colony_headers :: bool
  sc_all_users :: bool
  sc_user_limit :: int
  sc_all_actions :: bool
  sc_trades_for_actor :: int
  sc_accounts_limit :: int
  sc_counts :: bool
  sc_lock :: string
  sc_prune_sessions :: bool
  sc_ledger :: "ledger_query option"

definition zero_scope :: scope where
  "zero_scope = \<lparr>sc_all = False, sc_tokens = [], sc_user_sessions = [], sc_users = [], sc_usernames = [], sc_trades = [],
     sc_actions = [], sc_colonies = [], sc_envelope_ids = [], sc_user_colonies = False, sc_colony_headers = False,
     sc_all_users = False, sc_user_limit = 0, sc_all_actions = False, sc_trades_for_actor = 0, sc_accounts_limit = 0,
     sc_counts = False, sc_lock = [], sc_prune_sessions = False, sc_ledger = None\<rparr>"

definition isAll :: "scope \<Rightarrow> bool" where
  "isAll sc \<longleftrightarrow> sc_all sc \<or>
     (sc_tokens sc = [] \<and> sc_user_sessions sc = [] \<and> sc_users sc = [] \<and> sc_usernames sc = [] \<and> sc_trades sc = [] \<and>
      sc_actions sc = [] \<and> sc_colonies sc = [] \<and> sc_envelope_ids sc = [] \<and> \<not> sc_colony_headers sc \<and>
      \<not> sc_all_users sc \<and> \<not> sc_all_actions sc \<and> sc_trades_for_actor sc = 0 \<and> sc_accounts_limit sc = 0 \<and>
      \<not> sc_counts sc \<and> sc_lock sc = [] \<and> \<not> sc_prune_sessions sc \<and> sc_ledger sc = None)"

text \<open>\<open>bundleScope\<close> of \<open>service/scopes.go\<close>: a payload that does not decode names nothing.\<close>

definition payload_refs :: "envelope \<Rightarrow> (string \<times> string \<times> string) option" where
  "payload_refs e =
     (case raw_members (e_payload e) of
        None \<Rightarrow> None
      | Some ms \<Rightarrow>
          (case (get_str ''trade_id'' ms, get_str ''seller_user_id'' ms, get_str ''buyer_user_id'' ms) of
             (Some t, Some s, Some b) \<Rightarrow> Some (t, s, b)
           | _ \<Rightarrow> None))"

definition bundleScope :: "string \<Rightarrow> string \<Rightarrow> relay_bundle \<Rightarrow> scope" where
  "bundleScope token colonyID b =
     (let envs = List.map_filter id (b_messages b);
          refs = List.map_filter payload_refs envs
      in zero_scope\<lparr>sc_tokens := [token], sc_colonies := [colonyID, b_from_colony_id b], sc_envelope_ids := map e_id envs,
           sc_trades := filter (\<lambda>t. t \<noteq> []) (map fst refs),
           sc_users := concat (map (\<lambda>(t, s, u). [s, u]) refs)\<rparr>)"

section \<open>Selections\<close>

text \<open>\<open>idSet\<close>: a set of ids without the empty one.\<close>

definition add_ids :: "string list \<Rightarrow> string list \<Rightarrow> string list" where
  "add_ids s ids = s @ filter (\<lambda>i. i \<noteq> []) ids"

text \<open>\<open>WHERE id = ANY(...) ORDER BY id\<close>.\<close>

definition select :: "string list \<Rightarrow> 'r gmap \<Rightarrow> 'r gmap" where
  "select ids tbl = sort_key fst (filter (\<lambda>(k, r). k \<in> set ids) tbl)"

definition visible_row :: "user \<Rightarrow> trade_row \<Rightarrow> bool" where
  "visible_row actor r \<longleftrightarrow>
     HasRole actor ''super_admin'' \<or> tr_seller_user_id r = u_id actor \<or> tr_buyer_user_id r = u_id actor \<or>
     (u_colony_id actor \<noteq> [] \<and> (tr_seller_colony_id r = u_colony_id actor \<or> tr_buyer_colony_id r = u_colony_id actor))"

definition newer_row :: "string \<times> trade_row \<Rightarrow> string \<times> trade_row \<Rightarrow> bool" where
  "newer_row p q \<longleftrightarrow>
     (if tr_created_at (snd p) = tr_created_at (snd q) then fst p > fst q
      else tr_created_at (snd p) > tr_created_at (snd q))"

definition visibleTradesSQL :: "user \<Rightarrow> nat \<Rightarrow> db \<Rightarrow> string list" where
  "visibleTradesSQL actor limit d =
     map fst (take limit (sort_slice newer_row (filter (\<lambda>(k, r). visible_row actor r) (db_trades d))))"

definition newer_action :: "string \<times> action_row \<Rightarrow> string \<times> action_row \<Rightarrow> bool" where
  "newer_action p q \<longleftrightarrow>
     (if pr_proposed_at (snd p) = pr_proposed_at (snd q) then fst p > fst q
      else pr_proposed_at (snd p) > pr_proposed_at (snd q))"

text \<open>\<open>dueTradeIDs\<close>: unaccepted offers whose expiry has passed, those that expired first first.\<close>

definition due_row :: "int \<Rightarrow> trade_row \<Rightarrow> bool" where
  "due_row t r \<longleftrightarrow> (tr_status r = StatusOfferPendingExport \<or> tr_status r = StatusOfferReceived) \<and>
     (case tr_expires_at r of None \<Rightarrow> False | Some e \<Rightarrow> e < t)"

definition row_expiry :: "trade_row \<Rightarrow> int" where
  "row_expiry r = (case tr_expires_at r of None \<Rightarrow> 0 | Some e \<Rightarrow> e)"

definition dueTradeIDs :: "int \<Rightarrow> nat \<Rightarrow> db \<Rightarrow> string list" where
  "dueTradeIDs t limit d =
     map fst (take limit (sort_slice (\<lambda>p q. row_expiry (snd p) < row_expiry (snd q))
       (filter (\<lambda>(k, r). due_row (pg_time t) r) (db_trades d))))"

section \<open>Loading\<close>

text \<open>What the discovery finds: ids of users, trades, colonies and actions, and the user of the token.\<close>

record found =
  f_users :: "string list"
  f_trades :: "string list"
  f_colonies :: "string list"
  f_actions :: "string list"
  f_actor :: "user option"

definition token_users :: "ctx \<Rightarrow> string list \<Rightarrow> db \<Rightarrow> string list" where
  "token_users cx tokens d =
     map (\<lambda>(k, r). sr_user_id r) (filter (\<lambda>(k, r). k \<in> set tokens \<and> sr_expires_at r > wall_clock cx) (db_sessions d))"

definition userByID :: "string \<Rightarrow> db \<Rightarrow> user option" where
  "userByID i d = map_option ur_doc (map_of (db_users d) i)"

definition discover_all :: "db \<Rightarrow> found" where
  "discover_all d = \<lparr>f_users = add_ids [] (map fst (db_users d)), f_trades = add_ids [] (map fst (db_trades d)),
     f_colonies = add_ids [] (map fst (db_colonies d)), f_actions = add_ids [] (map fst (db_actions d)), f_actor = None\<rparr>"

definition discover_named :: "ctx \<Rightarrow> scope \<Rightarrow> db \<Rightarrow> found" where
  "discover_named cx sc d =
     (let rows = token_users cx (sc_tokens sc) d;
          actor = (case rows of [] \<Rightarrow> None | u # _ \<Rightarrow> userByID u d);
          limit = (if sc_user_limit sc \<le> 0 then 1000 else nat (sc_user_limit sc));
          users0 = add_ids (add_ids (add_ids (add_ids [] (sc_users sc)) rows)
              (map fst (filter (\<lambda>(k, r). ur_username_lower r \<in> set (sc_usernames sc)) (db_users d))))
              (if sc_all_users sc then take limit (sort (map fst (db_users d))) else []);
          actions = add_ids (add_ids [] (sc_actions sc))
              (if sc_all_actions sc then map fst (take 500 (sort_slice newer_action (db_actions d))) else []);
          arows = map snd (select actions (db_actions d));
          trades = add_ids (add_ids (add_ids [] (sc_trades sc))
              (case actor of Some u \<Rightarrow> (if sc_trades_for_actor sc > 0
                 then visibleTradesSQL u (nat (sc_trades_for_actor sc)) d else []) | None \<Rightarrow> []))
              (map pr_trade_id arows);
          trows = map snd (select trades (db_trades d));
          users1 = add_ids (add_ids users0 (map pr_user_id arows))
              (concat (map (\<lambda>r. [tr_seller_user_id r, tr_buyer_user_id r]) trows));
          colonies0 = add_ids (add_ids (add_ids [] (sc_colonies sc)) (map pr_colony_id arows))
              (concat (map (\<lambda>r. [tr_seller_colony_id r, tr_buyer_colony_id r]) trows));
          colonies = (if sc_user_colonies sc
              then add_ids colonies0 (map (\<lambda>(k, r). ur_colony_id r) (select users1 (db_users d))) else colonies0)
      in \<lparr>f_users = users1, f_trades = trades, f_colonies = colonies, f_actions = actions, f_actor = actor\<rparr>)"

definition discover :: "ctx \<Rightarrow> scope \<Rightarrow> db \<Rightarrow> found" where
  "discover cx sc d = (if isAll sc then discover_all d else discover_named cx sc d)"

text \<open>\<open>scanColonies\<close>: a colony that is there already stays.\<close>

fun scanColonies :: "bool \<Rightarrow> colony_row gmap \<Rightarrow> app_state \<times> pg_orig \<Rightarrow> app_state \<times> pg_orig" where
  "scanColonies lock [] so = so"
| "scanColonies lock ((i, r) # rows) (st, o') =
     (if map_of (st_colonies st) i \<noteq> None then scanColonies lock rows (st, o')
      else scanColonies lock rows
        (st\<lparr>st_colonies := AList.update i (cr_doc r) (st_colonies st)\<rparr>,
         o'\<lparr>o_colonies := AList.update i (colonyHeader (cr_doc r)) (o_colonies o'),
            o_locked := (if lock then i # o_locked o' else o_locked o')\<rparr>))"

definition load_colonies :: "scope \<Rightarrow> bool \<Rightarrow> found \<Rightarrow> db \<Rightarrow> app_state \<times> pg_orig \<Rightarrow> app_state \<times> pg_orig" where
  "load_colonies sc write f d so =
     (let so1 = scanColonies write (select (f_colonies f) (db_colonies d)) so
      in if sc_colony_headers sc \<or> sc_ledger sc \<noteq> None \<or> sc_accounts_limit sc > 0
         then scanColonies False
           (case sc_ledger sc of
              Some q \<Rightarrow> if sc_colony_headers sc then sort_key fst (db_colonies d) else select [lq_colony_id q] (db_colonies d)
            | None \<Rightarrow> sort_key fst (db_colonies d)) so1
         else so1)"

text \<open>The rows of \<open>accounts\<close> that a listing shows, in order.\<close>

definition account_before :: "(string \<times> string) \<times> int \<Rightarrow> (string \<times> string) \<times> int \<Rightarrow> bool" where
  "account_before p q \<longleftrightarrow>
     (if fst (fst p) = fst (fst q) then snd (fst p) < snd (fst q) else fst (fst p) < fst (fst q))"

definition listed_accounts :: "scope \<Rightarrow> found \<Rightarrow> db \<Rightarrow> ((string \<times> string) \<times> int) list" where
  "listed_accounts sc f d =
     (if sc_accounts_limit sc > 0
      then take (nat (sc_accounts_limit sc)) (sort_slice account_before
        (case f_actor f of
           Some u \<Rightarrow> if HasRole u ''super_admin'' then db_accounts d
                     else filter (\<lambda>((c, i), b). c = u_colony_id u) (db_accounts d)
         | None \<Rightarrow> db_accounts d))
      else [])"

definition load_users :: "string list \<Rightarrow> db \<Rightarrow> app_state \<times> pg_orig \<Rightarrow> app_state \<times> pg_orig" where
  "load_users ids d so =
     (let us = map (\<lambda>(k, r). (k, ur_doc r)) (select ids (db_users d))
      in ((fst so)\<lparr>st_users := us\<rparr>, (snd so)\<lparr>o_users := us\<rparr>))"

definition load_trades :: "string list \<Rightarrow> db \<Rightarrow> app_state \<times> pg_orig \<Rightarrow> app_state \<times> pg_orig" where
  "load_trades ids d so =
     (let ts = map (\<lambda>(k, r). (k, tr_doc r)) (select ids (db_trades d))
      in ((fst so)\<lparr>st_trades := ts\<rparr>, (snd so)\<lparr>o_trades := ts\<rparr>))"

definition load_actions :: "string list \<Rightarrow> db \<Rightarrow> app_state \<times> pg_orig \<Rightarrow> app_state \<times> pg_orig" where
  "load_actions ids d so =
     (let acts = map (\<lambda>(k, r). (k, pr_doc r)) (select ids (db_actions d))
      in ((fst so)\<lparr>st_pending_actions := acts\<rparr>, (snd so)\<lparr>o_actions := acts\<rparr>))"

definition load_sessions :: "scope \<Rightarrow> db \<Rightarrow> app_state \<times> pg_orig \<Rightarrow> app_state \<times> pg_orig" where
  "load_sessions sc d so =
     (let wanted = (\<lambda>(k, r). isAll sc \<or> k \<in> set (sc_tokens sc) \<or> sr_user_id r \<in> set (sc_user_sessions sc));
          ss = map (\<lambda>(k, r). (k, sr_doc r)) (sort_key fst (filter wanted (db_sessions d)))
      in ((fst so)\<lparr>st_sessions := ss\<rparr>, (snd so)\<lparr>o_sessions := ss\<rparr>))"

definition put_account :: "string \<Rightarrow> string \<Rightarrow> int \<Rightarrow> app_state \<Rightarrow> app_state" where
  "put_account c u b st = upd_colony c
     (\<lambda>col. col\<lparr>c_accounts := AList.update u \<lparr>a_user_id = u, a_colony_id = c, a_balance = b\<rparr> (c_accounts col)\<rparr>) st"

fun scan_accounts :: "((string \<times> string) \<times> int) list \<Rightarrow> app_state \<times> pg_orig \<Rightarrow> app_state \<times> pg_orig" where
  "scan_accounts [] so = so"
| "scan_accounts (((c, u), b) # rows) (st, o') =
     (if map_of (st_colonies st) c = None then scan_accounts rows (st, o')
      else scan_accounts rows (put_account c u b st, o'\<lparr>o_accounts := AList.update (c, u) b (o_accounts o')\<rparr>))"

definition load_accounts :: "scope \<Rightarrow> found \<Rightarrow> string list \<Rightarrow> db \<Rightarrow> app_state \<times> pg_orig \<Rightarrow> app_state \<times> pg_orig" where
  "load_accounts sc f users d so =
     (if f_colonies f \<noteq> [] \<and> (users \<noteq> [] \<or> isAll sc)
      then scan_accounts (sort_slice account_before
        (filter (\<lambda>((c, u), b). isAll sc \<or> (c \<in> set (f_colonies f) \<and> u \<in> set users)) (db_accounts d))) so
      else so)"

text \<open>Listed accounts are shown but not remembered in \<open>pgOrig\<close>.\<close>

fun scan_listed :: "((string \<times> string) \<times> int) list \<Rightarrow> app_state \<Rightarrow> app_state" where
  "scan_listed [] st = st"
| "scan_listed (((c, u), b) # rows) st =
     (case map_of (st_colonies st) c of
        None \<Rightarrow> scan_listed rows st
      | Some col \<Rightarrow>
          if map_of (c_accounts col) u = None then scan_listed rows (put_account c u b st) else scan_listed rows st)"

fun scan_outbox :: "outbox_row gmap \<Rightarrow> app_state \<times> pg_orig \<Rightarrow> app_state \<times> pg_orig" where
  "scan_outbox [] so = so"
| "scan_outbox ((eid, r) # rows) (st, o') =
     (if map_of (st_colonies st) (or_colony_id r) = None then scan_outbox rows (st, o')
      else scan_outbox rows
        (upd_colony (or_colony_id r) (\<lambda>col. col\<lparr>c_outbox := c_outbox col @ [or_doc r]\<rparr>) st,
         o'\<lparr>o_outbox := AList.update eid (or_colony_id r) (o_outbox o')\<rparr>))"

definition load_outbox :: "bool \<Rightarrow> found \<Rightarrow> db \<Rightarrow> app_state \<times> pg_orig \<Rightarrow> app_state \<times> pg_orig" where
  "load_outbox write f d so =
     (if write \<and> f_colonies f \<noteq> []
      then scan_outbox (filter (\<lambda>(k, r). or_colony_id r \<in> set (f_colonies f)) (db_outbox d)) so else so)"

fun scan_processed :: "(string \<times> string) list \<Rightarrow> app_state \<times> pg_orig \<Rightarrow> app_state \<times> pg_orig" where
  "scan_processed [] so = so"
| "scan_processed ((c, eid) # rows) (st, o') =
     (if map_of (st_colonies st) c = None then scan_processed rows (st, o')
      else scan_processed rows
        (upd_colony c (\<lambda>col. col\<lparr>c_processed_envelopes := AList.update eid True (c_processed_envelopes col)\<rparr>) st,
         o'\<lparr>o_processed := (c, eid) # o_processed o'\<rparr>))"

definition load_processed :: "scope \<Rightarrow> found \<Rightarrow> db \<Rightarrow> app_state \<times> pg_orig \<Rightarrow> app_state \<times> pg_orig" where
  "load_processed sc f d so =
     (if f_colonies f \<noteq> [] \<and> (sc_envelope_ids sc \<noteq> [] \<or> isAll sc)
      then scan_processed (filter (\<lambda>(c, eid). isAll sc \<or> (c \<in> set (f_colonies f) \<and> eid \<in> set (sc_envelope_ids sc)))
        (db_processed d)) so
      else so)"

text \<open>A page of a ledger: the newest entries before a sequence number, in ascending order.\<close>

definition ledger_rows :: "ledger_query \<Rightarrow> db \<Rightarrow> ledger_entry list" where
  "ledger_rows q d =
     (let limit = (if lq_limit q \<le> 0 \<or> lq_limit q > MaxLedgerLimit then MaxLedgerLimit else lq_limit q);
          rows = filter (\<lambda>((c, n), e). c = lq_colony_id q \<and> (lq_before_seq q = 0 \<or> n < lq_before_seq q)) (db_ledger d)
      in rev (map snd (take (nat limit) (sort_slice (\<lambda>p q'. snd (fst p) > snd (fst q')) rows))))"

definition load_ledger :: "scope \<Rightarrow> db \<Rightarrow> app_state \<Rightarrow> app_state" where
  "load_ledger sc d st =
     (case sc_ledger sc of
        None \<Rightarrow> st
      | Some q \<Rightarrow> upd_colony (lq_colony_id q) (\<lambda>c. c\<lparr>c_ledger := c_ledger c @ ledger_rows q d\<rparr>) st)"

text \<open>\<open>GROUP BY\<close> with \<open>count(*)\<close>.\<close>

definition count_by :: "string list \<Rightarrow> nat gmap" where
  "count_by xs = map (\<lambda>x. (x, length (filter (\<lambda>y. y = x) xs))) (remdups xs)"

definition loadCounts :: "found \<Rightarrow> db \<Rightarrow> app_state \<Rightarrow> app_state" where
  "loadCounts f d st =
     st\<lparr>st_counts := Some \<lparr>n_users = length (db_users d), n_colonies = length (db_colonies d),
        n_accounts = length (db_accounts d),
        n_visible_trades = (case f_actor f of None \<Rightarrow> 0
          | Some u \<Rightarrow> length (filter (\<lambda>(k, r). visible_row u r) (db_trades d))),
        n_accounts_by_colony = count_by (map (\<lambda>((c, u), b). c) (db_accounts d)),
        n_trades_by_colony = count_by (map (\<lambda>(k, r). tr_seller_colony_id r) (db_trades d) @
          map (\<lambda>(k, r). tr_buyer_colony_id r) (db_trades d))\<rparr>\<rparr>"

definition prune_expired :: "ctx \<Rightarrow> scope \<Rightarrow> bool \<Rightarrow> db \<Rightarrow> db" where
  "prune_expired cx sc write d =
     (if write \<and> sc_prune_sessions sc
      then d\<lparr>db_sessions := filter (\<lambda>(k, r). \<not> sr_expires_at r < wall_clock cx) (db_sessions d)\<rparr> else d)"

definition load :: "ctx \<Rightarrow> scope \<Rightarrow> bool \<Rightarrow> db \<Rightarrow> app_state \<times> pg_orig \<times> db" where
  "load cx sc write d =
     (let f = discover cx sc d;
          listed = listed_accounts sc f d;
          users = add_ids (f_users f) (map (\<lambda>((c, u), b). u) listed);
          so1 = load_colonies sc write f d (newEmptyState cx, newOrig);
          so2 = load_sessions sc d (load_actions (f_actions f) d (load_trades (f_trades f) d (load_users users d so1)));
          so3 = load_accounts sc f users d so2;
          so4 = load_processed sc f d (load_outbox write f d (scan_listed listed (fst so3), snd so3));
          st = load_ledger sc d (fst so4)
      in (if sc_counts sc then loadCounts f d st else st, snd so4, prune_expired cx sc write d))"

section \<open>Transactions\<close>

text \<open>A transaction ends with the error of the callback or of the database.\<close>

datatype tx_error = Svc go_error | Sql pg_error

text \<open>
  \<open>once\<close>: one attempt.  \<open>interrupt\<close> is the error with which the server or the connection ends it, at whatever
  statement.  A failed transaction is rolled back, so only a success comes with a database.
\<close>

definition once :: "ctx \<Rightarrow> pg_error option \<Rightarrow> scope \<Rightarrow> bool \<Rightarrow> 'a handler \<Rightarrow> db \<Rightarrow> tx_error + ('a \<times> db)" where
  "once cx interrupt sc write fn d =
     (case interrupt of
        Some e \<Rightarrow> Inl (Sql e)
      | None \<Rightarrow>
          let (st, o', d1) = load cx sc write d
          in case fn st of
               (Inl err, _) \<Rightarrow> Inl (Svc err)
             | (Inr out, st') \<Rightarrow>
                 (case (if write then persist cx st' o' d1 else Inr d1) of
                    Inl e \<Rightarrow> Inl (Sql e)
                  | Inr d2 \<Rightarrow> Inr (out, d2)))"

definition retryablePG :: "tx_error \<Rightarrow> bool" where
  "retryablePG err \<longleftrightarrow> (case err of Sql e \<Rightarrow> pe_code e = ''40001'' \<or> pe_code e = ''40P01'' | Svc e \<Rightarrow> False)"

fun mapPGError :: "tx_error \<Rightarrow> go_error" where
  "mapPGError (Svc err) = err"
| "mapPGError (Sql e) =
     (if pe_code e = ''23505'' then AppErr (Conflict (''already exists ('' @ pe_constraint e @ '')''))
      else if pe_code e = ''23514'' then AppErr (Conflict (''constraint violated ('' @ pe_constraint e @ '')''))
      else if pe_code e = ''23503'' then AppErr (Conflict (''referenced row missing ('' @ pe_constraint e @ '')''))
      else PlainErr (pe_message e))"

text \<open>The loop of \<open>run\<close>: \<open>attempt n\<close> is the outcome of the \<open>n\<close>-th attempt, \<open>left\<close> how many remain.\<close>

fun retry :: "(nat \<Rightarrow> tx_error + 'b) \<Rightarrow> nat \<Rightarrow> nat \<Rightarrow> tx_error + 'b" where
  "retry attempt n 0 = attempt n"
| "retry attempt n (Suc left) =
     (case attempt n of
        Inl err \<Rightarrow> if retryablePG err then retry attempt (n + 1) left else Inl err
      | Inr r \<Rightarrow> Inr r)"

definition run :: "ctx \<Rightarrow> (nat \<Rightarrow> pg_error option) \<Rightarrow> scope \<Rightarrow> bool \<Rightarrow> 'a handler \<Rightarrow> db \<Rightarrow> 'a result \<times> db" where
  "run cx interrupt sc write fn d =
     (case retry (\<lambda>n. once cx (interrupt n) sc write fn d) 0 4 of
        Inl err \<Rightarrow> (Inl (mapPGError err), d)
      | Inr (out, d') \<Rightarrow> (Inr out, d'))"

definition pg_StoreUpdateScoped ::
    "ctx \<Rightarrow> (nat \<Rightarrow> pg_error option) \<Rightarrow> scope \<Rightarrow> 'a handler \<Rightarrow> db \<Rightarrow> 'a result \<times> db" where
  "pg_StoreUpdateScoped cx interrupt sc fn d = run cx interrupt sc True fn d"

definition pg_StoreReadScoped ::
    "ctx \<Rightarrow> (nat \<Rightarrow> pg_error option) \<Rightarrow> scope \<Rightarrow> (app_state \<Rightarrow> 'a result) \<Rightarrow> db \<Rightarrow> 'a result" where
  "pg_StoreReadScoped cx interrupt sc fn d = fst (run cx interrupt sc False (\<lambda>st. (fn st, st)) d)"

section \<open>Migration\<close>

text \<open>\<open>ImportState\<close>; its errors are texts.\<close>

definition ImportState :: "prims \<Rightarrow> ctx \<Rightarrow> pg_error option \<Rightarrow> app_state \<Rightarrow> db \<Rightarrow> go_error + db" where
  "ImportState pr cx interrupt st d =
     (case VerifyStateIntegrity pr st of
        Some err \<Rightarrow> Inl (PlainErr (''refusing to migrate: '' @ err))
      | None \<Rightarrow>
          (case interrupt of
             Some e \<Rightarrow> Inl (PlainErr (pe_message e))
           | None \<Rightarrow>
               if length (db_users d) + length (db_colonies d) \<noteq> 0
               then Inl (PlainErr ''target database is not empty; refusing to import'')
               else case persist cx st newOrig d of
                 Inl e \<Rightarrow> Inl (mapPGError (Sql e))
               | Inr d' \<Rightarrow> Inr d'))"

end
