(* ===== verification/Persistence.thy ===== *)
theory Persistence
  imports Loading
begin

text \<open>
  What a write to PostgreSQL does to the database: each loop of \<open>persist\<close> (\<open>storage/pg_persist.go\<close>) overwrites the
  rows of one table or appends to it, and together they overwrite what was stored by what the state holds.
\<close>

section \<open>Loops of statements\<close>

lemma and_then_Inr: "and_then f g d = Inr d' \<longleftrightarrow> (\<exists>d1. f d = Inr d1 \<and> g d1 = Inr d')"
  by (auto simp: and_then_def split: sum.splits)

lemma each_map: "each f (map g xs) d = each (\<lambda>x. f (g x)) xs d"
  by (induction xs arbitrary: d) (auto split: sum.split)

text \<open>What no iteration changes, the loop does not change.\<close>

lemma each_frame:
  "each f xs d = Inr d' \<Longrightarrow> (\<And>x d d'. f x d = Inr d' \<Longrightarrow> g d' = g d) \<Longrightarrow> g d' = g d"
  by (induction xs arbitrary: d) (auto split: sum.splits)

text \<open>A loop whose iterations append rows to a table appends them in order.\<close>

lemma each_append:
  "each f xs d = Inr d' \<Longrightarrow> (\<And>x d d'. f x d = Inr d' \<Longrightarrow> g d' = g d @ h x) \<Longrightarrow> g d' = g d @ concat (map h xs)"
  by (induction xs arbitrary: d) (fastforce split: sum.splits)+

text \<open>
  The interface of a loop that overwrites rows: \<open>view d q\<close> is what the database holds under \<open>q\<close>, \<open>owner q\<close>
  the key of the iteration that may change it, and \<open>row\<close> what it becomes.  The loop then does to each
  \<open>q\<close> what the iteration of its owner does.
\<close>

locale row_loop =
  fixes ok :: "'v \<Rightarrow> bool" and view :: "db \<Rightarrow> 'q \<Rightarrow> 'r" and owner :: "'q \<Rightarrow> 'k" and f :: "'k \<times> 'v \<Rightarrow> stmt"
    and row :: "'v \<Rightarrow> 'q \<Rightarrow> 'r \<Rightarrow> 'r"
  assumes step: "ok v \<Longrightarrow> f (i, v) d = Inr d' \<Longrightarrow> view d' q = (if owner q = i then row v q (view d q) else view d q)"
begin

lemma loop:
  "each f ps d = Inr d' \<Longrightarrow> distinct (map fst ps) \<Longrightarrow> list_all (\<lambda>(i, v). ok v) ps \<Longrightarrow>
   view d' q = (case map_of ps (owner q) of None \<Rightarrow> view d q | Some v \<Rightarrow> row v q (view d q))"
proof (induction ps arbitrary: d)
  case (Cons p ps)
  obtain i v where p: "p = (i, v)" by (cases p)
  from Cons.prems(1) p obtain d1 where d1: "f (i, v) d = Inr d1" "each f ps d1 = Inr d'"
    by (auto split: sum.splits)
  from Cons.prems(2) p have "i \<notin> fst ` set ps" by auto
  then have "map_of ps i = None" by (simp add: map_of_eq_None_iff)
  with Cons.IH [OF d1(2)] Cons.prems(2,3) step [OF _ d1(1)] show ?case
    by (auto simp: p split: option.split)
qed simp

end

lemma pairs_facts:
  assumes "gmap_ok m"
  shows "distinct (map fst (pairs m))" "map_of (pairs m) k = map_of m k"
proof -
  show d: "distinct (map fst (pairs m))"
    using assms by (simp add: pairs_def gmap_ok_def mset_eq_imp_distinct_iff [of "map fst (sort_key fst m)" "map fst m"])
  show "map_of (pairs m) k = map_of m k"
    using assms d map_of_inject_set [of "pairs m" m] by (simp add: gmap_ok_def pairs_def)
qed

section \<open>Rows\<close>

text \<open>What is under a key after its row was inserted (not loaded), updated (changed) or left alone.\<close>

definition written :: "'v option \<Rightarrow> 'v \<Rightarrow> 'r \<Rightarrow> ('r \<Rightarrow> 'r) \<Rightarrow> 'r option \<Rightarrow> 'r option" where
  "written prev v new upd old =
     (case prev of None \<Rightarrow> Some new | Some p \<Rightarrow> if p \<noteq> v then map_option upd old else old)"

lemmas table_defs = insert_user_def update_user_def insert_trade_def update_trade_def insert_action_def update_action_def
  insert_session_def update_session_def insert_colony_def update_colony_def insert_account_def update_account_def
  insert_ledger_entry_def insert_outbox_def insert_processed_def insert_bundle_def delete_session_def delete_outbox_def

lemmas persist_defs = persist_user_def persist_trade_def persist_action_def persist_session_def persist_colony_def
  persist_account_def persist_envelope_def persist_processed_def persist_gone_session_def persist_gone_envelope_def

interpretation users: row_loop "\<lambda>_. True" "\<lambda>d. map_of (db_users d)" id "persist_user o'"
  "\<lambda>u i. written (map_of (o_users o') i) u (user_row_of u) (\<lambda>_. user_row_of u)" for o'
  by unfold_locales (auto simp: persist_defs table_defs written_def split: option.splits if_splits)

interpretation trades: row_loop "\<lambda>_. True" "\<lambda>d. map_of (db_trades d)" id "persist_trade o'"
  "\<lambda>t i. written (map_of (o_trades o') i) t (trade_row_of t)
     (\<lambda>r. r\<lparr>tr_status := t_status t, tr_expires_at := column_time (t_expires_at t), tr_doc := t\<rparr>)" for o'
  by unfold_locales (auto simp: persist_defs table_defs written_def split: option.splits if_splits)

interpretation actions: row_loop "\<lambda>_. True" "\<lambda>d. map_of (db_actions d)" id "persist_action o'"
  "\<lambda>a i. written (map_of (o_actions o') i) a (action_row_of a) (\<lambda>r. r\<lparr>pr_status := p_status a, pr_doc := a\<rparr>)" for o'
  by unfold_locales (auto simp: persist_defs table_defs written_def split: option.splits if_splits)

interpretation sessions: row_loop "\<lambda>_. True" "\<lambda>d. map_of (db_sessions d)" id "persist_session cx o'"
  "\<lambda>s k. written (map_of (o_sessions o') k) s (session_row_of cx s) (\<lambda>_. session_row_of cx s)" for cx o'
  by unfold_locales (auto simp: persist_defs table_defs written_def split: option.splits if_splits)

interpretation colonies: row_loop "\<lambda>_. True" "\<lambda>d. map_of (db_colonies d)" id "persist_colony o'"
  "\<lambda>c i old. if map_of (o_colonies o') i \<noteq> None \<and> i \<notin> set (o_locked o') then old
     else written (map_of (o_colonies o') i) (colonyHeader c)
       \<lparr>cr_name_lower = to_lower (c_name c), cr_doc = colonyHeader c\<rparr>
       (\<lambda>_. \<lparr>cr_name_lower = to_lower (c_name c), cr_doc = colonyHeader c\<rparr>) old" for o'
  by unfold_locales (auto simp: persist_defs table_defs written_def Let_def split: option.splits if_splits)


text \<open>The accounts of one colony, the accounts of all colonies, and bundles.\<close>

interpretation accounts: row_loop "\<lambda>_. True" "\<lambda>d. map_of (db_accounts d)" id "\<lambda>(k, a). persist_account o' (fst k) (snd k, a)"
  "\<lambda>a k. written (map_of (o_accounts o') k) (a_balance a) (a_balance a) (\<lambda>_. a_balance a)" for o'
  by unfold_locales (auto simp: persist_defs table_defs written_def Let_def split: option.splits if_splits)

interpretation bundles: row_loop "\<lambda>_. True" "\<lambda>d. map_of (db_bundles d)" id "\<lambda>(i, b). insert_bundle i b"
  "\<lambda>b i old. case old of None \<Rightarrow> Some b | Some b' \<Rightarrow> Some b'"
  by unfold_locales (auto simp: table_defs gkeys_iff split: option.splits if_splits)

lemma map_of_under: "map_of (map (\<lambda>(u, a). ((c, u), a)) xs) q = (if fst q = c then map_of xs (snd q) else None)"
  by (induction xs) auto

lemma each_accounts:
  assumes "each (persist_account o' i) (pairs m) d = Inr d'" and "gmap_ok m"
  shows "map_of (db_accounts d') q = (case if fst q = i then map_of m (snd q) else None of
           None \<Rightarrow> map_of (db_accounts d) q
         | Some a \<Rightarrow> written (map_of (o_accounts o') q) (a_balance a) (a_balance a) (\<lambda>_. a_balance a) (map_of (db_accounts d) q))"
proof -
  let ?ps = "map (\<lambda>(u, a). ((i, u), a)) (pairs m)"
  have "each (\<lambda>(k, a). persist_account o' (fst k) (snd k, a)) ?ps d = Inr d'"
    using assms(1) by (simp add: each_map case_prod_unfold)
  moreover have "distinct (map fst ?ps)"
    using pairs_facts(1) [OF assms(2)] by (simp add: distinct_map case_prod_unfold inj_on_def)
  ultimately show ?thesis
    using accounts.loop [of o' ?ps d d' q] pairs_facts(2) [OF assms(2)] by (simp add: map_of_under list_all_iff)
qed


text \<open>Each loop writes its own table only.\<close>

lemma only_colonies:
  "each (persist_colony o') xs d = Inr d' \<Longrightarrow> d'\<lparr>db_colonies := []\<rparr> = d\<lparr>db_colonies := []\<rparr>"
  by (erule each_frame) (auto simp: persist_defs table_defs Let_def split: option.splits if_splits)

lemma only_users: "each (persist_user o') xs d = Inr d' \<Longrightarrow> d'\<lparr>db_users := []\<rparr> = d\<lparr>db_users := []\<rparr>"
  by (erule each_frame) (auto simp: persist_defs table_defs Let_def split: option.splits if_splits)

lemma only_sessions:
  "each (persist_session cx o') xs d = Inr d' \<Longrightarrow> d'\<lparr>db_sessions := []\<rparr> = d\<lparr>db_sessions := []\<rparr>"
  "each (persist_gone_session st) ks d = Inr d' \<Longrightarrow> d'\<lparr>db_sessions := []\<rparr> = d\<lparr>db_sessions := []\<rparr>"
  by (erule each_frame, auto simp: persist_defs table_defs Let_def split: option.splits if_splits)+

lemma only_trades: "each (persist_trade o') xs d = Inr d' \<Longrightarrow> d'\<lparr>db_trades := []\<rparr> = d\<lparr>db_trades := []\<rparr>"
  by (erule each_frame) (auto simp: persist_defs table_defs Let_def split: option.splits if_splits)

lemma only_actions: "each (persist_action o') xs d = Inr d' \<Longrightarrow> d'\<lparr>db_actions := []\<rparr> = d\<lparr>db_actions := []\<rparr>"
  by (erule each_frame) (auto simp: persist_defs table_defs Let_def split: option.splits if_splits)

lemma only_accounts:
  "each (persist_account o' i) xs d = Inr d' \<Longrightarrow> d'\<lparr>db_accounts := []\<rparr> = d\<lparr>db_accounts := []\<rparr>"
  by (erule each_frame) (auto simp: persist_defs table_defs Let_def split: option.splits if_splits)

lemma only_ledger:
  "each (insert_ledger_entry i) xs d = Inr d' \<Longrightarrow> d'\<lparr>db_ledger := []\<rparr> = d\<lparr>db_ledger := []\<rparr>"
  by (erule each_frame) (auto simp: table_defs split: if_splits)

lemma only_outbox:
  "each (persist_envelope o' i) xs d = Inr d' \<Longrightarrow> d'\<lparr>db_outbox := []\<rparr> = d\<lparr>db_outbox := []\<rparr>"
  "each (persist_gone_envelope st o') ks d = Inr d' \<Longrightarrow> d'\<lparr>db_outbox := []\<rparr> = d\<lparr>db_outbox := []\<rparr>"
  by (erule each_frame, auto simp: persist_defs table_defs split: if_splits)+

lemma only_processed:
  "each (persist_processed o' i) xs d = Inr d' \<Longrightarrow> d'\<lparr>db_processed := []\<rparr> = d\<lparr>db_processed := []\<rparr>"
  by (erule each_frame) (auto simp: persist_defs table_defs split: if_splits)

lemma only_bundles:
  "each (\<lambda>(i, b). insert_bundle i b) xs d = Inr d' \<Longrightarrow> d'\<lparr>db_bundles := []\<rparr> = d\<lparr>db_bundles := []\<rparr>"
  by (erule each_frame) (auto simp: table_defs split: if_splits)

text \<open>In fields.\<close>

lemma frame_iff:
  fixes d d' :: db
  shows
  "d'\<lparr>db_colonies := []\<rparr> = d\<lparr>db_colonies := []\<rparr> \<longleftrightarrow>
     db_users d' = db_users d \<and> db_sessions d' = db_sessions d \<and> db_trades d' = db_trades d \<and>
     db_actions d' = db_actions d \<and> db_accounts d' = db_accounts d \<and> db_ledger d' = db_ledger d \<and>
     db_outbox d' = db_outbox d \<and> db_processed d' = db_processed d \<and> db_bundles d' = db_bundles d"
  "d'\<lparr>db_users := []\<rparr> = d\<lparr>db_users := []\<rparr> \<longleftrightarrow>
     db_colonies d' = db_colonies d \<and> db_sessions d' = db_sessions d \<and> db_trades d' = db_trades d \<and>
     db_actions d' = db_actions d \<and> db_accounts d' = db_accounts d \<and> db_ledger d' = db_ledger d \<and>
     db_outbox d' = db_outbox d \<and> db_processed d' = db_processed d \<and> db_bundles d' = db_bundles d"
  "d'\<lparr>db_sessions := []\<rparr> = d\<lparr>db_sessions := []\<rparr> \<longleftrightarrow>
     db_colonies d' = db_colonies d \<and> db_users d' = db_users d \<and> db_trades d' = db_trades d \<and>
     db_actions d' = db_actions d \<and> db_accounts d' = db_accounts d \<and> db_ledger d' = db_ledger d \<and>
     db_outbox d' = db_outbox d \<and> db_processed d' = db_processed d \<and> db_bundles d' = db_bundles d"
  "d'\<lparr>db_trades := []\<rparr> = d\<lparr>db_trades := []\<rparr> \<longleftrightarrow>
     db_colonies d' = db_colonies d \<and> db_users d' = db_users d \<and> db_sessions d' = db_sessions d \<and>
     db_actions d' = db_actions d \<and> db_accounts d' = db_accounts d \<and> db_ledger d' = db_ledger d \<and>
     db_outbox d' = db_outbox d \<and> db_processed d' = db_processed d \<and> db_bundles d' = db_bundles d"
  "d'\<lparr>db_actions := []\<rparr> = d\<lparr>db_actions := []\<rparr> \<longleftrightarrow>
     db_colonies d' = db_colonies d \<and> db_users d' = db_users d \<and> db_sessions d' = db_sessions d \<and>
     db_trades d' = db_trades d \<and> db_accounts d' = db_accounts d \<and> db_ledger d' = db_ledger d \<and>
     db_outbox d' = db_outbox d \<and> db_processed d' = db_processed d \<and> db_bundles d' = db_bundles d"
  "d'\<lparr>db_accounts := []\<rparr> = d\<lparr>db_accounts := []\<rparr> \<longleftrightarrow>
     db_colonies d' = db_colonies d \<and> db_users d' = db_users d \<and> db_sessions d' = db_sessions d \<and>
     db_trades d' = db_trades d \<and> db_actions d' = db_actions d \<and> db_ledger d' = db_ledger d \<and>
     db_outbox d' = db_outbox d \<and> db_processed d' = db_processed d \<and> db_bundles d' = db_bundles d"
  "d'\<lparr>db_ledger := []\<rparr> = d\<lparr>db_ledger := []\<rparr> \<longleftrightarrow>
     db_colonies d' = db_colonies d \<and> db_users d' = db_users d \<and> db_sessions d' = db_sessions d \<and>
     db_trades d' = db_trades d \<and> db_actions d' = db_actions d \<and> db_accounts d' = db_accounts d \<and>
     db_outbox d' = db_outbox d \<and> db_processed d' = db_processed d \<and> db_bundles d' = db_bundles d"
  "d'\<lparr>db_outbox := []\<rparr> = d\<lparr>db_outbox := []\<rparr> \<longleftrightarrow>
     db_colonies d' = db_colonies d \<and> db_users d' = db_users d \<and> db_sessions d' = db_sessions d \<and>
     db_trades d' = db_trades d \<and> db_actions d' = db_actions d \<and> db_accounts d' = db_accounts d \<and>
     db_ledger d' = db_ledger d \<and> db_processed d' = db_processed d \<and> db_bundles d' = db_bundles d"
  "d'\<lparr>db_processed := []\<rparr> = d\<lparr>db_processed := []\<rparr> \<longleftrightarrow>
     db_colonies d' = db_colonies d \<and> db_users d' = db_users d \<and> db_sessions d' = db_sessions d \<and>
     db_trades d' = db_trades d \<and> db_actions d' = db_actions d \<and> db_accounts d' = db_accounts d \<and>
     db_ledger d' = db_ledger d \<and> db_outbox d' = db_outbox d \<and> db_bundles d' = db_bundles d"
  "d'\<lparr>db_bundles := []\<rparr> = d\<lparr>db_bundles := []\<rparr> \<longleftrightarrow>
     db_colonies d' = db_colonies d \<and> db_users d' = db_users d \<and> db_sessions d' = db_sessions d \<and>
     db_trades d' = db_trades d \<and> db_actions d' = db_actions d \<and> db_accounts d' = db_accounts d \<and>
     db_ledger d' = db_ledger d \<and> db_outbox d' = db_outbox d \<and> db_processed d' = db_processed d"
  by (cases d; cases d'; auto)+

text \<open>The child tables receive their rows at the end.\<close>

lemma update_append: "k \<notin> fst ` set m \<Longrightarrow> AList.update k v m = m @ [(k, v)]"
  by (induction m) auto

lemma each_ledger:
  "each (insert_ledger_entry i) es d = Inr d' \<Longrightarrow> db_ledger d' = db_ledger d @ map (\<lambda>e. ((i, le_seq e), e)) es"
  by (drule each_append [where g = db_ledger and h = "\<lambda>e. [((i, le_seq e), e)]"])
    (auto simp: table_defs update_append concat_map_singleton split: if_splits)

definition outbox_row_of :: "string \<Rightarrow> envelope \<Rightarrow> string \<times> outbox_row" where
  "outbox_row_of i e = (e_id e, \<lparr>or_colony_id = i, or_to_colony_id = e_to_colony_id e, or_doc = e\<rparr>)"

lemma concat_map_when: "concat (map (\<lambda>x. if P x then [f x] else []) xs) = map f (filter P xs)"
  by (induction xs) auto

lemma each_outbox:
  "each (persist_envelope o' i) es d = Inr d' \<Longrightarrow>
   db_outbox d' = db_outbox d @ map (outbox_row_of i) (filter (\<lambda>e. e_id e \<notin> gkeys (o_outbox o')) es)"
  by (drule each_append [where g = db_outbox and h = "\<lambda>e. if e_id e \<notin> gkeys (o_outbox o') then [outbox_row_of i e] else []"])
    (auto simp: persist_defs table_defs outbox_row_of_def update_append gkeys_def map_of_None_gkeys concat_map_when split: if_splits)

lemma each_processed:
  "each (persist_processed o' i) ps d = Inr d' \<Longrightarrow>
   db_processed d' = db_processed d @ map (\<lambda>p. (i, fst p)) (filter (\<lambda>p. snd p \<and> (i, fst p) \<notin> set (o_processed o')) ps)"
  by (drule each_append [where g = db_processed
      and h = "\<lambda>p. if snd p \<and> (i, fst p) \<notin> set (o_processed o') then [(i, fst p)] else []"])
    (auto simp: persist_defs table_defs concat_map_when split: if_splits)

lemma each_gone_outbox:
  "each (persist_gone_envelope st o') ks d = Inr d' \<Longrightarrow>
   db_outbox d' = filter (\<lambda>(k, r). k \<notin> set ks \<or> k \<in> present st o') (db_outbox d)"
proof (induction ks arbitrary: d)
  case Nil
  then show ?case by (simp add: case_prod_unfold)
next
  case (Cons k ks)
  then obtain d1 where d1: "persist_gone_envelope st o' k d = Inr d1" "each (persist_gone_envelope st o') ks d1 = Inr d'"
    by (auto split: sum.splits)
  show ?case unfolding Cons.IH [OF d1(2)] using d1(1)
    by (auto simp: persist_defs table_defs AList.delete_eq case_prod_unfold split: if_splits) (rule filter_cong; auto)+
qed

lemma each_gone_sessions:
  "each (persist_gone_session st) ks d = Inr d' \<Longrightarrow>
   map_of (db_sessions d') k = (if k \<in> set ks \<and> map_of (st_sessions st) k = None then None else map_of (db_sessions d) k)"
proof (induction ks arbitrary: d)
  case (Cons k' ks)
  then obtain d1 where d1: "persist_gone_session st k' d = Inr d1" "each (persist_gone_session st) ks d1 = Inr d'"
    by (auto split: sum.splits)
  show ?case unfolding Cons.IH [OF d1(2)] using d1(1) by (auto simp: persist_defs table_defs split: if_splits)
qed simp

section \<open>What a transaction writes\<close>

text \<open>
  The database as a collection of maps and of append-only lists: the abstraction under which \<open>persist\<close> is
  the overwriting of what was there by what the state holds.
\<close>

record contents =
  ct_users :: "string \<Rightarrow> user option"
  ct_trades :: "string \<Rightarrow> trade option"
  ct_actions :: "string \<Rightarrow> pending_action option"
  ct_sessions :: "string \<Rightarrow> session option"
  ct_headers :: "string \<Rightarrow> colony option"
  ct_balances :: "string \<times> string \<Rightarrow> int option"
  ct_ledger :: "((string \<times> int) \<times> ledger_entry) list"
  ct_outbox :: "(string \<times> outbox_row) list"
  ct_processed :: "(string \<times> string) list"
  ct_bundles :: "string \<Rightarrow> relay_bundle option"

definition contents :: "db \<Rightarrow> contents" where
  "contents d = \<lparr>ct_users = map_option ur_doc \<circ> map_of (db_users d), ct_trades = map_option tr_doc \<circ> map_of (db_trades d),
     ct_actions = map_option pr_doc \<circ> map_of (db_actions d), ct_sessions = map_option sr_doc \<circ> map_of (db_sessions d),
     ct_headers = map_option cr_doc \<circ> map_of (db_colonies d), ct_balances = map_of (db_accounts d),
     ct_ledger = db_ledger d, ct_outbox = db_outbox d, ct_processed = db_processed d, ct_bundles = map_of (db_bundles d)\<rparr>"

text \<open>What the owned colonies of a state hold: accounts by key, other child rows in the order they are sent.\<close>

definition owned_balances :: "pg_orig \<Rightarrow> app_state \<Rightarrow> string \<times> string \<Rightarrow> int option" where
  "owned_balances o' st q =
     (if owned o' (fst q)
      then Option.bind (map_of (st_colonies st) (fst q)) (\<lambda>c. map_option a_balance (map_of (c_accounts c) (snd q)))
      else None)"

definition owned_rows :: "pg_orig \<Rightarrow> app_state \<Rightarrow> (string \<Rightarrow> colony \<Rightarrow> 'r list) \<Rightarrow> 'r list" where
  "owned_rows o' st f = concat (map (\<lambda>(i, c). if owned o' i then f i c else []) (pairs (st_colonies st)))"

text \<open>
  A session the same transaction has pruned stays away; a loaded envelope that no owned colony shows any
  more is deleted; a bundle that is there stays as it is.
\<close>

definition overwrite :: "app_state \<Rightarrow> pg_orig \<Rightarrow> contents \<Rightarrow> contents" where
  "overwrite st o' ct = \<lparr>ct_users = ct_users ct ++ map_of (st_users st), ct_trades = ct_trades ct ++ map_of (st_trades st),
     ct_actions = ct_actions ct ++ map_of (st_pending_actions st),
     ct_sessions = (\<lambda>k. if k \<in> gkeys (o_sessions o')
        then (if ct_sessions ct k = None then None else map_of (st_sessions st) k)
        else (ct_sessions ct ++ map_of (st_sessions st)) k),
     ct_headers = ct_headers ct ++ (\<lambda>i. if owned o' i then map_option colonyHeader (map_of (st_colonies st) i) else None),
     ct_balances = ct_balances ct ++ owned_balances o' st,
     ct_ledger = ct_ledger ct @ owned_rows o' st (\<lambda>i c. map (\<lambda>e. ((i, le_seq e), e)) (c_ledger c)),
     ct_outbox = filter (\<lambda>(k, r). k \<notin> gkeys (o_outbox o') \<or> k \<in> present st o') (ct_outbox ct) @
        owned_rows o' st (\<lambda>i c. map (outbox_row_of i) (filter (\<lambda>e. e_id e \<notin> gkeys (o_outbox o')) (c_outbox c))),
     ct_processed = ct_processed ct @ owned_rows o' st (\<lambda>i c. map (\<lambda>p. (i, fst p))
        (filter (\<lambda>p. snd p \<and> (i, fst p) \<notin> set (o_processed o')) (pairs (c_processed_envelopes c)))),
     ct_bundles = map_of (st_bundles st) ++ ct_bundles ct\<rparr>"

text \<open>What was remembered at loading is what the database holds.\<close>

definition remembers :: "pg_orig \<Rightarrow> contents \<Rightarrow> bool" where
  "remembers o' ct \<longleftrightarrow> map_of (o_users o') \<subseteq>\<^sub>m ct_users ct \<and> map_of (o_trades o') \<subseteq>\<^sub>m ct_trades ct \<and>
     map_of (o_actions o') \<subseteq>\<^sub>m ct_actions ct \<and> map_of (o_colonies o') \<subseteq>\<^sub>m ct_headers ct \<and>
     map_of (o_accounts o') \<subseteq>\<^sub>m ct_balances ct \<and>
     (\<forall>k s. map_of (o_sessions o') k = Some s \<longrightarrow> ct_sessions ct k = None \<or> ct_sessions ct k = Some s)"

definition maps_ok :: "app_state \<Rightarrow> bool" where
  "maps_ok st \<longleftrightarrow> gmap_ok (st_colonies st) \<and> gmap_ok (st_users st) \<and> gmap_ok (st_sessions st) \<and> gmap_ok (st_trades st) \<and>
     gmap_ok (st_pending_actions st) \<and> gmap_ok (st_bundles st) \<and> gall (\<lambda>i c. gmap_ok (c_accounts c)) (st_colonies st)"

lemma written_doc:
  "(\<And>p. map_of o' k = Some p \<Longrightarrow> map_option g old = Some p) \<Longrightarrow> g new = v \<Longrightarrow> (\<And>r. g (upd r) = v) \<Longrightarrow>
   map_option g (written (map_of o' k) v new upd old) = Some v"
  by (cases old; cases "map_of o' k") (auto simp: written_def)

lemma remembered: "m \<subseteq>\<^sub>m f \<Longrightarrow> m k = Some v \<Longrightarrow> f k = Some v"
  by (metis domI map_le_def)

lemma written_None [simp]: "written None v new upd old = Some new"
  by (simp add: written_def)

lemma list_all_True [simp]: "list_all (\<lambda>(i, v). True) ps"
  by (simp add: list_all_iff)


lemma contents_users:
  assumes "each (persist_user o') (pairs m) d = Inr d'" and "gmap_ok m" and "map_of (o_users o') \<subseteq>\<^sub>m ct_users (contents d)"
  shows "ct_users (contents d') = ct_users (contents d) ++ map_of m"
proof
  fix i
  have "map_option ur_doc (map_of (db_users d) i) = Some p" if "map_of (o_users o') i = Some p" for p
    using remembered [OF assms(3) that] by (simp add: contents_def)
  note w = written_doc [of "o_users o'" i ur_doc, OF this]
  show "ct_users (contents d') i = (ct_users (contents d) ++ map_of m) i"
    using users.loop [OF assms(1) pairs_facts(1) [OF assms(2)], of i] pairs_facts(2) [OF assms(2)]
    by (auto simp: contents_def map_add_def user_row_of_def w split: option.splits)
qed

lemma contents_trades:
  assumes "each (persist_trade o') (pairs m) d = Inr d'" and "gmap_ok m" and "map_of (o_trades o') \<subseteq>\<^sub>m ct_trades (contents d)"
  shows "ct_trades (contents d') = ct_trades (contents d) ++ map_of m"
proof
  fix i
  have "map_option tr_doc (map_of (db_trades d) i) = Some p" if "map_of (o_trades o') i = Some p" for p
    using remembered [OF assms(3) that] by (simp add: contents_def)
  note w = written_doc [of "o_trades o'" i tr_doc, OF this]
  show "ct_trades (contents d') i = (ct_trades (contents d) ++ map_of m) i"
    using trades.loop [OF assms(1) pairs_facts(1) [OF assms(2)], of i] pairs_facts(2) [OF assms(2)]
    by (auto simp: contents_def map_add_def trade_row_of_def w split: option.splits)
qed

lemma contents_actions:
  assumes "each (persist_action o') (pairs m) d = Inr d'" and "gmap_ok m" and "map_of (o_actions o') \<subseteq>\<^sub>m ct_actions (contents d)"
  shows "ct_actions (contents d') = ct_actions (contents d) ++ map_of m"
proof
  fix i
  have "map_option pr_doc (map_of (db_actions d) i) = Some p" if "map_of (o_actions o') i = Some p" for p
    using remembered [OF assms(3) that] by (simp add: contents_def)
  note w = written_doc [of "o_actions o'" i pr_doc, OF this]
  show "ct_actions (contents d') i = (ct_actions (contents d) ++ map_of m) i"
    using actions.loop [OF assms(1) pairs_facts(1) [OF assms(2)], of i] pairs_facts(2) [OF assms(2)]
    by (auto simp: contents_def map_add_def action_row_of_def w split: option.splits)
qed

lemma contents_sessions:
  assumes "each (persist_gone_session st) (sortedKeys (o_sessions o')) d = Inr d1"
    and "each (persist_session cx o') (pairs (st_sessions st)) d1 = Inr d'" and "gmap_ok (st_sessions st)"
    and "\<And>k s. map_of (o_sessions o') k = Some s \<Longrightarrow> ct_sessions (contents d) k = None \<or> ct_sessions (contents d) k = Some s"
  shows "ct_sessions (contents d') = ct_sessions (overwrite st o' (contents d))"
proof
  fix k
  have r: "map_option sr_doc (map_of (db_sessions d) k) = None \<or> map_option sr_doc (map_of (db_sessions d) k) = Some p"
    if "map_of (o_sessions o') k = Some p" for p
    using assms(4) [OF that] by (auto simp: contents_def)
  have d1: "map_of (db_sessions d1) k =
      (if k \<in> gkeys (o_sessions o') \<and> map_of (st_sessions st) k = None then None else map_of (db_sessions d) k)"
    using each_gone_sessions [OF assms(1), of k] by (simp add: sortedKeys_def gkeys_def)
  show "ct_sessions (contents d') k = ct_sessions (overwrite st o' (contents d)) k"
    using sessions.loop [OF assms(2) pairs_facts(1) [OF assms(3)], of k] pairs_facts(2) [OF assms(3)] d1 r
    by (auto simp: contents_def overwrite_def map_add_def session_row_of_def written_def gkeys_iff split: option.splits if_splits)
qed

lemma contents_headers:
  assumes "each (persist_colony o') (pairs (st_colonies st)) d = Inr d'" and "gmap_ok (st_colonies st)"
    and "map_of (o_colonies o') \<subseteq>\<^sub>m ct_headers (contents d)"
  shows "ct_headers (contents d') = ct_headers (overwrite st o' (contents d))"
proof
  fix i
  have "map_option cr_doc (map_of (db_colonies d) i) = Some p" if "map_of (o_colonies o') i = Some p" for p
    using remembered [OF assms(3) that] by (simp add: contents_def)
  note w = written_doc [of "o_colonies o'" i cr_doc, OF this]
  show "ct_headers (contents d') i = ct_headers (overwrite st o' (contents d)) i"
    using colonies.loop [OF assms(1) pairs_facts(1) [OF assms(2)], of i] pairs_facts(2) [OF assms(2)]
    by (auto simp: contents_def overwrite_def map_add_def owned_def w split: option.splits if_splits)
qed

text \<open>The child rows of one colony.\<close>

lemma persist_children_facts:
  assumes "persist_children o' (i, c) d = Inr d'"
  shows "d'\<lparr>db_accounts := [], db_ledger := [], db_outbox := [], db_processed := []\<rparr> =
         d\<lparr>db_accounts := [], db_ledger := [], db_outbox := [], db_processed := []\<rparr>" (is ?frame)
    and "gmap_ok (c_accounts c) \<Longrightarrow> map_of (db_accounts d') q =
      (case if owned o' i \<and> fst q = i then map_of (c_accounts c) (snd q) else None of
         None \<Rightarrow> map_of (db_accounts d) q
       | Some a \<Rightarrow> written (map_of (o_accounts o') q) (a_balance a) (a_balance a) (\<lambda>_. a_balance a) (map_of (db_accounts d) q))"
      (is "_ \<Longrightarrow> ?acc")
    and "db_ledger d' = db_ledger d @ (if owned o' i then map (\<lambda>e. ((i, le_seq e), e)) (c_ledger c) else [])" (is ?ledger)
    and "db_outbox d' = db_outbox d @ (if owned o' i
      then map (outbox_row_of i) (filter (\<lambda>e. e_id e \<notin> gkeys (o_outbox o')) (c_outbox c)) else [])" (is ?outbox)
    and "db_processed d' = db_processed d @ (if owned o' i then map (\<lambda>p. (i, fst p))
      (filter (\<lambda>p. snd p \<and> (i, fst p) \<notin> set (o_processed o')) (pairs (c_processed_envelopes c))) else [])" (is ?proc)
proof -
  have "?frame \<and> (gmap_ok (c_accounts c) \<longrightarrow> ?acc) \<and> ?ledger \<and> ?outbox \<and> ?proc"
  proof (cases "owned o' i")
    case False
    with assms show ?thesis by (simp add: persist_children_def)
  next
    case True
    with assms obtain d1 d2 d3 where
      s1: "each (persist_account o' i) (pairs (c_accounts c)) d = Inr d1" and
      s2: "each (insert_ledger_entry i) (c_ledger c) d1 = Inr d2" and
      s3: "each (persist_envelope o' i) (c_outbox c) d2 = Inr d3" and
      s4: "each (persist_processed o' i) (pairs (c_processed_envelopes c)) d3 = Inr d'"
      by (auto simp: persist_children_def and_then_Inr)
    note frames = only_accounts [OF s1] only_ledger [OF s2] only_outbox(1) [OF s3] only_processed [OF s4]
    show ?thesis
      using True each_accounts [OF s1, of q] each_ledger [OF s2] each_outbox [OF s3] each_processed [OF s4] frames
      by (auto simp: frame_iff)
  qed
  then show ?frame "gmap_ok (c_accounts c) \<Longrightarrow> ?acc" ?ledger ?outbox ?proc by blast+
qed

interpretation children: row_loop "\<lambda>c. gmap_ok (c_accounts c)" "\<lambda>d. map_of (db_accounts d)" fst "persist_children o'"
  "\<lambda>c q old. case if owned o' (fst q) then map_of (c_accounts c) (snd q) else None of None \<Rightarrow> old
     | Some a \<Rightarrow> written (map_of (o_accounts o') q) (a_balance a) (a_balance a) (\<lambda>_. a_balance a) old" for o'
  by unfold_locales (auto dest!: persist_children_facts(2) split: option.splits)

lemma only_children:
  "each (persist_children o') ps d = Inr d' \<Longrightarrow>
   db_colonies d' = db_colonies d \<and> db_users d' = db_users d \<and> db_sessions d' = db_sessions d \<and>
   db_trades d' = db_trades d \<and> db_actions d' = db_actions d \<and> db_bundles d' = db_bundles d"
proof -
  assume "each (persist_children o') ps d = Inr d'"
  then have "d'\<lparr>db_accounts := [], db_ledger := [], db_outbox := [], db_processed := []\<rparr> =
      d\<lparr>db_accounts := [], db_ledger := [], db_outbox := [], db_processed := []\<rparr>"
    by (rule each_frame) (use persist_children_facts(1) in auto)
  then show ?thesis by (cases d; cases d') auto
qed

lemma contents_children:
  assumes "each (persist_children o') (pairs (st_colonies st)) d = Inr d'"
    and "gmap_ok (st_colonies st)" "gall (\<lambda>i c. gmap_ok (c_accounts c)) (st_colonies st)"
    and "map_of (o_accounts o') \<subseteq>\<^sub>m ct_balances (contents d)"
  shows "ct_balances (contents d') = ct_balances (overwrite st o' (contents d))"
proof
  fix q
  have "list_all (\<lambda>(i, c). gmap_ok (c_accounts c)) (pairs (st_colonies st))"
    using assms(3) by (simp add: gall_def pairs_def list_all_iff)
  note l = children.loop [OF assms(1) pairs_facts(1) [OF assms(2)] this, of q]
  have "map_option (\<lambda>b. b) (map_of (db_accounts d) q) = Some p" if "map_of (o_accounts o') q = Some p" for p
    using remembered [OF assms(4) that] by (simp add: contents_def option.map_ident)
  note w = written_doc [of "o_accounts o'" q "\<lambda>b. b", OF this, unfolded option.map_ident]
  show "ct_balances (contents d') q = ct_balances (overwrite st o' (contents d)) q"
    using l pairs_facts(2) [OF assms(2)]
    by (auto simp: contents_def overwrite_def map_add_def owned_balances_def w split: option.splits if_splits)
qed

lemma children_rows:
  assumes "each (persist_children o') (pairs (st_colonies st)) d = Inr d'"
  shows "db_ledger d' = db_ledger d @ owned_rows o' st (\<lambda>i c. map (\<lambda>e. ((i, le_seq e), e)) (c_ledger c))"
    and "db_outbox d' = db_outbox d @
      owned_rows o' st (\<lambda>i c. map (outbox_row_of i) (filter (\<lambda>e. e_id e \<notin> gkeys (o_outbox o')) (c_outbox c)))"
    and "db_processed d' = db_processed d @ owned_rows o' st (\<lambda>i c. map (\<lambda>p. (i, fst p))
        (filter (\<lambda>p. snd p \<and> (i, fst p) \<notin> set (o_processed o')) (pairs (c_processed_envelopes c))))"
  unfolding owned_rows_def
  by (rule each_append [OF assms], use persist_children_facts(3-5) in force)+

lemma contents_bundles:
  assumes "each (\<lambda>(i, b). insert_bundle i b) (pairs (st_bundles st)) d = Inr d'" and "gmap_ok (st_bundles st)"
  shows "ct_bundles (contents d') = ct_bundles (overwrite st o' (contents d))"
proof
  fix i
  show "ct_bundles (contents d') i = ct_bundles (overwrite st o' (contents d)) i"
    using bundles.loop [OF assms(1) pairs_facts(1) [OF assms(2)], of i] pairs_facts(2) [OF assms(2)]
    by (auto simp: contents_def overwrite_def map_add_def split: option.splits)
qed

text \<open>A new envelope is shown, so it stays.\<close>

lemma new_rows_present:
  assumes "(k, r) \<in> set (owned_rows o' st (\<lambda>i c. map (outbox_row_of i) (filter P (c_outbox c))))"
  shows "k \<in> present st o'"
  using assms by (auto simp: owned_rows_def present_def outbox_row_of_def pairs_def split: if_splits)

theorem persist_overwrites:
  assumes "persist cx st o' d = Inr d'" and "maps_ok st" and "remembers o' (contents d)"
  shows "contents d' = overwrite st o' (contents d)"
proof -
  from assms(1) obtain d1 d2 d3 d4 d5 d6 d7 d8 where
    s1: "each (persist_colony o') (pairs (st_colonies st)) d = Inr d1" and
    s2: "each (persist_user o') (pairs (st_users st)) d1 = Inr d2" and
    s3: "each (persist_gone_session st) (sortedKeys (o_sessions o')) d2 = Inr d3" and
    s4: "each (persist_session cx o') (pairs (st_sessions st)) d3 = Inr d4" and
    s5: "each (persist_trade o') (pairs (st_trades st)) d4 = Inr d5" and
    s6: "each (persist_action o') (pairs (st_pending_actions st)) d5 = Inr d6" and
    s7: "each (persist_children o') (pairs (st_colonies st)) d6 = Inr d7" and
    s8: "each (persist_gone_envelope st o') (sortedKeys (o_outbox o')) d7 = Inr d8" and
    s9: "each (\<lambda>(i, b). insert_bundle i b) (pairs (st_bundles st)) d8 = Inr d'"
    by (auto simp: persist_def and_then_Inr)
  note frames = only_colonies [OF s1, unfolded frame_iff] only_users [OF s2, unfolded frame_iff]
    only_sessions(2) [OF s3, unfolded frame_iff] only_sessions(1) [OF s4, unfolded frame_iff]
    only_trades [OF s5, unfolded frame_iff] only_actions [OF s6, unfolded frame_iff] only_children [OF s7]
    only_outbox(2) [OF s8, unfolded frame_iff] only_bundles [OF s9, unfolded frame_iff]
  note ok = assms(2) [unfolded maps_ok_def]
  note rem = assms(3) [unfolded remembers_def]
  have "ct_headers (contents d') = ct_headers (overwrite st o' (contents d))"
    using contents_headers [OF s1] ok rem frames by (simp add: contents_def)
  moreover have "ct_users (contents d') = ct_users (contents d) ++ map_of (st_users st)"
    using contents_users [OF s2] ok rem frames by (simp add: contents_def)
  moreover have "ct_trades (contents d') = ct_trades (contents d) ++ map_of (st_trades st)"
    using contents_trades [OF s5] ok rem frames by (simp add: contents_def)
  moreover have "ct_actions (contents d') = ct_actions (contents d) ++ map_of (st_pending_actions st)"
    using contents_actions [OF s6] ok rem frames by (simp add: contents_def)
  moreover have "ct_sessions (contents d') = ct_sessions (overwrite st o' (contents d))"
  proof -
    have "ct_sessions (contents d2) = ct_sessions (contents d)" using frames by (simp add: contents_def)
    moreover have "ct_sessions (contents d') = ct_sessions (contents d4)" using frames by (simp add: contents_def)
    ultimately show ?thesis using contents_sessions [OF s3 s4] ok rem by (simp add: overwrite_def cong: if_cong)
  qed
  moreover have "ct_balances (contents d') = ct_balances (overwrite st o' (contents d))"
    using contents_children [OF s7] ok rem frames by (simp add: contents_def overwrite_def)
  moreover have "ct_bundles (contents d') = ct_bundles (overwrite st o' (contents d))"
    using contents_bundles [OF s9, of o'] ok frames by (simp add: contents_def overwrite_def)
  moreover have "ct_ledger (contents d') = ct_ledger (overwrite st o' (contents d))"
    using children_rows(1) [OF s7] frames by (simp add: contents_def overwrite_def)
  moreover have "ct_processed (contents d') = ct_processed (overwrite st o' (contents d))"
    using children_rows(3) [OF s7] frames by (simp add: contents_def overwrite_def)
  moreover have "ct_outbox (contents d') = ct_outbox (overwrite st o' (contents d))"
    using children_rows(2) [OF s7] each_gone_outbox [OF s8] frames
    by (auto simp: contents_def overwrite_def sortedKeys_def gkeys_def filter_id_conv intro: new_rows_present)
  ultimately show ?thesis by (simp add: overwrite_def)
qed

end
