(* ===== verification/Transactions.thy ===== *)
theory Transactions
  imports Persistence
begin

text \<open>
  Transactions on PostgreSQL (\<open>storage/pg_load.go\<close>, \<open>storage/pg_store.go\<close>): what is remembered of the loaded rows is what the
  database holds, so a successful write overwrites exactly what the callback changed; a failed one changes nothing and
  fails for a reason; fewer than five serialization failures in a row are not noticed.
\<close>

section \<open>What is loaded\<close>

text \<open>
  What the keys, the unique columns, the checks and the foreign keys of the schema enforce, and that the
  \<open>doc\<close> of a colony is a header.
\<close>

definition names_ok :: "('r \<Rightarrow> string) \<Rightarrow> 'r gmap \<Rightarrow> bool" where
  "names_ok f m \<longleftrightarrow> distinct (map fst m) \<and> distinct (map (\<lambda>(k, r). f r) m)"

definition keys_ok :: "db \<Rightarrow> bool" where
  "keys_ok d \<longleftrightarrow> names_ok cr_name_lower (db_colonies d) \<and> names_ok ur_username_lower (db_users d) \<and>
     gmap_ok (db_sessions d) \<and> gmap_ok (db_trades d) \<and> gmap_ok (db_actions d) \<and> distinct (map fst (db_accounts d)) \<and>
     distinct (map fst (db_ledger d)) \<and> gmap_ok (db_outbox d) \<and> distinct (db_processed d) \<and> gmap_ok (db_bundles d) \<and>
     gall (\<lambda>i r. colonyHeader (cr_doc r) = cr_doc r) (db_colonies d)"

definition refs_ok :: "db \<Rightarrow> bool" where
  "refs_ok d \<longleftrightarrow>
     list_all (\<lambda>((c, u), b). 0 \<le> b \<and> c \<in> gkeys (db_colonies d) \<and> u \<in> gkeys (db_users d)) (db_accounts d) \<and>
     list_all (\<lambda>((c, n), e). c \<in> gkeys (db_colonies d) \<and> n = le_seq e) (db_ledger d) \<and>
     list_all (\<lambda>(k, r). or_colony_id r \<in> gkeys (db_colonies d)) (db_outbox d) \<and>
     list_all (\<lambda>(c, eid). c \<in> gkeys (db_colonies d)) (db_processed d)"

definition db_ok :: "db \<Rightarrow> bool" where
  "db_ok d \<longleftrightarrow> keys_ok d \<and> refs_ok d"

lemma db_okD:
  assumes "db_ok d"
  shows "gmap_ok (db_colonies d)" "gmap_ok (db_users d)" "gmap_ok (db_sessions d)" "gmap_ok (db_trades d)"
    "gmap_ok (db_actions d)" "gmap_ok (db_outbox d)" "gmap_ok (db_bundles d)" "distinct (map fst (db_accounts d))"
    "gall (\<lambda>i r. colonyHeader (cr_doc r) = cr_doc r) (db_colonies d)"
  using assms by (simp_all add: db_ok_def keys_ok_def names_ok_def gmap_ok_def)

lemma map_of_sort_key:
  assumes "distinct (map fst m)"
  shows "map_of (sort_key f m) = map_of m" "distinct (map fst (sort_key f m))"
proof -
  show "distinct (map fst (sort_key f m))"
    using assms by (simp add: mset_eq_imp_distinct_iff [of "map fst (sort_key f m)" "map fst m"])
  then show "map_of (sort_key f m) = map_of m"
    using assms by (intro map_of_inject_set [THEN iffD2]) auto
qed

lemma map_of_filter_keys: "map_of (filter (\<lambda>(k, r). P k) m) k = (if P k then map_of m k else None)"
  by (induction m) auto

lemma gmap_ok_select [simp, intro]: "gmap_ok tbl \<Longrightarrow> gmap_ok (select ids tbl)"
  unfolding select_def gmap_ok_def by (rule map_of_sort_key(2)) (simp add: distinct_map_filter)

lemma map_of_select: "gmap_ok tbl \<Longrightarrow> map_of (select ids tbl) k = (if k \<in> set ids then map_of tbl k else None)"
  unfolding select_def gmap_ok_def
  by (subst map_of_sort_key) (auto simp: distinct_map_filter map_of_filter_keys)

lemma map_of_docs: "map_of (map (\<lambda>(k, r). (k, g r)) m) k = map_option g (map_of m k)"
  by (induction m) auto


lemma map_le_upd: "m \<subseteq>\<^sub>m h \<Longrightarrow> h k = Some v \<Longrightarrow> m(k \<mapsto> v) \<subseteq>\<^sub>m h"
  by (auto simp: map_le_def)

text \<open>Which parts of the remembered values the scans leave alone.\<close>

lemma scanColonies_orig [simp]:
    "o_users (snd (scanColonies l rows so)) = o_users (snd so)"
    "o_sessions (snd (scanColonies l rows so)) = o_sessions (snd so)"
    "o_trades (snd (scanColonies l rows so)) = o_trades (snd so)"
    "o_actions (snd (scanColonies l rows so)) = o_actions (snd so)"
    "o_accounts (snd (scanColonies l rows so)) = o_accounts (snd so)"
    "o_outbox (snd (scanColonies l rows so)) = o_outbox (snd so)"
    "o_processed (snd (scanColonies l rows so)) = o_processed (snd so)"
  by (induction l rows so rule: scanColonies.induct) auto

lemma scan_accounts_orig [simp]:
    "o_colonies (snd (scan_accounts rows so)) = o_colonies (snd so)"
    "o_users (snd (scan_accounts rows so)) = o_users (snd so)"
    "o_sessions (snd (scan_accounts rows so)) = o_sessions (snd so)"
    "o_trades (snd (scan_accounts rows so)) = o_trades (snd so)"
    "o_actions (snd (scan_accounts rows so)) = o_actions (snd so)"
    "o_locked (snd (scan_accounts rows so)) = o_locked (snd so)"
    "o_outbox (snd (scan_accounts rows so)) = o_outbox (snd so)"
    "o_processed (snd (scan_accounts rows so)) = o_processed (snd so)"
  by (induction rows so rule: scan_accounts.induct) auto

lemma scan_outbox_orig [simp]:
    "o_colonies (snd (scan_outbox rows so)) = o_colonies (snd so)"
    "o_users (snd (scan_outbox rows so)) = o_users (snd so)"
    "o_sessions (snd (scan_outbox rows so)) = o_sessions (snd so)"
    "o_trades (snd (scan_outbox rows so)) = o_trades (snd so)"
    "o_actions (snd (scan_outbox rows so)) = o_actions (snd so)"
    "o_locked (snd (scan_outbox rows so)) = o_locked (snd so)"
    "o_accounts (snd (scan_outbox rows so)) = o_accounts (snd so)"
    "o_processed (snd (scan_outbox rows so)) = o_processed (snd so)"
  by (induction rows so rule: scan_outbox.induct) auto

lemma scan_processed_orig [simp]:
    "o_colonies (snd (scan_processed rows so)) = o_colonies (snd so)"
    "o_users (snd (scan_processed rows so)) = o_users (snd so)"
    "o_sessions (snd (scan_processed rows so)) = o_sessions (snd so)"
    "o_trades (snd (scan_processed rows so)) = o_trades (snd so)"
    "o_actions (snd (scan_processed rows so)) = o_actions (snd so)"
    "o_locked (snd (scan_processed rows so)) = o_locked (snd so)"
    "o_accounts (snd (scan_processed rows so)) = o_accounts (snd so)"
    "o_outbox (snd (scan_processed rows so)) = o_outbox (snd so)"
  by (induction rows so rule: scan_processed.induct) auto

text \<open>What the scans remember is what the rows say.\<close>

lemma scanColonies_headers:
  assumes "map_of (o_colonies (snd so)) \<subseteq>\<^sub>m h" and "\<And>i r. (i, r) \<in> set rows \<Longrightarrow> h i = Some (colonyHeader (cr_doc r))"
  shows "map_of (o_colonies (snd (scanColonies l rows so))) \<subseteq>\<^sub>m h"
  using assms
proof (induction l rows so rule: scanColonies.induct)
  case (2 l i r rows st o')
  then have "(map_of (o_colonies o'))(i \<mapsto> colonyHeader (cr_doc r)) \<subseteq>\<^sub>m h" by (auto intro: map_le_upd)
  with 2 show ?case by (auto simp: fun_upd_def)
qed simp

lemma scan_accounts_balances:
  assumes "map_of (o_accounts (snd so)) \<subseteq>\<^sub>m h" and "\<And>q b. (q, b) \<in> set rows \<Longrightarrow> h q = Some b"
  shows "map_of (o_accounts (snd (scan_accounts rows so))) \<subseteq>\<^sub>m h"
  using assms
proof (induction rows so rule: scan_accounts.induct)
  case (2 c u b rows st o')
  then have "(map_of (o_accounts o'))((c, u) \<mapsto> b) \<subseteq>\<^sub>m h" by (auto intro: map_le_upd)
  with 2 show ?case by (auto simp: fun_upd_def)
qed simp

lemma load_headers:
  assumes "gmap_ok (db_colonies d)" "gall (\<lambda>i r. colonyHeader (cr_doc r) = cr_doc r) (db_colonies d)"
  shows "map_of (o_colonies (snd (load_colonies sc w f d (st, newOrig)))) \<subseteq>\<^sub>m ct_headers (contents d)"
proof -
  have row: "ct_headers (contents d) i = Some (colonyHeader (cr_doc r))" if "(i, r) \<in> set (db_colonies d)" for i r
    using in_set_map_of [OF assms(1) that] assms(2) that by (auto simp: contents_def gall_def list_all_iff)
  then have "(i, r) \<in> set (select ids (db_colonies d)) \<Longrightarrow> ct_headers (contents d) i = Some (colonyHeader (cr_doc r))" for i r ids
    by (auto simp: select_def)
  with row show ?thesis
    by (auto simp: load_colonies_def Let_def newOrig_def split: option.split intro!: scanColonies_headers)
qed

lemma load_docs:
  assumes "gmap_ok tbl" and "set rows \<subseteq> set tbl"
  shows "map_of (map (\<lambda>(k, r). (k, g r)) rows) \<subseteq>\<^sub>m map_option g \<circ> map_of tbl"
proof -
  have "map_of tbl k = Some r" if "map_of rows k = Some r" for k r
    using in_set_map_of [OF assms(1)] map_of_SomeD [OF that] assms(2) by auto
  then show ?thesis by (auto simp: map_le_def map_of_docs)
qed

lemma select_sub [simp]: "set (select ids tbl) \<subseteq> set tbl"
  by (auto simp: select_def)

lemma load_balances:
  assumes "distinct (map fst (db_accounts d))" and "o_accounts (snd so) = []"
  shows "map_of (o_accounts (snd (load_accounts sc f us d so))) \<subseteq>\<^sub>m ct_balances (contents d)"
  using assms by (auto simp: load_accounts_def contents_def intro!: scan_accounts_balances)

lemma load_session_docs:
  assumes "gmap_ok (db_sessions d)"
  shows "map_of (o_sessions (snd (load_sessions sc d so))) \<subseteq>\<^sub>m ct_sessions (contents d)"
  using assms by (auto simp: load_sessions_def Let_def contents_def intro!: load_docs)

lemma load_db: "snd (snd (load cx sc write d)) = prune_expired cx sc write d"
  unfolding load_def Let_def by (simp only: snd_conv)

lemma load_orig:
  assumes "db_ok d"
  shows "remembers (fst (snd (load cx sc write d))) (contents (snd (snd (load cx sc write d))))"
proof -
  let ?f = "discover cx sc d"
  let ?listed = "listed_accounts sc ?f d"
  let ?users = "add_ids (f_users ?f) (map (\<lambda>((c, u), b). u) ?listed)"
  let ?so1 = "load_colonies sc write ?f d (newEmptyState cx, newOrig)"
  let ?so2 = "load_sessions sc d (load_actions (f_actions ?f) d (load_trades (f_trades ?f) d (load_users ?users d ?so1)))"
  let ?so3 = "load_accounts sc ?f ?users d ?so2"
  let ?so4 = "load_processed sc ?f d (load_outbox write ?f d (scan_listed ?listed (fst ?so3), snd ?so3))"
  have o: "fst (snd (load cx sc write d)) = snd ?so4"
    unfolding load_def Let_def by (simp only: fst_conv snd_conv)
  have up: "map_of (o_colonies (snd ?so4)) = map_of (o_colonies (snd ?so1))"
    "map_of (o_users (snd ?so4)) = map_of (map (\<lambda>(k, r). (k, ur_doc r)) (select ?users (db_users d)))"
    "map_of (o_trades (snd ?so4)) = map_of (map (\<lambda>(k, r). (k, tr_doc r)) (select (f_trades ?f) (db_trades d)))"
    "map_of (o_actions (snd ?so4)) = map_of (map (\<lambda>(k, r). (k, pr_doc r)) (select (f_actions ?f) (db_actions d)))"
    "o_accounts (snd ?so4) = o_accounts (snd ?so3)"
    "o_sessions (snd ?so4) = o_sessions (snd ?so2)"
    by (simp_all add: load_processed_def load_outbox_def load_accounts_def load_sessions_def load_actions_def load_trades_def load_users_def Let_def)
  have "o_accounts (snd ?so2) = []"
    by (simp add: load_sessions_def load_actions_def load_trades_def load_users_def load_colonies_def Let_def newOrig_def
        split: option.split)
  note bal = load_balances [OF _ this]
  have pruned: "ct_sessions (contents (prune_expired cx sc write d)) k = None \<or>
      ct_sessions (contents (prune_expired cx sc write d)) k = ct_sessions (contents d) k" for k
  proof (cases "map_of (db_sessions (prune_expired cx sc write d)) k")
    case (Some r)
    then have "(k, r) \<in> set (db_sessions d)"
      by (auto simp: prune_expired_def dest!: map_of_SomeD split: if_splits)
    with in_set_map_of [OF db_okD(3) [OF assms]] Some show ?thesis by (simp add: contents_def)
  qed (simp add: contents_def)
  have same: "ct_users (contents (prune_expired cx sc write d)) = ct_users (contents d)"
    "ct_trades (contents (prune_expired cx sc write d)) = ct_trades (contents d)"
    "ct_actions (contents (prune_expired cx sc write d)) = ct_actions (contents d)"
    "ct_headers (contents (prune_expired cx sc write d)) = ct_headers (contents d)"
    "ct_balances (contents (prune_expired cx sc write d)) = ct_balances (contents d)"
    by (auto simp: prune_expired_def contents_def)
  have ss: "ct_sessions (contents (prune_expired cx sc write d)) k = None \<or>
      ct_sessions (contents (prune_expired cx sc write d)) k = Some s" if "map_of (o_sessions (snd ?so2)) k = Some s" for k s
    using pruned [of k] remembered [OF load_session_docs [OF db_okD(3) [OF assms]] that] by auto
  show ?thesis
    unfolding o load_db remembers_def up same
    using load_headers [OF db_okD(1,9) [OF assms]] bal [OF db_okD(8) [OF assms]] ss db_okD(2,4,5) [OF assms]
    by (auto simp: contents_def intro!: load_docs [OF _ select_sub])
qed

section \<open>Transactions\<close>

lemma retry_Inr: "retry attempt n left = Inr r \<Longrightarrow> \<exists>i \<le> left. attempt (n + i) = Inr r"
proof (induction left arbitrary: n)
  case (Suc left)
  then show ?case
  proof (cases "attempt n")
    case (Inl err)
    with Suc.prems have "retry attempt (n + 1) left = Inr r" by (simp split: if_splits)
    from Suc.IH [OF this] obtain i where "i \<le> left" "attempt (n + 1 + i) = Inr r" by blast
    then show ?thesis by (intro exI [of _ "Suc i"]) simp
  qed (use Suc.prems in \<open>auto intro: exI [of _ 0]\<close>)
qed auto

lemma retry_Inl:
  "retry attempt n left = Inl err \<Longrightarrow> retryablePG err \<Longrightarrow>
   i \<le> left \<Longrightarrow> \<exists>e. attempt (n + i) = Inl e \<and> retryablePG e"
proof (induction left arbitrary: n i)
  case (Suc left)
  then obtain e where e: "attempt n = Inl e" "retryablePG e" "retry attempt (n + 1) left = Inl err"
    by (auto split: sum.splits if_splits)
  show ?case
  proof (cases i)
    case (Suc j)
    with Suc.IH [OF e(3) Suc.prems(2), of j] Suc.prems show ?thesis by simp
  qed (use e in simp)
qed auto

lemma run_Inr:
  assumes "run cx interrupt sc True fn d = (Inr out, d')"
  obtains st' where "fn (fst (load cx sc True d)) = (Inr out, st')"
    and "persist cx st' (fst (snd (load cx sc True d))) (snd (snd (load cx sc True d))) = Inr d'"
proof -
  obtain st o' d1 where l: "load cx sc True d = (st, o', d1)" by (cases "load cx sc True d")
  let ?a = "\<lambda>n. once cx (interrupt n) sc True fn d"
  have "retry ?a 0 4 = Inr (out, d')"
    using assms unfolding run_def by (cases "retry ?a 0 4") (auto split: prod.splits)
  from retry_Inr [OF this] obtain n where "?a n = Inr (out, d')" by auto
  then have "\<exists>st'. fn st = (Inr out, st') \<and> persist cx st' o' d1 = Inr d'"
    by (auto simp: once_def l split: sum.splits prod.splits option.splits)
  with that show ?thesis by (auto simp: l)
qed

text \<open>
  A successful write: the callback succeeded on the loaded state, and the database is now what it was
  (less the sessions it pruned), overwritten by what the callback left.
\<close>

theorem pg_write_exact:
  assumes "pg_StoreUpdateScoped cx interrupt sc fn d = (Inr out, d')" and "db_ok d"
    and "maps_ok (snd (fn (fst (load cx sc True d))))"
  shows "\<exists>st'. fn (fst (load cx sc True d)) = (Inr out, st') \<and>
    contents d' = overwrite st' (fst (snd (load cx sc True d))) (contents (prune_expired cx sc True d))"
proof -
  obtain st' where s: "fn (fst (load cx sc True d)) = (Inr out, st')"
    "persist cx st' (fst (snd (load cx sc True d))) (snd (snd (load cx sc True d))) = Inr d'"
    by (rule run_Inr [OF assms(1) [unfolded pg_StoreUpdateScoped_def]])
  have "maps_ok st'" using assms(3) s(1) by simp
  from persist_overwrites [OF s(2) this load_orig [OF assms(2)]] s(1) show ?thesis unfolding load_db by blast
qed

text \<open>Statements fail by constraints, which become conflicts.\<close>

definition violation :: "pg_error \<Rightarrow> bool" where
  "violation e \<longleftrightarrow> pe_code e = ''23505'' \<or> pe_code e = ''23514'' \<or> pe_code e = ''23503''"

lemma violations [simp]: "violation (unique_violation c)" "violation (check_violation c)" "violation (foreign_key_violation c)"
  by (simp_all add: violation_def unique_violation_def check_violation_def foreign_key_violation_def)

lemma each_violation:
  "each f xs d = Inl e \<Longrightarrow> (\<And>x d e. f x d = Inl e \<Longrightarrow> violation e) \<Longrightarrow> violation e"
  by (induction xs arbitrary: d) (auto split: sum.splits)

lemma and_then_violation:
  "and_then f g d = Inl e \<Longrightarrow> (\<And>d e. f d = Inl e \<Longrightarrow> violation e) \<Longrightarrow> (\<And>d e. g d = Inl e \<Longrightarrow> violation e) \<Longrightarrow> violation e"
  by (auto simp: and_then_def split: sum.splits)

lemma children_violation: "persist_children o' p d = Inl e \<Longrightarrow> violation e"
  by (cases p, simp only: persist_children_def Let_def prod.case split: if_splits,
      auto elim!: and_then_violation each_violation simp: persist_defs table_defs Let_def split: option.splits if_splits prod.splits)

lemma persist_violation: "persist cx st o' d = Inl e \<Longrightarrow> violation e"
  unfolding persist_def
  by (elim and_then_violation; erule each_violation;
      auto simp: persist_defs table_defs Let_def split: option.splits if_splits prod.splits dest: children_violation)

lemma once_Inl:
  assumes "once cx interrupt sc True fn d = Inl e"
  shows "(\<exists>err. e = Svc err \<and> fst (fn (fst (load cx sc True d))) = Inl err) \<or>
    (\<exists>v. e = Sql v \<and> (violation v \<or> interrupt = Some v))"
proof -
  obtain st o' d1 where l: "load cx sc True d = (st, o', d1)" by (cases "load cx sc True d")
  obtain r st' where f: "fn st = (r, st')" by (cases "fn st")
  show ?thesis
    using assms persist_violation [of cx st' o' d1]
    by (cases r; cases "persist cx st' o' d1"; cases interrupt) (auto simp: once_def l f)
qed

lemma retry_Inl_last: "retry attempt n left = Inl e \<Longrightarrow> \<exists>i \<le> left. attempt (n + i) = Inl e"
proof (induction left arbitrary: n)
  case (Suc left)
  show ?case
  proof (cases "retry attempt (n + 1) left = Inl e \<and> (\<exists>e'. attempt n = Inl e' \<and> retryablePG e')")
    case True
    with Suc.IH [of "n + 1"] obtain i where "i \<le> left" "attempt (n + 1 + i) = Inl e" by blast
    then show ?thesis by (intro exI [of _ "Suc i"]) simp
  next
    case False
    with Suc.prems show ?thesis by (auto split: sum.splits if_splits intro!: exI [of _ 0])
  qed
qed auto

lemma violation_not_retryable: "violation v \<Longrightarrow> \<not> retryablePG (Sql v)"
  by (auto simp: violation_def retryablePG_def)

theorem pg_failed_write:
  assumes "pg_StoreUpdateScoped cx interrupt sc fn d = (Inl err, d')"
  shows "d' = d \<and>
    (fst (fn (fst (load cx sc True d))) = Inl err \<or> (\<exists>m. err = AppErr (Conflict m)) \<or>
     (\<exists>i < 5. \<exists>v. interrupt i = Some v \<and> err = mapPGError (Sql v) \<and>
       (retryablePG (Sql v) \<longrightarrow> (\<forall>j < 5. \<exists>v'. interrupt j = Some v' \<and> retryablePG (Sql v')))))"
proof -
  let ?a = "\<lambda>n. once cx (interrupt n) sc True fn d"
  obtain e where e: "retry ?a 0 4 = Inl e" "err = mapPGError e" "d' = d"
    using assms unfolding pg_StoreUpdateScoped_def run_def by (cases "retry ?a 0 4") (auto split: prod.splits)
  from retry_Inl_last [OF e(1)] obtain i where i: "i \<le> 4" "?a i = Inl e" by auto
  from once_Inl [OF i(2)] consider (svc) "e = Svc err" "fst (fn (fst (load cx sc True d))) = Inl err"
    | (violation) v where "e = Sql v" "violation v" | (server) v where "e = Sql v" "interrupt i = Some v"
    using e(2) by auto
  then show ?thesis
  proof cases
    case server
    have "\<exists>v'. interrupt j = Some v' \<and> retryablePG (Sql v')" if r: "retryablePG e" and "j < 5" for j
    proof -
      from retry_Inl [OF e(1) r, of j] \<open>j < 5\<close> obtain e' where "?a j = Inl e'" "retryablePG e'" by auto
      with once_Inl [OF this(1)] violation_not_retryable show ?thesis by (auto simp: retryablePG_def)
    qed
    with server e i(1) show ?thesis by (intro conjI disjI2 exI [of _ i] exI [of _ v]) auto
  qed (use e in \<open>auto simp: violation_def\<close>)
qed

text \<open>
  Fewer than five serialization failures in a row do not show: the requests to which \<open>interrupt\<close> does not do more
  get the outcome of an attempt that is left alone.
\<close>

definition settles :: "(nat \<Rightarrow> pg_error option) \<Rightarrow> bool" where
  "settles f \<longleftrightarrow> (\<exists>i<5. f i = None \<and> (\<forall>j<i. \<exists>v. f j = Some v \<and> retryablePG (Sql v)))"

lemma retry_settles:
  assumes "settles interrupt" and once: "\<And>n. a n = (case interrupt n of Some v \<Rightarrow> Inl (Sql v) | None \<Rightarrow> Inr r)"
  shows "retry a 0 4 = Inr r"
proof -
  from assms(1) obtain i where i: "i < 5" "interrupt i = None" "\<And>j. j < i \<Longrightarrow> \<exists>v. interrupt j = Some v \<and> retryablePG (Sql v)"
    by (auto simp: settles_def)
  have "retry a (i - k) left = Inr r" if "k \<le> i" "k \<le> left" for k left
    using that
  proof (induction k arbitrary: left)
    case 0
    with i(2) show ?case by (cases left) (simp_all add: once)
  next
    case (Suc k)
    then obtain left' where left': "left = Suc left'" by (cases left) auto
    from i(3) [of "i - Suc k"] Suc.prems obtain v where "interrupt (i - Suc k) = Some v" "retryablePG (Sql v)" by auto
    with Suc show ?case by (simp add: left' once Suc_diff_Suc flip: Suc_diff_le)
  qed
  from this [of i 4] i(1) show ?thesis by simp
qed

lemma write_settles:
  assumes "settles interrupt" and "fn (fst (load cx sc True d)) = (Inr out, st')"
    and "persist cx st' (fst (snd (load cx sc True d))) (snd (snd (load cx sc True d))) = Inr d'"
  shows "pg_StoreUpdateScoped cx interrupt sc fn d = (Inr out, d')"
proof -
  obtain st o' d1 where l: "load cx sc True d = (st, o', d1)" by (cases "load cx sc True d")
  have "retry (\<lambda>n. once cx (interrupt n) sc True fn d) 0 4 = Inr (out, d')"
    by (rule retry_settles [OF assms(1)]) (use assms(2,3) in \<open>simp add: once_def l split: option.split\<close>)
  then show ?thesis by (simp add: pg_StoreUpdateScoped_def run_def)
qed

lemma read_settles:
  assumes "settles interrupt" and "fn (fst (load cx sc False d)) = Inr out"
  shows "pg_StoreReadScoped cx interrupt sc fn d = Inr out"
proof -
  obtain st o' d1 where l: "load cx sc False d = (st, o', d1)" by (cases "load cx sc False d")
  have "retry (\<lambda>n. once cx (interrupt n) sc False (\<lambda>st. (fn st, st)) d) 0 4 = Inr (out, d1)"
    by (rule retry_settles [OF assms(1)]) (use assms(2) in \<open>simp add: once_def l split: option.split\<close>)
  then show ?thesis by (simp add: pg_StoreReadScoped_def run_def)
qed

section \<open>Constraints\<close>

text \<open>A loop keeps what its statements keep.\<close>

lemma each_keeps:
  "each f xs d = Inr d' \<Longrightarrow> P d \<Longrightarrow> (\<And>x d d'. f x d = Inr d' \<Longrightarrow> P d \<Longrightarrow> P d') \<Longrightarrow> P d'"
  by (induction xs arbitrary: d) (auto split: sum.splits)

lemma names_ok_insert:
  "names_ok f m \<Longrightarrow> k \<notin> gkeys m \<Longrightarrow> \<not> list_ex (\<lambda>(k', r). k' \<noteq> k \<and> f r = f v) m \<Longrightarrow> names_ok f (AList.update k v m)"
  by (force simp: names_ok_def gkeys_def update_append list_ex_iff)

lemma set_map_entry: "q \<in> set (AList.map_entry k g m) \<Longrightarrow> q \<in> set m \<or> (\<exists>v. (k, v) \<in> set m \<and> q = (k, g v))"
  by (induction m) (auto split: if_splits)

lemma set_update: "q \<in> set (AList.update k v m) \<Longrightarrow> q \<in> set m \<or> q = (k, v)"
  by (induction m) (auto split: if_splits)

lemma names_ok_map_entry:
  "names_ok f m \<Longrightarrow> \<not> list_ex (\<lambda>(k', r). k' \<noteq> k \<and> f r = f v) m \<Longrightarrow> names_ok f (AList.map_entry k (\<lambda>_. v) m)"
proof (induction m)
  case (Cons p m)
  have "f v \<notin> (\<lambda>(k, r). f r) ` set m" if "fst p = k"
    using Cons.prems that by (fastforce simp: names_ok_def list_ex_iff image_iff)
  moreover have "AList.map_entry k (\<lambda>_. v) m = m" if "k \<notin> fst ` set m"
    using that by (induction m) auto
  moreover have "f (snd p) \<notin> (\<lambda>(k, r). f r) ` set (AList.map_entry k (\<lambda>_. v) m)" if "fst p \<noteq> k"
    using Cons.prems that by (fastforce simp: names_ok_def list_ex_iff image_iff dest!: set_map_entry)
  ultimately show ?case using Cons by (cases p) (auto simp: names_ok_def)
qed (simp add: names_ok_def)

lemma map_entry_absent: "k \<notin> fst ` set m \<Longrightarrow> AList.map_entry k g m = m"
  by (induction m) auto

lemma names_ok_absent: "k \<notin> gkeys m \<Longrightarrow> AList.map_entry k g m = m"
  by (simp add: gkeys_def map_entry_absent)


lemma refs_mono:
  assumes "refs_ok d" and "gkeys (db_colonies d) \<subseteq> gkeys (db_colonies d')" "gkeys (db_users d) \<subseteq> gkeys (db_users d')"
    and "db_accounts d' = db_accounts d" "db_ledger d' = db_ledger d" "db_outbox d' = db_outbox d" "db_processed d' = db_processed d"
  shows "refs_ok d'"
  using assms by (auto simp: refs_ok_def list_all_iff)

lemma header_header [simp]: "colonyHeader (colonyHeader c) = colonyHeader c"
  by (simp add: colonyHeader_def)

lemma keep_colony: "persist_colony o' p d = Inr d' \<Longrightarrow> db_ok d \<Longrightarrow> db_ok d'"
  by (auto simp: persist_defs table_defs Let_def db_ok_def keys_ok_def name_taken_def names_ok_absent
      intro!: names_ok_insert names_ok_map_entry gall_update gall_map_entry
      elim!: refs_mono split: option.splits if_splits prod.splits)

lemma keep_user: "persist_user o' p d = Inr d' \<Longrightarrow> db_ok d \<Longrightarrow> db_ok d'"
  by (auto simp: persist_defs table_defs Let_def db_ok_def keys_ok_def username_taken_def names_ok_absent
      intro!: names_ok_insert names_ok_map_entry 
      elim!: refs_mono split: option.splits if_splits prod.splits)

lemma keep_rest:
  "persist_gone_session st tok d = Inr d' \<Longrightarrow> db_ok d \<Longrightarrow> db_ok d'"
  "persist_session cx o' p2 d = Inr d' \<Longrightarrow> db_ok d \<Longrightarrow> db_ok d'"
  "persist_trade o' p3 d = Inr d' \<Longrightarrow> db_ok d \<Longrightarrow> db_ok d'"
  "persist_action o' p4 d = Inr d' \<Longrightarrow> db_ok d \<Longrightarrow> db_ok d'"
  "insert_bundle i b d = Inr d' \<Longrightarrow> db_ok d \<Longrightarrow> db_ok d'"
  by (auto simp: persist_defs table_defs Let_def db_ok_def keys_ok_def 
      elim!: refs_mono split: option.splits if_splits prod.splits)

lemma list_all_update: "list_all P m \<Longrightarrow> P (k, v) \<Longrightarrow> list_all P (AList.update k v m)"
  by (induction m) auto

lemma list_all_map_entry: "list_all P m \<Longrightarrow> (\<And>v. P (k, v) \<Longrightarrow> P (k, g v)) \<Longrightarrow> list_all P (AList.map_entry k g m)"
  by (induction m) auto

lemma list_all_filter: "list_all P m \<Longrightarrow> list_all P (filter Q m)"
  by (simp add: list_all_iff)

lemma update_gappend: "k \<notin> gkeys m \<Longrightarrow> AList.update k v m = m @ [(k, v)]"
  by (simp add: gkeys_def update_append)

lemma keep_account: "persist_account o' i p d = Inr d' \<Longrightarrow> db_ok d \<Longrightarrow> db_ok d'"
  by (cases p) (auto simp: persist_defs table_defs Let_def db_ok_def keys_ok_def refs_ok_def map_entry_absent
      intro!: list_all_update list_all_map_entry distinct_update split: option.splits if_splits)

lemma keep_rows:
  "insert_ledger_entry i e d = Inr d' \<Longrightarrow> db_ok d \<Longrightarrow> db_ok d'"
  "persist_envelope o' i env d = Inr d' \<Longrightarrow> db_ok d \<Longrightarrow> db_ok d'"
  "persist_processed o' i q d = Inr d' \<Longrightarrow> db_ok d \<Longrightarrow> db_ok d'"
  "persist_gone_envelope st o' eid d = Inr d' \<Longrightarrow> db_ok d \<Longrightarrow> db_ok d'"
  by (auto simp: persist_defs table_defs db_ok_def keys_ok_def refs_ok_def AList.delete_eq
      intro!: list_all_update list_all_filter distinct_update split: if_splits)

lemma keep_children: "persist_children o' p d = Inr d' \<Longrightarrow> db_ok d \<Longrightarrow> db_ok d'"
  by (cases p) (auto simp: persist_children_def and_then_Inr split: if_splits
      elim!: each_keeps [where P = db_ok] intro: keep_account keep_rows)

theorem persist_keeps_constraints: "persist cx st o' d = Inr d' \<Longrightarrow> db_ok d \<Longrightarrow> db_ok d'"
  unfolding persist_def and_then_Inr
  by (elim exE conjE each_keeps [where P = db_ok])
    (auto intro: keep_colony keep_user keep_rest keep_children keep_rows(4))

lemma prune_keeps: "db_ok d \<Longrightarrow> db_ok (prune_expired cx sc w d)"
  by (auto simp: prune_expired_def db_ok_def keys_ok_def elim!: refs_mono)

text \<open>Two tables only grow.\<close>

definition grown :: "db \<Rightarrow> db \<Rightarrow> bool" where
  "grown d0 d \<longleftrightarrow> take (length (db_ledger d0)) (db_ledger d) = db_ledger d0 \<and>
     take (length (db_processed d0)) (db_processed d) = db_processed d0"

lemma take_append_grown [simp]: "take (length ys) xs = ys \<Longrightarrow> take (length ys) (xs @ zs) = ys"
proof -
  assume ys: "take (length ys) xs = ys"
  from arg_cong [OF this, of length] have "length ys \<le> length xs" by simp
  with ys show ?thesis by simp
qed

lemma grow:
  "persist_colony o' p1 d = Inr d' \<Longrightarrow> grown d0 d \<Longrightarrow> grown d0 d'"
  "persist_user o' p2 d = Inr d' \<Longrightarrow> grown d0 d \<Longrightarrow> grown d0 d'"
  "persist_gone_session st tok d = Inr d' \<Longrightarrow> grown d0 d \<Longrightarrow> grown d0 d'"
  "persist_session cx o' p3 d = Inr d' \<Longrightarrow> grown d0 d \<Longrightarrow> grown d0 d'"
  "persist_trade o' p4 d = Inr d' \<Longrightarrow> grown d0 d \<Longrightarrow> grown d0 d'"
  "persist_action o' p5 d = Inr d' \<Longrightarrow> grown d0 d \<Longrightarrow> grown d0 d'"
  "insert_bundle i b d = Inr d' \<Longrightarrow> grown d0 d \<Longrightarrow> grown d0 d'"
  "persist_account o' i p6 d = Inr d' \<Longrightarrow> grown d0 d \<Longrightarrow> grown d0 d'"
  "insert_ledger_entry i e d = Inr d' \<Longrightarrow> grown d0 d \<Longrightarrow> grown d0 d'"
  "persist_envelope o' i env d = Inr d' \<Longrightarrow> grown d0 d \<Longrightarrow> grown d0 d'"
  "persist_processed o' i q d = Inr d' \<Longrightarrow> grown d0 d \<Longrightarrow> grown d0 d'"
  "persist_gone_envelope st o' eid d = Inr d' \<Longrightarrow> grown d0 d \<Longrightarrow> grown d0 d'"
  by (auto simp: persist_defs table_defs Let_def grown_def update_append simp del: take_append split: option.splits if_splits prod.splits)

lemma children_grow: "persist_children o' p d = Inr d' \<Longrightarrow> grown d0 d \<Longrightarrow> grown d0 d'"
  by (cases p) (auto simp: persist_children_def and_then_Inr split: if_splits
      elim!: each_keeps [where P = "grown d0"] intro: grow)

lemma persist_grows: "persist cx st o' d = Inr d' \<Longrightarrow> grown d0 d \<Longrightarrow> grown d0 d'"
  unfolding persist_def and_then_Inr
  by (elim exE conjE each_keeps [where P = "grown d0"]) (auto intro: grow children_grow)

theorem pg_constraints:
  assumes "db_ok d"
  shows "db_ok (snd (pg_StoreUpdateScoped cx interrupt sc fn d)) \<and> grown d (snd (pg_StoreUpdateScoped cx interrupt sc fn d))"
proof (cases "pg_StoreUpdateScoped cx interrupt sc fn d")
  case (Pair r d')
  show ?thesis
  proof (cases r)
    case (Inl err)
    with Pair pg_failed_write [of cx interrupt sc fn d err d'] assms show ?thesis by (simp add: grown_def)
  next
    case (Inr out)
    obtain st' where p: "persist cx st' (fst (snd (load cx sc True d))) (prune_expired cx sc True d) = Inr d'"
      by (rule run_Inr [OF Pair [unfolded Inr pg_StoreUpdateScoped_def], unfolded load_db])
    have "grown d (prune_expired cx sc True d)" by (simp add: grown_def prune_expired_def)
    from persist_grows [OF p this] persist_keeps_constraints [OF p prune_keeps [OF assms]] Pair show ?thesis by simp
  qed
qed

section \<open>Replays\<close>

text \<open>
  The primary keys as the last line of defence: a callback that was not told of an envelope it processes, or
  numbers a ledger entry as one that is stored, fails as a whole.
\<close>

definition replays :: "app_state \<Rightarrow> pg_orig \<Rightarrow> db \<Rightarrow> string \<Rightarrow> bool" where
  "replays st o' d i \<longleftrightarrow> owned o' i \<and>
     (case map_of (st_colonies st) i of None \<Rightarrow> False
      | Some c \<Rightarrow>
          list_ex (\<lambda>(eid, seen). seen \<and> (i, eid) \<notin> set (o_processed o') \<and> (i, eid) \<in> set (db_processed d)) (c_processed_envelopes c) \<or>
          list_ex (\<lambda>e. (i, le_seq e) \<in> fst ` set (db_ledger d)) (c_ledger c))"

lemma owned_rows_set:
  assumes "gmap_ok (st_colonies st)" and "map_of (st_colonies st) i = Some c" and "owned o' i" and "r \<in> set (f i c)"
  shows "r \<in> set (owned_rows o' st f)"
  using assms map_of_SomeD [OF assms(2)] by (force simp: owned_rows_def pairs_def)

lemma replay_aborts:
  assumes "db_ok d" and "fn (fst (load cx sc True d)) = (Inr out, st')" and "maps_ok st'"
    and "replays st' (fst (snd (load cx sc True d))) d i"
  shows "\<exists>err. pg_StoreUpdateScoped cx interrupt sc fn d = (Inl err, d)"
proof (cases "pg_StoreUpdateScoped cx interrupt sc fn d")
  case (Pair r d')
  show ?thesis
  proof (cases r)
    case (Inl err)
    with Pair pg_failed_write [of cx interrupt sc fn d err d'] show ?thesis by simp
  next
    case (Inr out')
    let ?o = "fst (snd (load cx sc True d))"
    from Pair Inr have run: "pg_StoreUpdateScoped cx interrupt sc fn d = (Inr out', d')" by simp
    have "maps_ok (snd (fn (fst (load cx sc True d))))" using assms(2,3) by simp
    from pg_write_exact [OF run assms(1) this] assms(2)
    have c: "contents d' = overwrite st' ?o (contents (prune_expired cx sc True d))" by auto
    have l: "db_ledger d' = db_ledger d @ owned_rows ?o st' (\<lambda>i c. map (\<lambda>e. ((i, le_seq e), e)) (c_ledger c))"
      and p: "db_processed d' = db_processed d @ owned_rows ?o st' (\<lambda>i c. map (\<lambda>p. (i, fst p))
        (filter (\<lambda>p. snd p \<and> (i, fst p) \<notin> set (o_processed ?o)) (pairs (c_processed_envelopes c))))"
      using arg_cong [OF c, of ct_ledger] arg_cong [OF c, of ct_processed]
      by (auto simp: overwrite_def contents_def prune_expired_def)
    have ok: "distinct (map fst (db_ledger d'))" "distinct (db_processed d')"
      using pg_constraints [OF assms(1), of cx interrupt sc fn] run by (simp_all add: db_ok_def keys_ok_def)
    from assms(4) obtain c where i: "owned ?o i" "map_of (st_colonies st') i = Some c"
      and dup: "(\<exists>eid. (eid, True) \<in> set (c_processed_envelopes c) \<and> (i, eid) \<notin> set (o_processed ?o) \<and> (i, eid) \<in> set (db_processed d)) \<or>
        (\<exists>e \<in> set (c_ledger c). (i, le_seq e) \<in> fst ` set (db_ledger d))"
      unfolding replays_def list_ex_iff by (force split: option.splits)
    have g: "gmap_ok (st_colonies st')" using assms(3) by (simp add: maps_ok_def)
    from dup have False
    proof
      assume "\<exists>eid. (eid, True) \<in> set (c_processed_envelopes c) \<and> (i, eid) \<notin> set (o_processed ?o) \<and> (i, eid) \<in> set (db_processed d)"
      then obtain eid where e: "(eid, True) \<in> set (c_processed_envelopes c)" "(i, eid) \<notin> set (o_processed ?o)" "(i, eid) \<in> set (db_processed d)" by blast
      then have "(i, eid) \<in> set (map (\<lambda>p. (i, fst p)) (filter (\<lambda>p. snd p \<and> (i, fst p) \<notin> set (o_processed ?o)) (pairs (c_processed_envelopes c))))"
        by (force simp: pairs_def)
      from owned_rows_set [OF g i(2,1), where f = "\<lambda>i c. map (\<lambda>p. (i, fst p))
        (filter (\<lambda>p. snd p \<and> (i, fst p) \<notin> set (o_processed ?o)) (pairs (c_processed_envelopes c)))", OF this]
        e(3) ok(2) show False unfolding p by auto
    next
      assume "\<exists>e \<in> set (c_ledger c). (i, le_seq e) \<in> fst ` set (db_ledger d)"
      then obtain e where e: "e \<in> set (c_ledger c)" "(i, le_seq e) \<in> fst ` set (db_ledger d)" by blast
      then have "((i, le_seq e), e) \<in> set (map (\<lambda>e. ((i, le_seq e), e)) (c_ledger c))" by simp
      from owned_rows_set [OF g i(2,1), where f = "\<lambda>i c. map (\<lambda>e. ((i, le_seq e), e)) (c_ledger c)", OF this]
        e(2) ok(1) show False unfolding l by force
    qed
    then show ?thesis ..
  qed
qed

end
