(* ===== verification/Migration.thy ===== *)
theory Migration
  imports Transactions
begin

text \<open>
  Moving a state from the file store to an empty database (\<open>ImportState\<close> of \<open>storage/pg_migrate.go\<close>) and reading it back
  with the scope that loads everything: nothing is lost.
\<close>

section \<open>Scans as updates of the colonies\<close>

lemma upd_colony_absent: "map_of (st_colonies s) c = None \<Longrightarrow> upd_colony c f s = s"
  by (simp add: upd_colony_def map_of_None_gkeys names_ok_absent)

definition upd_each :: "('r \<Rightarrow> string) \<Rightarrow> ('r \<Rightarrow> colony \<Rightarrow> colony) \<Rightarrow> 'r list \<Rightarrow> app_state \<Rightarrow> app_state" where
  "upd_each tgt chg rows s = fold (\<lambda>r. upd_colony (tgt r) (chg r)) rows s"

lemma upd_each_lookup:
  "map_of (st_colonies (upd_each tgt chg rows s)) i =
   map_option (fold chg (filter (\<lambda>r. tgt r = i) rows)) (map_of (st_colonies s) i)"
  unfolding upd_each_def
  by (induction rows arbitrary: s) (auto simp: upd_colony_def option.map_comp comp_def map_option_case option.map_ident split: option.split)

lemma upd_each_rest [simp]:
  "st_users (upd_each tgt chg rows s) = st_users s" "st_sessions (upd_each tgt chg rows s) = st_sessions s"
  "st_trades (upd_each tgt chg rows s) = st_trades s"
  "st_pending_actions (upd_each tgt chg rows s) = st_pending_actions s"
  unfolding upd_each_def by (induction rows arbitrary: s) simp_all

definition set_account :: "(string \<times> string) \<times> int \<Rightarrow> colony \<Rightarrow> colony" where
  "set_account r col = col\<lparr>c_accounts := AList.update (snd (fst r))
     \<lparr>a_user_id = snd (fst r), a_colony_id = fst (fst r), a_balance = snd r\<rparr> (c_accounts col)\<rparr>"

lemma scan_accounts_each: "fst (scan_accounts rows so) = upd_each (\<lambda>r. fst (fst r)) set_account rows (fst so)"
  unfolding upd_each_def
  by (induction rows so rule: scan_accounts.induct)
    (auto simp: put_account_def set_account_def [abs_def] upd_colony_absent split: option.splits)

definition add_envelope :: "string \<times> outbox_row \<Rightarrow> colony \<Rightarrow> colony" where
  "add_envelope r col = col\<lparr>c_outbox := c_outbox col @ [or_doc (snd r)]\<rparr>"

lemma scan_outbox_each: "fst (scan_outbox rows so) = upd_each (\<lambda>r. or_colony_id (snd r)) add_envelope rows (fst so)"
  unfolding upd_each_def
  by (induction rows so rule: scan_outbox.induct) (auto simp: add_envelope_def [abs_def] upd_colony_absent split: option.splits)

definition mark_processed :: "string \<times> string \<Rightarrow> colony \<Rightarrow> colony" where
  "mark_processed r col = col\<lparr>c_processed_envelopes := AList.update (snd r) True (c_processed_envelopes col)\<rparr>"

lemma scan_processed_each: "fst (scan_processed rows so) = upd_each fst mark_processed rows (fst so)"
  unfolding upd_each_def
  by (induction rows so rule: scan_processed.induct) (auto simp: mark_processed_def [abs_def] upd_colony_absent split: option.splits)

lemma scanColonies_lookup:
  "map_of (st_colonies (fst (scanColonies l rows so))) i =
   (case map_of (st_colonies (fst so)) i of Some c \<Rightarrow> Some c | None \<Rightarrow> map_option cr_doc (map_of rows i))"
  by (induction l rows so rule: scanColonies.induct) (auto split: option.splits)

lemma upd_each_bundles [simp]: "st_bundles (upd_each tgt chg rows s) = st_bundles s"
  unfolding upd_each_def by (induction rows arbitrary: s) (simp_all add: upd_colony_def)

lemma scanColonies_rest [simp]:
  "st_bundles (fst (scanColonies l rows so)) = st_bundles (fst so)"
  by (induction l rows so rule: scanColonies.induct) auto

text \<open>The fields a scan leaves alone, and the one it sets.\<close>

lemma fold_set_account:
  "colonyHeader (fold set_account rs c) = colonyHeader c" "c_outbox (fold set_account rs c) = c_outbox c"
  "c_processed_envelopes (fold set_account rs c) = c_processed_envelopes c" "c_ledger (fold set_account rs c) = c_ledger c"
  by (induction rs arbitrary: c) (simp_all add: set_account_def colonyHeader_def)

lemma fold_add_envelope:
  "colonyHeader (fold add_envelope rs c) = colonyHeader c" "c_accounts (fold add_envelope rs c) = c_accounts c"
  "c_processed_envelopes (fold add_envelope rs c) = c_processed_envelopes c" "c_ledger (fold add_envelope rs c) = c_ledger c"
  "c_outbox (fold add_envelope rs c) = c_outbox c @ map (\<lambda>r. or_doc (snd r)) rs"
  by (induction rs arbitrary: c) (simp_all add: add_envelope_def colonyHeader_def)

lemma fold_mark_processed:
  "colonyHeader (fold mark_processed rs c) = colonyHeader c" "c_accounts (fold mark_processed rs c) = c_accounts c"
  "c_outbox (fold mark_processed rs c) = c_outbox c" "c_ledger (fold mark_processed rs c) = c_ledger c"
  "map_of (c_processed_envelopes (fold mark_processed rs c)) e =
     (if e \<in> snd ` set rs then Some True else map_of (c_processed_envelopes c) e)"
  by (induction rs arbitrary: c) (auto simp: mark_processed_def colonyHeader_def)

lemma fold_accounts:
  assumes "distinct (map fst rs)" and "\<And>r. r \<in> set rs \<Longrightarrow> fst (fst r) = i"
  shows "map_of (c_accounts (fold set_account rs c)) u =
    (case map_of rs (i, u) of Some b \<Rightarrow> Some \<lparr>a_user_id = u, a_colony_id = i, a_balance = b\<rparr>
     | None \<Rightarrow> map_of (c_accounts c) u)"
  using assms
proof (induction rs arbitrary: c)
  case (Cons r rs)
  obtain u' b where r: "r = ((i, u'), b)" using Cons.prems(2) [of r] by (cases r) auto
  from Cons.prems(1) r have "map_of rs (i, u') = None" by (simp add: map_of_eq_None_iff)
  with Cons show ?case by (auto simp: r set_account_def split: option.split)
qed simp

section \<open>Migration\<close>

text \<open>Rows that carry the key of their colony, one block per colony.\<close>

lemma blocks_filter:
  assumes "distinct (map fst ps)" and "\<And>j c r. (j, c) \<in> set ps \<Longrightarrow> r \<in> set (f j c) \<Longrightarrow> tgt r = j"
  shows "filter (\<lambda>r. tgt r = i) (concat (map (\<lambda>(j, c). f j c) ps)) = (case map_of ps i of None \<Rightarrow> [] | Some c \<Rightarrow> f i c)"
  using assms
proof (induction ps)
  case (Cons p ps)
  obtain j c where p: "p = (j, c)" by (cases p)
  have rest: "filter (\<lambda>r. tgt r = i) (concat (map (\<lambda>(j, c). f j c) ps)) = (case map_of ps i of None \<Rightarrow> [] | Some c \<Rightarrow> f i c)"
    using Cons by auto
  have mine: "tgt r = j" if "r \<in> set (f j c)" for r using Cons.prems(2) [of j c r] that p by simp
  show ?case
  proof (cases "i = j")
    case True
    from Cons.prems(1) p have "map_of ps j = None" by (simp add: map_of_eq_None_iff)
    with True rest mine show ?thesis by (simp add: p filter_id_conv)
  next
    case False
    with rest mine show ?thesis by (auto simp: p filter_empty_conv)
  qed
qed simp

lemma owned_rows_filter:
  assumes "gmap_ok (st_colonies st)" and "\<And>j c r. r \<in> set (f j c) \<Longrightarrow> tgt r = j"
  shows "filter (\<lambda>r. tgt r = i) (owned_rows newOrig st f) = (case map_of (st_colonies st) i of None \<Rightarrow> [] | Some c \<Rightarrow> f i c)"
proof -
  have "owned_rows newOrig st f = concat (map (\<lambda>(j, c). f j c) (pairs (st_colonies st)))"
    by (simp add: owned_rows_def owned_def newOrig_def)
  then show ?thesis
    using blocks_filter [of "pairs (st_colonies st)" f tgt i] assms(2) pairs_facts [OF assms(1)] by simp
qed

lemma migrated:
  assumes "ImportState pr cx interrupt st empty_db = Inr d'" and "maps_ok st"
  shows "contents d' = overwrite st newOrig (contents empty_db)" "VerifyStateIntegrity pr st = None" "db_ok d'"
proof -
  have p: "persist cx st newOrig empty_db = Inr d'" and v: "VerifyStateIntegrity pr st = None"
    using assms(1) by (auto simp: ImportState_def empty_db_def split: option.splits sum.splits if_splits)
  have "remembers newOrig (contents empty_db)" by (simp add: remembers_def newOrig_def)
  with p assms(2) show "contents d' = overwrite st newOrig (contents empty_db)" by (rule persist_overwrites)
  show "VerifyStateIntegrity pr st = None" by (rule v)
  have "db_ok empty_db" by (simp add: db_ok_def keys_ok_def refs_ok_def names_ok_def empty_db_def)
  with p show "db_ok d'" by (rule persist_keeps_constraints)
qed

text \<open>Loading everything.\<close>

lemma select_all:
  assumes "gmap_ok tbl" and "[] \<notin> gkeys tbl"
  shows "map_of (select (add_ids [] (map fst tbl)) tbl) = map_of tbl"
proof
  fix k
  show "map_of (select (add_ids [] (map fst tbl)) tbl) k = map_of tbl k"
    using assms by (cases "map_of tbl k") (auto simp: map_of_select add_ids_def gkeys_def dest: map_of_SomeD intro!: rev_image_eqI)
qed

lemma isAll_zero [simp]: "isAll zero_scope"
  by (simp add: isAll_def zero_scope_def)

lemma load_all:
  fixes cx :: ctx and d :: db
  assumes "db_ok d" and "[] \<notin> gkeys (db_users d)" "[] \<notin> gkeys (db_trades d)" "[] \<notin> gkeys (db_actions d)"
    "[] \<notin> gkeys (db_colonies d)"
  defines "st \<equiv> fst (load cx zero_scope True d)"
  shows "map_of (st_users st) = ct_users (contents d)" "map_of (st_trades st) = ct_trades (contents d)"
    "map_of (st_pending_actions st) = ct_actions (contents d)" "map_of (st_sessions st) = ct_sessions (contents d)"
    "map_of (st_colonies st) i = map_option
       (\<lambda>r. fold mark_processed (filter (\<lambda>r. fst r = i) (db_processed d))
        (fold add_envelope (filter (\<lambda>r. or_colony_id (snd r) = i) (db_outbox d))
        (fold set_account (filter (\<lambda>r. fst (fst r) = i) (sort_slice account_before (db_accounts d))) (cr_doc r))))
       (map_of (db_colonies d) i)"
proof -
  let ?cols = "add_ids [] (map fst (db_colonies d))"
  let ?so1 = "scanColonies True (select ?cols (db_colonies d)) (newEmptyState cx, newOrig)"
  let ?so2 = "load_sessions zero_scope d (load_actions (add_ids [] (map fst (db_actions d))) d
    (load_trades (add_ids [] (map fst (db_trades d))) d (load_users (add_ids [] (map fst (db_users d))) d ?so1)))"
  let ?any = "?cols \<noteq> []"
  let ?proc = "\<lambda>s. if ?any then upd_each fst mark_processed (db_processed d) s else s"
  let ?out = "\<lambda>s. if ?any then upd_each (\<lambda>r. or_colony_id (snd r)) add_envelope
      (filter (\<lambda>(k, r). or_colony_id r \<in> set ?cols) (db_outbox d)) s else s"
  let ?acc = "\<lambda>s. if ?any then upd_each (\<lambda>r. fst (fst r)) set_account (sort_slice account_before (db_accounts d)) s else s"
  have f: "discover cx zero_scope d = discover_all d" by (simp add: discover_def)
  have flags: "sc_accounts_limit zero_scope = 0" "sc_colony_headers zero_scope = False" "sc_ledger zero_scope = None"
    "sc_counts zero_scope = False" by (simp_all add: zero_scope_def)
  have listed: "listed_accounts zero_scope f d = []" for f by (simp add: listed_accounts_def flags)
  have so1: "load_colonies zero_scope True (discover_all d) d so = scanColonies True (select ?cols (db_colonies d)) so" for so
    by (simp add: load_colonies_def flags discover_all_def)
  have st: "st = ?proc (?out (?acc (fst ?so2)))"
    unfolding st_def load_def Let_def f listed so1
    by (simp add: flags load_ledger_def load_processed_def load_outbox_def load_accounts_def discover_all_def add_ids_def
        scan_processed_each scan_outbox_each scan_accounts_each case_prod_unfold)
  have parts: "st_users st = st_users (fst ?so2)" "st_trades st = st_trades (fst ?so2)"
    "st_pending_actions st = st_pending_actions (fst ?so2)" "st_sessions st = st_sessions (fst ?so2)"
    unfolding st by simp_all
  note so2 = load_users_def load_trades_def load_actions_def load_sessions_def Let_def
  note keys = db_okD [OF assms(1)]
  show "map_of (st_users st) = ct_users (contents d)"
    unfolding parts by (rule ext) (simp add: so2 map_of_docs select_all keys assms contents_def)
  show "map_of (st_trades st) = ct_trades (contents d)"
    unfolding parts by (rule ext) (simp add: so2 map_of_docs select_all keys assms contents_def)
  show "map_of (st_pending_actions st) = ct_actions (contents d)"
    unfolding parts by (rule ext) (simp add: so2 map_of_docs select_all keys assms contents_def)
  have "map_of (sort_key fst (filter (\<lambda>(k, r). True) (db_sessions d))) = map_of (db_sessions d)"
    using keys(3) by (simp add: gmap_ok_def map_of_sort_key)
  then show "map_of (st_sessions st) = ct_sessions (contents d)"
    unfolding parts by (intro ext) (simp add: so2 map_of_docs contents_def)
  have cols: "map_of (st_colonies (fst ?so2)) i = map_option cr_doc (map_of (db_colonies d) i)"
    using select_all [OF keys(1) assms(5)] by (simp add: so2 scanColonies_lookup newEmptyState_def)
  show "map_of (st_colonies st) i = map_option
       (\<lambda>r. fold mark_processed (filter (\<lambda>r. fst r = i) (db_processed d))
        (fold add_envelope (filter (\<lambda>r. or_colony_id (snd r) = i) (db_outbox d))
        (fold set_account (filter (\<lambda>r. fst (fst r) = i) (sort_slice account_before (db_accounts d))) (cr_doc r))))
       (map_of (db_colonies d) i)"
  proof (cases "map_of (db_colonies d) i")
    case None
    with cols show ?thesis unfolding st by (auto simp: upd_each_lookup)
  next
    case (Some r)
    then have "i \<in> gkeys (db_colonies d)" by (auto simp: gkeys_iff)
    with assms(5) have i: "i \<in> set ?cols" by (force simp: add_ids_def gkeys_def)
    then have any: "?any" by auto
    have "filter (\<lambda>r. or_colony_id (snd r) = i) (filter (\<lambda>(k, r). or_colony_id r \<in> set ?cols) (db_outbox d)) =
        filter (\<lambda>r. or_colony_id (snd r) = i) (db_outbox d)"
      unfolding filter_filter by (rule filter_cong) (use i in auto)
    with any cols Some show ?thesis unfolding st by (simp add: upd_each_lookup)
  qed
qed

text \<open>
  Two colonies that agree in everything but their ledgers, up to the order in which accounts and
  processed envelopes are listed.
\<close>

definition same_colony :: "colony \<Rightarrow> colony \<Rightarrow> bool" where
  "same_colony a b \<longleftrightarrow> colonyHeader a = colonyHeader b \<and> map_of (c_accounts a) = map_of (c_accounts b) \<and>
     c_outbox a = c_outbox b \<and> (\<forall>e. gget False (c_processed_envelopes a) e = gget False (c_processed_envelopes b) e)"

text \<open>Ids are not empty, keys are unique, and an account is listed under its user in its colony.\<close>

definition named_ok :: "app_state \<Rightarrow> bool" where
  "named_ok st \<longleftrightarrow> maps_ok st \<and> [] \<notin> gkeys (st_users st) \<and> [] \<notin> gkeys (st_trades st) \<and>
     [] \<notin> gkeys (st_pending_actions st) \<and> [] \<notin> gkeys (st_colonies st) \<and>
     gall (\<lambda>i c. gmap_ok (c_processed_envelopes c) \<and>
       gall (\<lambda>u a. a_user_id a = u \<and> a_colony_id a = i) (c_accounts c)) (st_colonies st)"

lemma migrated_tables:
  assumes "ImportState pr cx interrupt st empty_db = Inr d'" and "maps_ok st"
  shows "ct_users (contents d') = map_of (st_users st)" "ct_trades (contents d') = map_of (st_trades st)"
    "ct_actions (contents d') = map_of (st_pending_actions st)" "ct_sessions (contents d') = map_of (st_sessions st)"
    "ct_bundles (contents d') = map_of (st_bundles st)"
    "ct_headers (contents d') = map_option colonyHeader \<circ> map_of (st_colonies st)"
    "ct_balances (contents d') = owned_balances newOrig st"
    "db_ledger d' = owned_rows newOrig st (\<lambda>i c. map (\<lambda>e. ((i, le_seq e), e)) (c_ledger c))"
    "db_outbox d' = owned_rows newOrig st (\<lambda>i c. map (outbox_row_of i) (c_outbox c))"
    "db_processed d' = owned_rows newOrig st
       (\<lambda>i c. map (\<lambda>p. (i, fst p)) (filter snd (pairs (c_processed_envelopes c))))"
proof -
  note m = migrated(1) [OF assms]
  note eq = arg_cong [OF m]
  have new: "o_sessions newOrig = []" "o_outbox newOrig = []" "o_processed newOrig = []" "owned newOrig i" for i
    by (simp_all add: newOrig_def owned_def)
  have e: "ct_users (contents empty_db) = Map.empty" "ct_trades (contents empty_db) = Map.empty"
    "ct_actions (contents empty_db) = Map.empty" "ct_sessions (contents empty_db) = Map.empty"
    "ct_bundles (contents empty_db) = Map.empty" "ct_headers (contents empty_db) = Map.empty"
    "ct_balances (contents empty_db) = Map.empty" "ct_ledger (contents empty_db) = []"
    "ct_outbox (contents empty_db) = []" "ct_processed (contents empty_db) = []"
    by (auto simp: contents_def empty_db_def)
  show "ct_users (contents d') = map_of (st_users st)" "ct_trades (contents d') = map_of (st_trades st)"
    "ct_actions (contents d') = map_of (st_pending_actions st)" "ct_bundles (contents d') = map_of (st_bundles st)"
    "ct_balances (contents d') = owned_balances newOrig st"
    "ct_sessions (contents d') = map_of (st_sessions st)"
    "ct_headers (contents d') = map_option colonyHeader \<circ> map_of (st_colonies st)"
    by (auto simp: m overwrite_def e new)
  show "db_ledger d' = owned_rows newOrig st (\<lambda>i c. map (\<lambda>e. ((i, le_seq e), e)) (c_ledger c))"
    using eq [of ct_ledger] by (simp add: overwrite_def e) (simp add: contents_def)
  show "db_outbox d' = owned_rows newOrig st (\<lambda>i c. map (outbox_row_of i) (c_outbox c))"
    using eq [of ct_outbox] by (simp add: overwrite_def e new) (simp add: contents_def)
  show "db_processed d' = owned_rows newOrig st
       (\<lambda>i c. map (\<lambda>p. (i, fst p)) (filter snd (pairs (c_processed_envelopes c))))"
    using eq [of ct_processed] by (simp add: overwrite_def e new) (simp add: contents_def)
qed

lemma migrated_colony:
  assumes "ImportState pr cx interrupt st empty_db = Inr d'" and "named_ok st" and "map_of (st_colonies st) i = Some c"
  shows "filter (\<lambda>r. fst (fst r) = i) (db_ledger d') = map (\<lambda>e. ((i, le_seq e), e)) (c_ledger c)"
    "filter (\<lambda>r. or_colony_id (snd r) = i) (db_outbox d') = map (outbox_row_of i) (c_outbox c)"
    "filter (\<lambda>r. fst r = i) (db_processed d') = map (\<lambda>p. (i, fst p)) (filter snd (pairs (c_processed_envelopes c)))"
    "map_of (db_accounts d') (i, u) = map_option a_balance (map_of (c_accounts c) u)"
proof -
  have ok: "maps_ok st" "gmap_ok (st_colonies st)" using assms(2) by (simp_all add: named_ok_def maps_ok_def)
  note t = migrated_tables [OF assms(1) ok(1)]
  show "filter (\<lambda>r. fst (fst r) = i) (db_ledger d') = map (\<lambda>e. ((i, le_seq e), e)) (c_ledger c)"
    unfolding t by (subst owned_rows_filter [OF ok(2)]) (auto simp: assms(3))
  show "filter (\<lambda>r. or_colony_id (snd r) = i) (db_outbox d') = map (outbox_row_of i) (c_outbox c)"
    unfolding t by (subst owned_rows_filter [OF ok(2)]) (auto simp: assms(3) outbox_row_of_def)
  show "filter (\<lambda>r. fst r = i) (db_processed d') = map (\<lambda>p. (i, fst p)) (filter snd (pairs (c_processed_envelopes c)))"
    unfolding t by (subst owned_rows_filter [OF ok(2)]) (auto simp: assms(3))
  show "map_of (db_accounts d') (i, u) = map_option a_balance (map_of (c_accounts c) u)"
    using fun_cong [OF t(7), of "(i, u)"] by (simp add: contents_def owned_balances_def owned_def newOrig_def assms(3))
qed

lemma migrated_gkeys:
  assumes "map_option g \<circ> map_of m = map_option h \<circ> map_of m'"
  shows "gkeys m = gkeys m'"
proof -
  have "map_of m k = None \<longleftrightarrow> map_of m' k = None" for k
    using fun_cong [OF assms, of k] by (cases "map_of m k"; cases "map_of m' k") auto
  then show ?thesis by (auto simp: map_of_None_gkeys)
qed

lemma marked:
  assumes "gmap_ok m"
  shows "gget False m e \<longleftrightarrow> e \<in> fst ` set (filter snd (pairs m))"
proof -
  have "gget False m e \<longleftrightarrow> map_of m e = Some True" by (simp add: gget_def split: option.split)
  also have "\<dots> \<longleftrightarrow> (e, True) \<in> set m" using in_set_map_of [OF assms] map_of_SomeD by metis
  also have "\<dots> \<longleftrightarrow> e \<in> fst ` set (filter snd (pairs m))" by (auto simp: pairs_def intro: rev_image_eqI)
  finally show ?thesis .
qed

lemma reloaded_colony:
  assumes "ImportState pr cx interrupt st empty_db = Inr d'" and "named_ok st" and "map_of (st_colonies st) i = Some c"
    and "colonyHeader c' = colonyHeader c" and "c' = colonyHeader c'"
  shows "same_colony (fold mark_processed (filter (\<lambda>r. fst r = i) (db_processed d'))
        (fold add_envelope (filter (\<lambda>r. or_colony_id (snd r) = i) (db_outbox d'))
        (fold set_account (filter (\<lambda>r. fst (fst r) = i) (sort_slice account_before (db_accounts d'))) c'))) c"
proof -
  have ok: "maps_ok st" "gmap_ok (c_processed_envelopes c)" "gall (\<lambda>u a. a_user_id a = u \<and> a_colony_id a = i) (c_accounts c)"
    using assms(2) gall_lookup [OF _ assms(3)] by (auto simp: named_ok_def)
  have empty: "c_accounts c' = []" "c_outbox c' = []" "c_processed_envelopes c' = []"
    by (subst assms(5), simp add: colonyHeader_def)+
  let ?rows = "sort_slice account_before (db_accounts d')"
  have dist: "distinct (map fst (db_accounts d'))" using db_okD(8) [OF migrated(3) [OF assms(1) ok(1)]] .
  then have drows: "distinct (map fst ?rows)"
    by (simp add: mset_eq_imp_distinct_iff [of "map fst ?rows" "map fst (db_accounts d')"])
  then have some: "distinct (map fst (filter P ?rows))" for P by (simp add: distinct_map_filter)
  have rows: "map_of (filter (\<lambda>r. fst (fst r) = i) ?rows) (i, u) = map_of (db_accounts d') (i, u)" for u
    using map_of_filter_keys [of "\<lambda>k. fst k = i" ?rows "(i, u)"] map_of_inject_set [OF drows dist]
    by (simp add: case_prod_unfold)
  have again: "map_option (\<lambda>b. \<lparr>a_user_id = u, a_colony_id = i, a_balance = b\<rparr>) (map_option a_balance (map_of (c_accounts c) u))
      = map_of (c_accounts c) u" for u
    using gall_lookup [OF ok(3), of u] by (cases "map_of (c_accounts c) u") auto
  have acc: "map_of (c_accounts (fold set_account (filter (\<lambda>r. fst (fst r) = i) ?rows) c')) u = map_of (c_accounts c) u" for u
    by (subst fold_accounts [OF some])
      (simp, simp only: rows migrated_colony(4) [OF assms(1-3)] empty map_of.simps,
        subst again [symmetric], simp add: map_option_case)
  have proc: "gget False (c_processed_envelopes (fold mark_processed (map (\<lambda>p. (i, fst p)) (filter snd (pairs (c_processed_envelopes c)))) x)) e
      = gget False (c_processed_envelopes c) e" if "c_processed_envelopes x = []" for x e
    unfolding marked [OF ok(2)] by (simp add: gget_def fold_mark_processed that image_image)
  show ?thesis
    using acc proc
    by (auto simp: same_colony_def fold_mark_processed fold_add_envelope fold_set_account assms(4) empty
        migrated_colony(2,3) [OF assms(1-3)] outbox_row_of_def comp_def)
qed

theorem migration_roundtrip:
  assumes "ImportState pr cx interrupt st empty_db = Inr d'" and "named_ok st"
  defines "st' \<equiv> fst (load cx zero_scope True d')"
  shows "map_of (st_users st') = map_of (st_users st)" "map_of (st_trades st') = map_of (st_trades st)"
    "map_of (st_pending_actions st') = map_of (st_pending_actions st)" "map_of (st_sessions st') = map_of (st_sessions st)"
    "rel_option same_colony (map_of (st_colonies st') i) (map_of (st_colonies st) i)"
    "map_of (st_colonies st) i = Some c \<Longrightarrow> [e \<leftarrow> db_ledger d'. fst (fst e) = i] = map (\<lambda>e. ((i, le_seq e), e)) (c_ledger c)"
    "map_of (db_bundles d') = map_of (st_bundles st)"
proof -
  have ok: "maps_ok st" using assms(2) by (simp add: named_ok_def)
  note t = migrated_tables [OF assms(1) ok] note m = migrated [OF assms(1) ok]
  have keys: "gkeys (db_users d') = gkeys (st_users st)" "gkeys (db_trades d') = gkeys (st_trades st)"
    "gkeys (db_actions d') = gkeys (st_pending_actions st)" "gkeys (db_colonies d') = gkeys (st_colonies st)"
    using migrated_gkeys [where h = "\<lambda>v. v" and g = ur_doc] migrated_gkeys [where h = "\<lambda>v. v" and g = tr_doc]
      migrated_gkeys [where h = "\<lambda>v. v" and g = pr_doc] migrated_gkeys [of cr_doc _ colonyHeader] t(1-3,6)
    by (simp_all add: contents_def option.map_ident comp_def)
  have named: "[] \<notin> gkeys (db_users d')" "[] \<notin> gkeys (db_trades d')" "[] \<notin> gkeys (db_actions d')" "[] \<notin> gkeys (db_colonies d')"
    using assms(2) by (simp_all add: keys named_ok_def)
  note all = load_all [OF m(3) named, where cx = cx, folded st'_def]
  show "map_of (st_users st') = map_of (st_users st)" "map_of (st_trades st') = map_of (st_trades st)"
    "map_of (st_pending_actions st') = map_of (st_pending_actions st)" "map_of (st_sessions st') = map_of (st_sessions st)"
    by (simp_all only: all t)
  show "rel_option same_colony (map_of (st_colonies st') i) (map_of (st_colonies st) i)"
  proof (cases "map_of (st_colonies st) i")
    case None
    with all(5) [of i] fun_cong [OF t(6), of i] show ?thesis by (simp add: contents_def)
  next
    case (Some c)
    with fun_cong [OF t(6), of i] obtain r where r: "map_of (db_colonies d') i = Some r" "cr_doc r = colonyHeader c"
      by (auto simp: contents_def)
    with reloaded_colony [OF assms(1,2) Some, of "cr_doc r"] all(5) [of i] Some show ?thesis by simp
  qed
  show "[e \<leftarrow> db_ledger d'. fst (fst e) = i] = map (\<lambda>e. ((i, le_seq e), e)) (c_ledger c)" if "map_of (st_colonies st) i = Some c"
    by (rule migrated_colony(1) [OF assms(1,2) that])
  show "map_of (db_bundles d') = map_of (st_bundles st)"
    using t(5) by (simp add: contents_def)
qed

section \<open>The rules of the service in SQL\<close>

text \<open>The columns of a trade repeat fields of its document.\<close>

definition columns_ok :: "db \<Rightarrow> bool" where
  "columns_ok d \<longleftrightarrow> gall (\<lambda>k r. r = trade_row_of (tr_doc r)) (db_trades d)"

lemma visible_row_iff: "visible_row actor (trade_row_of t) = tradeVisibleToActor t actor"
  by (auto simp: visible_row_def trade_row_of_def tradeVisibleToActor_def)

text \<open>The index misses an offer that expired less than a microsecond ago, and nothing else.\<close>

lemma due_row_due:
  assumes "due_row (pg_time (now cx)) (trade_row_of t)"
  shows "due cx t"
proof -
  have "e < now cx" if "pg_time e < pg_time (now cx)" for e
    using that zdiv_mono1 [of "now cx" e 1000] by (fastforce simp: pg_time_def not_less)
  with assms show ?thesis
    by (auto simp: due_row_def trade_row_of_def due_def isExpired_def column_time_def parseTimeOrNil_def split: option.splits if_splits)
qed

lemma due_row_iff:
  assumes "1000 dvd now cx"
  shows "due_row (pg_time (now cx)) (trade_row_of t) = due cx t"
proof -
  from assms obtain n where n: "now cx = 1000 * n" by (elim dvdE)
  have "e div 1000 < n \<longleftrightarrow> e < 1000 * n" for e by linarith
  then have "pg_time e < now cx \<longleftrightarrow> e < now cx" for e by (simp add: pg_time_def n)
  moreover have "pg_time (now cx) = now cx" using assms by (simp add: pg_time_def)
  ultimately show ?thesis
    by (auto simp: due_row_def trade_row_of_def due_def isExpired_def column_time_def parseTimeOrNil_def split: option.split)
qed

lemma columns_filter:
  assumes "columns_ok d" and "\<And>t. P (trade_row_of t) = Q t"
  shows "filter (\<lambda>(k, r). P r) (db_trades d) = filter (\<lambda>(k, r). Q (tr_doc r)) (db_trades d)"
proof (rule filter_cong)
  fix p assume "p \<in> set (db_trades d)"
  with assms(1) have "snd p = trade_row_of (tr_doc (snd p))" by (auto simp: columns_ok_def gall_def list_all_iff)
  with assms(2) show "(case p of (k, r) \<Rightarrow> P r) = (case p of (k, r) \<Rightarrow> Q (tr_doc r))" by (cases p) (metis prod.case snd_conv)
qed simp

lemma set_first: "set (map fst (take n (sort_slice lt xs))) \<subseteq> fst ` set xs"
  by (auto dest!: in_set_takeD)

lemma set_first_all: "length xs \<le> n \<Longrightarrow> set (map fst (take n (sort_slice lt xs))) = fst ` set xs"
  by simp

lemma visible_rules:
  assumes "columns_ok d"
  shows "set (visibleTradesSQL actor n d) \<subseteq> fst ` set (filter (\<lambda>(k, r). tradeVisibleToActor (tr_doc r) actor) (db_trades d))"
    "length (filter (\<lambda>(k, r). tradeVisibleToActor (tr_doc r) actor) (db_trades d)) \<le> n \<Longrightarrow>
     set (visibleTradesSQL actor n d) = fst ` set (filter (\<lambda>(k, r). tradeVisibleToActor (tr_doc r) actor) (db_trades d))"
proof -
  have v: "filter (\<lambda>(k, r). visible_row actor r) (db_trades d) = filter (\<lambda>(k, r). tradeVisibleToActor (tr_doc r) actor) (db_trades d)"
    by (rule columns_filter [where P = "visible_row actor", OF assms(1) visible_row_iff])
  show "set (visibleTradesSQL actor n d) \<subseteq> fst ` set (filter (\<lambda>(k, r). tradeVisibleToActor (tr_doc r) actor) (db_trades d))"
    unfolding visibleTradesSQL_def v by (rule set_first)
  show "length (filter (\<lambda>(k, r). tradeVisibleToActor (tr_doc r) actor) (db_trades d)) \<le> n \<Longrightarrow>
     set (visibleTradesSQL actor n d) = fst ` set (filter (\<lambda>(k, r). tradeVisibleToActor (tr_doc r) actor) (db_trades d))"
    unfolding visibleTradesSQL_def v by (rule set_first_all)
qed

lemma due_ids:
  assumes "columns_ok d" and "k \<in> set (dueTradeIDs (now cx) n d)"
  shows "\<exists>r. (k, r) \<in> set (db_trades d) \<and> due cx (tr_doc r)"
proof -
  from assms(2) obtain r where r: "(k, r) \<in> set (db_trades d)" "due_row (pg_time (now cx)) r"
    unfolding dueTradeIDs_def by (fastforce dest!: in_set_takeD)
  with assms(1) have "r = trade_row_of (tr_doc r)" by (auto simp: columns_ok_def gall_def list_all_iff)
  with r due_row_due show ?thesis by metis
qed

lemma due_ids_all:
  assumes "columns_ok d" and "1000 dvd now cx" and "length (filter (\<lambda>(k, r). due cx (tr_doc r)) (db_trades d)) \<le> n"
  shows "set (dueTradeIDs (now cx) n d) = fst ` set (filter (\<lambda>(k, r). due cx (tr_doc r)) (db_trades d))"
proof -
  have o: "filter (\<lambda>(k, r). due_row (pg_time (now cx)) r) (db_trades d) = filter (\<lambda>(k, r). due cx (tr_doc r)) (db_trades d)"
    by (rule columns_filter [where P = "due_row (pg_time (now cx))", OF assms(1) due_row_iff [OF assms(2)]])
  show ?thesis unfolding dueTradeIDs_def o by (rule set_first_all [OF assms(3)])
qed

end
