(* ===== verification/Settlement.thy ===== *)
theory Settlement
  imports Progress
begin

text \<open>
  What the operations on trades do to the money, account by account: an acceptance debits the buyer,
  its import credits the seller or, when it came too late, decides a refund, a refund pays the buyer
  back, and no other envelope, cancellation or expiry moves anything.  \<open>balance_at s k u\<close> is the
  balance of account \<open>u\<close> of colony \<open>k\<close>.  The last section shows that importing a bundle again has no
  effect.
\<close>

definition balance_at :: "app_state \<Rightarrow> string \<Rightarrow> string \<Rightarrow> int option" where
  "balance_at s k u = Option.bind (map_of (st_colonies s) k) (\<lambda>c. map_option a_balance (map_of (c_accounts c) u))"

definition same_balances :: "app_state \<Rightarrow> app_state \<Rightarrow> bool" where
  "same_balances s s' \<longleftrightarrow> (\<forall>k u. balance_at s' k u = balance_at s k u)"

text \<open>Exactly one account changes, by the given amount.\<close>

definition moves :: "string \<Rightarrow> string \<Rightarrow> int \<Rightarrow> app_state \<Rightarrow> app_state \<Rightarrow> bool" where
  "moves k u d s s' \<longleftrightarrow> (\<exists>b. balance_at s k u = Some b \<and> balance_at s' k u = Some (b + d))
     \<and> (\<forall>k' u'. (k', u') \<noteq> (k, u) \<longrightarrow> balance_at s' k' u' = balance_at s k' u')"

lemma balance_frames [simp]:
  "balance_at (upd_trade tk g s) k u = balance_at s k u" "balance_at (s\<lparr>st_trades := ts\<rparr>) k u = balance_at s k u"
  "balance_at (s\<lparr>st_bundles := bs\<rparr>) k u = balance_at s k u"
  "balance_at (s\<lparr>meta_updated_at := x\<rparr>) k u = balance_at s k u"
  by (simp_all add: balance_at_def)

lemma balance_quiet [simp]:
  "(\<And>c. c_accounts (f c) = c_accounts c) \<Longrightarrow> balance_at (upd_colony ck f s) k u = balance_at s k u"
  by (cases "map_of (st_colonies s) k") (auto simp: balance_at_def)

lemma balance_set:
  assumes "map_of (st_colonies s) ck = Some c" and "map_of (c_accounts c) v = Some a"
  shows "balance_at (upd_colony ck (upd_account v (\<lambda>a. a\<lparr>a_balance := b\<rparr>)) s) k u =
    (if k = ck \<and> u = v then Some b else balance_at s k u)"
  using assms by (auto simp: balance_at_def upd_account_def split: option.splits)

lemma same_balances_refl [simp]: "same_balances s s"
  by (simp add: same_balances_def)

lemma same_balances_updates [simp]:
  "same_balances s (upd_trade tk g s') = same_balances s s'" "same_balances s (s'\<lparr>st_trades := ts\<rparr>) = same_balances s s'"
  "same_balances s (s'\<lparr>st_bundles := bs\<rparr>) = same_balances s s'"
  "same_balances s (s'\<lparr>meta_updated_at := x\<rparr>) = same_balances s s'"
  "(\<And>c. c_accounts (f c) = c_accounts c) \<Longrightarrow> same_balances s (upd_colony ck f s') = same_balances s s'"
  by (simp_all add: same_balances_def)

lemma moves_updates [simp]:
  "moves k u d s (upd_trade tk g s') = moves k u d s s'"
  "moves k u d s (s'\<lparr>meta_updated_at := x\<rparr>) = moves k u d s s'"
  "(\<And>c. c_accounts (f c) = c_accounts c) \<Longrightarrow> moves k u d s (upd_colony ck f s') = moves k u d s s'"
  by (simp_all add: moves_def)

lemma moves_set:
  assumes "map_of (st_colonies s) k = Some c" and "map_of (c_accounts c) u = Some a" and "b = a_balance a + d"
  shows "moves k u d s (upd_colony k (upd_account u (\<lambda>a. a\<lparr>a_balance := b\<rparr>)) s)"
  using assms(3) unfolding moves_def balance_set [OF assms(1,2)]
  by (auto simp: balance_at_def assms(1,2))

interpretation bal: state_relation same_balances
  by unfold_locales simp_all

section \<open>Acceptance\<close>

lemma accepted_state_moves:
  assumes "sys_ok pr s" and t: "map_of (st_trades s) tk = Some t"
    and c: "map_of (st_colonies s) (u_colony_id buyer) = Some c"
    and a: "map_of (c_accounts c) (u_id buyer) = Some acc" and bal: "t_price t \<le> a_balance acc"
  shows "moves (u_colony_id buyer) (u_id buyer) (- t_price t) s (accepted_state pr cx actor tk t buyer acc env envID sig s)"
proof -
  have ok: "struct_ok pr s" using assms(1) by (simp add: sys_ok_def money_ok_def)
  have "ValidAmount (t_price t)" using struct_lookup(2) [OF ok t] by (simp add: trade_ok_def)
  from debit_amount [OF colony_account [OF struct_lookup(1) [OF ok c] a] this bal]
  have "wrap64 (a_balance acc - t_price t) = a_balance acc + - t_price t" by simp
  from moves_set [OF c a this] show ?thesis by (simp add: accepted_state_def Let_def)
qed

lemma accepted_state_trade:
  "map_of (st_trades s) tk = Some t \<Longrightarrow>
   \<exists>t'. map_of (st_trades (accepted_state pr cx actor tk t buyer acc env envID sig s)) tk = Some t'
     \<and> t_status t' = StatusAcceptancePendingExport \<and> t_acceptance_envelope_id t' = envID"
  by (simp add: accepted_state_def Let_def)

lemma accepted_state_outbox:
  "map_of (st_colonies s) (u_colony_id buyer) = Some c \<Longrightarrow>
   \<exists>c'. map_of (st_colonies (accepted_state pr cx actor tk t buyer acc env envID sig s)) (u_colony_id buyer) = Some c'
     \<and> c_outbox c' = c_outbox c @ [env]"
  by (simp add: accepted_state_def Let_def push_outbox_def upd_account_def)

section \<open>Imports\<close>

lemma decideRefund_Inr:
  assumes "decideRefund pr cx draw source target tk trigger reason s = (Inr r, s')"
    and "map_of (st_trades s) tk = Some t"
  shows "r = (tk, True) \<and> same_balances s s'
    \<and> (\<exists>t'. map_of (st_trades s') tk = Some t' \<and> t_status t' = StatusRefundPendingExport \<and> t_refund_envelope_id t' \<noteq> [])"
proof -
  have adv: "advance_at tk StatusRefundPendingExport s = Inr s1 \<Longrightarrow>
      s1 = upd_trade tk (\<lambda>_. t\<lparr>t_status := StatusRefundPendingExport\<rparr>) s" for s1
    using advance_at_Inr [OF _ assms(2)] by blast
  have env: "NewID cx draw ''env'' = Inr i \<Longrightarrow> i \<noteq> []" for i
    by (auto simp: NewID_def split: sum.splits)
  from assms show ?thesis
    by (auto simp: decideRefund_def Let_def env dest!: adv split: sum.splits if_splits)
qed

lemma creditAcceptance_result:
  assumes "creditAcceptance pr cx draw source target tk env payload seller acc s = (Inr r, s')"
    and "sys_ok pr s" and t: "map_of (st_trades s) tk = Some t"
    and c: "map_of (st_colonies s) target = Some c" and a: "map_of (c_accounts c) (u_id seller) = Some acc"
  shows "r = (tk, True) \<and> moves target (u_id seller) (t_price t) s s' \<and> t_status t = StatusAcceptancePendingExport
    \<and> (\<exists>t'. map_of (st_trades s') tk = Some t' \<and> t_status t' = StatusSettlementPendingExport)"
proof -
  have ok: "struct_ok pr s" using assms(2) by (simp add: sys_ok_def money_ok_def)
  from creditAcceptance_Inr [OF assms(1) t] obtain b nc no s1 e envID pl
    where b: "AddChecked (a_balance acc) (t_price t) = Inr b"
      and adv: "advance_at tk StatusSettlementPendingExport s = Inr s1"
      and s': "s' = upd_colony target (appendLedger pr cx ''trade_acceptance_imported'' (u_id seller) pl)
        (upd_trade tk (\<lambda>t. t\<lparr>t_settlement_envelope_id := envID\<rparr>)
        (upd_colony target (push_outbox e)
        (upd_trade tk (\<lambda>t. t\<lparr>t_accepted_at := ap_accepted_at payload, t_acceptance_envelope_id := e_id env,
            t_buyer_signature := ap_buyer_signature payload, t_settled_at := format_rfc3339 (now cx)\<rparr>)
        (upd_colony source (\<lambda>c. c\<lparr>c_net_obligations :=
            AList.update (c_id (colony_at s target)) no (c_net_obligations c)\<rparr>)
        (upd_colony target (\<lambda>c. c\<lparr>c_net_claims := AList.update (c_id (colony_at s source)) nc (c_net_claims c)\<rparr>)
        (upd_colony target (upd_account (u_id seller) (\<lambda>a. a\<lparr>a_balance := b\<rparr>)) s1))))))"
    by blast
  from advance_at_Inr [OF adv t] have st: "t_status t = StatusAcceptancePendingExport"
    and s1: "s1 = upd_trade tk (\<lambda>_. t\<lparr>t_status := StatusSettlementPendingExport\<rparr>) s" by (simp_all add: allowed_simps)
  have val: "ValidAmount (t_price t)" using struct_lookup(2) [OF ok t] by (simp add: trade_ok_def)
  from credit_amount [OF b colony_account [OF struct_lookup(1) [OF ok c] a] val] have "b = a_balance acc + t_price t" by simp
  with moves_set [OF _ a, of s1 target b "t_price t"] c have "moves target (u_id seller) (t_price t) s1
      (upd_colony target (upd_account (u_id seller) (\<lambda>a. a\<lparr>a_balance := b\<rparr>)) s1)" by (simp add: s1)
  moreover have "balance_at s1 = balance_at s" by (simp add: s1 fun_eq_iff)
  ultimately have "moves target (u_id seller) (t_price t) s s'" by (simp add: s' moves_def)
  moreover have "r = (tk, True)"
    using assms(1) by (auto simp: creditAcceptance_def Let_def split: sum.splits)
  ultimately show ?thesis using st t by (simp add: s' s1)
qed

text \<open>An offer that expired or was cancelled before it was accepted has no acceptance on record.\<close>

lemma closed_unaccepted:
  assumes "sys_ok pr s" and "map_of (st_trades s) tk = Some t"
    and "t_status t = StatusExpired \<or> t_status t = StatusCancelled"
  shows "t_acceptance_envelope_id t = []"
proof -
  have "struct_ok pr s" using assms(1) by (simp add: sys_ok_def money_ok_def)
  then have "trade_ok t" using struct_lookup(2) assms(2) by blast
  with assms(3) show ?thesis by (auto simp: trade_ok_def unaccepted_def)
qed

lemma importAcceptance_Inr:
  assumes "importAcceptance pr cx draw source target env s = (Inr (tk, True), s')" and ok: "sys_ok pr s"
    and c: "map_of (st_colonies s) target = Some c"
  shows "\<exists>payload t seller. decode_acceptance (e_payload env) = Some payload \<and> ap_trade_id payload = tk
    \<and> map_of (st_trades s) tk = Some t \<and> t_status t = StatusAcceptancePendingExport
    \<and> ap_debit_amount payload = t_price t \<and> map_of (st_users s) (t_seller_user_id t) = Some seller
    \<and> (if acceptedAfterExpiry t (ap_accepted_at payload) = Inr True
       then same_balances s s' \<and> (\<exists>t'. map_of (st_trades s') tk = Some t' \<and> t_status t' = StatusRefundPendingExport)
       else moves target (u_id seller) (t_price t) s s'
         \<and> (\<exists>t'. map_of (st_trades s') tk = Some t' \<and> t_status t' = StatusSettlementPendingExport))"
proof -
  note closed = closed_unaccepted [OF ok]
  note credit = creditAcceptance_result [OF _ ok _ c]
  from assms(1) c show ?thesis
    by (auto simp: importAcceptance_def Let_def dest: closed dest!: decideRefund_Inr credit
        split: option.splits if_splits sum.splits go_error.splits bool.splits)
qed


lemma applyRefund_result:
  assumes "applyRefund pr cx tk actorID typ extra s = (Inr r, s')" and "sys_ok pr s"
    and t: "map_of (st_trades s) tk = Some t"
  shows "moves (t_buyer_colony_id t) (t_buyer_user_id t) (t_price t) s s' \<and> IsEscrowed (t_status t)
    \<and> (\<exists>t'. map_of (st_trades s') tk = Some t' \<and> t_status t' = StatusRefunded)"
proof -
  let ?ck = "t_buyer_colony_id t" and ?u = "t_buyer_user_id t"
  have ok: "struct_ok pr s" using assms(2) by (simp add: sys_ok_def money_ok_def)
  from applyRefund_Inr [OF assms(1) t] obtain c a b s1 payload
    where c: "map_of (st_colonies s) ?ck = Some c" and a: "map_of (c_accounts c) ?u = Some a"
      and b: "AddChecked (a_balance a) (t_price t) = Inr b" and adv: "advance_at tk StatusRefunded s = Inr s1"
      and s': "s' = upd_colony ?ck (appendLedger pr cx typ actorID payload)
        (upd_trade tk (\<lambda>t. t\<lparr>t_refunded_at := format_rfc3339 (now cx)\<rparr>)
          (upd_colony ?ck (upd_account ?u (\<lambda>a. a\<lparr>a_balance := b\<rparr>)) s1))"
    by blast
  from advance_at_Inr [OF adv t] have st: "IsEscrowed (t_status t)"
    and s1: "s1 = upd_trade tk (\<lambda>_. t\<lparr>t_status := StatusRefunded\<rparr>) s" by (simp_all add: allowed_simps)
  have val: "ValidAmount (t_price t)" using struct_lookup(2) [OF ok t] by (simp add: trade_ok_def)
  from credit_amount [OF b colony_account [OF struct_lookup(1) [OF ok c] a] val] have "b = a_balance a + t_price t" by simp
  with moves_set [OF _ a, of s1 ?ck b "t_price t"] c have
    "moves ?ck ?u (t_price t) s1 (upd_colony ?ck (upd_account ?u (\<lambda>a. a\<lparr>a_balance := b\<rparr>)) s1)" by (simp add: s1)
  moreover have "balance_at s1 = balance_at s" by (simp add: s1 fun_eq_iff)
  ultimately have "moves ?ck ?u (t_price t) s s'" by (simp add: s' moves_def)
  with st t show ?thesis by (simp add: s' s1)
qed

lemma importRefund_Inr:
  assumes "importRefund pr cx source target env s = (Inr (tk, True), s')" and ok: "sys_ok pr s"
  shows "\<exists>payload t. decode_refund (e_payload env) = Some payload \<and> rp_trade_id payload = tk
    \<and> map_of (st_trades s) tk = Some t \<and> t_status t = StatusRefundPendingExport \<and> rp_refund_amount payload = t_price t
    \<and> t_buyer_colony_id t = c_id (colony_at s target) \<and> rp_buyer_user_id payload = t_buyer_user_id t
    \<and> moves (t_buyer_colony_id t) (t_buyer_user_id t) (t_price t) s s'
    \<and> (\<exists>t'. map_of (st_trades s') tk = Some t' \<and> t_status t' = StatusRefunded)"
  using assms(1)
  by (auto simp: importRefund_def Let_def classify_apply_iff dest!: applyRefund_result [OF _ ok]
      split: option.splits if_splits stepKind.splits prod.splits sum.splits)

section \<open>What moves no money\<close>

lemma advance_same [simp]: "advance_at tk to s' = Inr s'' \<Longrightarrow> same_balances s s'' = same_balances s s'"
  by (auto dest: advance_at_frame)

lemma decideRefund_same: "decideRefund pr cx draw source target tk trigger reason s = (x, s') \<Longrightarrow> same_balances s s'"
  by (auto simp: decideRefund_def Let_def split: sum.splits if_splits)

lemma not_applied:
  assumes "importEnvelope pr cx draw source target env s = (Inr (tk, False), s')"
  shows "s' = s"
proof -
  have d: "decideRefund pr cx draw source target k trigger reason s \<noteq> (Inr (tk, False), s')" for k trigger reason
    by (auto simp: decideRefund_def Let_def split: sum.splits if_splits)
  have c: "creditAcceptance pr cx draw source target k env payload seller acc s \<noteq> (Inr (tk, False), s')"
    for k payload seller acc
    by (auto simp: creditAcceptance_def Let_def split: sum.splits)
  have "importOffer pr cx source target env s = (Inr (tk, False), s') \<Longrightarrow> s' = s"
    by (auto simp: importOffer_def Let_def split: option.splits if_splits sum.splits go_error.splits prod.splits)
  moreover have "importAcceptance pr cx draw source target env s = (Inr (tk, False), s') \<Longrightarrow> s' = s"
    using d c by (auto simp: importAcceptance_def Let_def split: option.splits if_splits sum.splits go_error.splits bool.splits)
  moreover have "importSettlement pr cx source target env s = (Inr (tk, False), s') \<Longrightarrow> s' = s"
    by (auto simp: importSettlement_def Let_def split: option.splits if_splits sum.splits prod.splits)
  moreover have "importCancel pr cx draw source target env s = (Inr (tk, False), s') \<Longrightarrow> s' = s"
    using d by (auto simp: importCancel_def Let_def split: option.splits if_splits go_error.splits stepKind.splits)
  moreover have "importRefund pr cx source target env s = (Inr (tk, False), s') \<Longrightarrow> s' = s"
    by (auto simp: importRefund_def Let_def split: option.splits if_splits stepKind.splits prod.splits sum.splits)
  ultimately show ?thesis using assms by (auto simp: importEnvelope_def split: if_splits)
qed

lemma importEnvelope_other:
  assumes "importEnvelope pr cx draw source target env s = (Inr (tk, applied), s')"
    and "e_type env \<noteq> ''acceptance''" and "e_type env \<noteq> ''refund''"
  shows "same_balances s s'"
proof -
  have "importOffer pr cx source target env s = (Inr (tk, applied), s') \<Longrightarrow> same_balances s s'"
    by (auto simp: importOffer_def Let_def split: option.splits if_splits sum.splits go_error.splits prod.splits)
  moreover have "importSettlement pr cx source target env s = (Inr (tk, applied), s') \<Longrightarrow> same_balances s s'"
    by (auto simp: importSettlement_def Let_def split: option.splits if_splits sum.splits prod.splits)
  moreover have "importCancel pr cx draw source target env s = (Inr (tk, applied), s') \<Longrightarrow> same_balances s s'"
    by (auto simp: importCancel_def Let_def dest: decideRefund_same
        split: option.splits if_splits go_error.splits stepKind.splits)
  ultimately show ?thesis using assms by (auto simp: importEnvelope_def split: if_splits)
qed

lemma CreateOffer_same: "same_balances s (snd (CreateOffer pr cx tok req s))"
  by (auto simp: CreateOffer_def CreateOffer_update_def Let_def intro!: bal.store_update split: if_splits sum.splits option.splits prod.splits)

lemma CancelTrade_same: "same_balances s (snd (CancelTrade pr cx tok tk s))"
  by (auto simp: CancelTrade_def CancelTrade_update_def Let_def push_outbox_def intro!: bal.store_update split: if_splits sum.splits option.splits)

lemma ExportBundle_same: "same_balances s (snd (ExportBundle pr cx tok c dest s))"
  by (auto simp: ExportBundle_def Let_def intro!: bal.store_update split: if_splits sum.splits option.splits)

lemma sweep_same: "sweep pr cx tks n s' = (x, s'') \<Longrightarrow> same_balances s s' \<Longrightarrow> same_balances s s''"
  by (induction tks arbitrary: n s') (auto simp: Let_def split: if_splits sum.splits)

lemma SweepExpired_same: "same_balances s (snd (SweepExpired pr cx s))"
  by (auto simp: SweepExpired_def Let_def intro!: bal.store_update elim: sweep_same)

section \<open>Importing a bundle again\<close>

abbreviation was_processed :: "app_state \<Rightarrow> string \<Rightarrow> string \<Rightarrow> bool" where
  "was_processed s target eid \<equiv> gget False (c_processed_envelopes (colony_at s target)) eid"

lemma progress_processed:
  assumes "progress d s s'" and "was_processed s target e"
  shows "was_processed s' target e"
proof (cases "map_of (st_colonies s) target")
  case None
  with assms(2) show ?thesis by (simp add: colony_at_def gget_def zero_colony_def)
next
  case (Some c)
  with assms show ?thesis unfolding progress_def gkept_def colony_progress_def by fastforce
qed

lemma import_messages_marks:
  "import_messages pr cx i source target msgs res s = (Inr r, s') \<Longrightarrow> map_of (st_colonies s) target = Some c \<Longrightarrow>
   Some env \<in> set msgs \<Longrightarrow> was_processed s' target (e_id env)"
proof (induction msgs arbitrary: i res s c)
  case (Cons m msgs)
  show ?case
  proof (cases m)
    case None
    with Cons show ?thesis by (auto simp only: import_messages_None) auto
  next
    case (Some e)
    from Cons.prems(1) [unfolded Some] show ?thesis
    proof (cases rule: import_messages_round)
      case skip
      show ?thesis
      proof (cases "m = Some env")
        case True
        with skip(1) Some progress_processed [OF import_messages_progress [OF skip(2), of False]] show ?thesis by simp
      next
        case False
        with Cons.prems(3) Cons.IH [OF skip(2) Cons.prems(2)] show ?thesis by simp
      qed
    next
      case (step tk applied s1 res')
      obtain c1 where c1: "map_of (st_colonies s1) target = Some c1"
        using same_parties_colony [OF importEnvelope_parties [OF step(5)] Cons.prems(2)] by blast
      have c2: "map_of (st_colonies (mark_processed target (e_id e) s1)) target =
          Some (c1\<lparr>c_processed_envelopes := AList.update (e_id e) True (c_processed_envelopes c1)\<rparr>)"
        using c1 by simp
      show ?thesis
      proof (cases "m = Some env")
        case True
        have "was_processed (mark_processed target (e_id e) s1) target (e_id e)"
          by (simp only: at_lookup(1) [OF c2]) (simp add: gget_def)
        with True Some progress_processed [OF import_messages_progress [OF step(7), of False]] show ?thesis by simp
      next
        case False
        with Cons.prems(3) Cons.IH [OF step(7) c2] show ?thesis by simp
      qed
    qed
  qed
qed simp

definition envelopes :: "envelope option list \<Rightarrow> nat" where
  "envelopes msgs = length (filter (\<lambda>m. m \<noteq> None) msgs)"

lemma import_messages_replay:
  "import_messages pr cx i source target msgs res s = (Inr r, s') \<Longrightarrow>
   (\<And>env. Some env \<in> set msgs \<Longrightarrow> was_processed s target (e_id env)) \<Longrightarrow>
   s' = s \<and> ib_imported_count r = ib_imported_count res
   \<and> ib_skipped_duplicates r = ib_skipped_duplicates res + envelopes msgs"
proof (induction msgs arbitrary: i res)
  case (Cons m msgs)
  show ?case
  proof (cases m)
    case None
    with Cons show ?thesis by (simp add: envelopes_def)
  next
    case (Some e)
    with Cons.prems(2) have "was_processed s target (e_id e)" by simp
    with Cons.prems(1) Some have "import_messages pr cx (Suc i) source target msgs
        (res\<lparr>ib_skipped_duplicates := ib_skipped_duplicates res + 1\<rparr>) s = (Inr r, s')"
      by (simp add: Let_def split: if_splits)
    from Cons.IH [OF this] Cons.prems(2) Some show ?thesis by (simp add: envelopes_def)
  qed
qed (simp add: envelopes_def)

lemma ImportBundle_Inr:
  assumes "ImportBundle pr cx tok col b s = (Inr r, s')"
  shows "\<exists>(actor :: user) c src res s1 pl. map_of (st_colonies s) col = Some c \<and> map_of (st_colonies s) (b_from_colony_id b) = Some src
    \<and> gget [] (c_trusted_colonies c) (c_id src) = c_public_key src \<and> b_to_colony_id b = col
    \<and> import_messages pr cx 0 (b_from_colony_id b) col (b_messages b)
        \<lparr>ib_bundle_id = b_id b, ib_imported_count = 0, ib_skipped_duplicates = 0,
         ib_generated_outbox = 0, ib_processed_types = [], ib_trades = []\<rparr> s = (Inr res, s1)
    \<and> ib_imported_count r = ib_imported_count res \<and> ib_skipped_duplicates r = ib_skipped_duplicates res
    \<and> ib_generated_outbox r = int (length (c_outbox (colony_at s1 col))) - int (length (c_outbox c))
    \<and> s' = (upd_colony col (appendLedger pr cx ''bundle_imported'' (u_id actor) pl)
        (s1\<lparr>st_bundles := AList.update (b_id b) b (st_bundles s1)\<rparr>))\<lparr>meta_updated_at := format_rfc3339 (now cx)\<rparr>"
  using assms
  by (auto simp: ImportBundle_def Let_def StoreUpdateScoped_Inr split: if_splits option.splits sum.splits prod.splits)

lemma bundle_replay:
  assumes first: "ImportBundle pr cx tok col b s = (Inr r, s1)" and later: "progress False s1 s2"
    and again: "ImportBundle pr cx' tok' col b s2 = (Inr r', s3)"
  shows "ib_imported_count r' = 0 \<and> ib_skipped_duplicates r' = envelopes (b_messages b) \<and> ib_generated_outbox r' = 0
    \<and> st_trades s3 = st_trades s2 \<and> same_balances s2 s3"
proof -
  from ImportBundle_Inr [OF first] obtain actor :: user and c res m pl
    where c: "map_of (st_colonies s) col = Some c"
      and imp: "import_messages pr cx 0 (b_from_colony_id b) col (b_messages b)
        \<lparr>ib_bundle_id = b_id b, ib_imported_count = 0, ib_skipped_duplicates = 0,
         ib_generated_outbox = 0, ib_processed_types = [], ib_trades = []\<rparr> s = (Inr res, m)"
      and s1: "s1 = (upd_colony col (appendLedger pr cx ''bundle_imported'' (u_id actor) pl)
        (m\<lparr>st_bundles := AList.update (b_id b) b (st_bundles m)\<rparr>))\<lparr>meta_updated_at := format_rfc3339 (now cx)\<rparr>"
    by blast
  have "progress False m s1" by (simp add: s1 progress_later)
  from progress_trans [OF this later] have seen: "was_processed s2 col (e_id env)" if "Some env \<in> set (b_messages b)" for env
    using import_messages_marks [OF imp c that] progress_processed by blast
  from ImportBundle_Inr [OF again] obtain actor' :: user and c' res' m' pl'
    where c': "map_of (st_colonies s2) col = Some c'"
      and imp': "import_messages pr cx' 0 (b_from_colony_id b) col (b_messages b)
        \<lparr>ib_bundle_id = b_id b, ib_imported_count = 0, ib_skipped_duplicates = 0,
         ib_generated_outbox = 0, ib_processed_types = [], ib_trades = []\<rparr> s2 = (Inr res', m')"
      and r': "ib_imported_count r' = ib_imported_count res'" "ib_skipped_duplicates r' = ib_skipped_duplicates res'"
        "ib_generated_outbox r' = int (length (c_outbox (colony_at m' col))) - int (length (c_outbox c'))"
      and s3: "s3 = (upd_colony col (appendLedger pr cx' ''bundle_imported'' (u_id actor') pl')
        (m'\<lparr>st_bundles := AList.update (b_id b) b (st_bundles m')\<rparr>))\<lparr>meta_updated_at := format_rfc3339 (now cx')\<rparr>"
    by blast
  from import_messages_replay [OF imp'] seen have "m' = s2" "ib_imported_count res' = 0"
    "ib_skipped_duplicates res' = envelopes (b_messages b)" by simp_all
  with r' c' show ?thesis by (simp add: s3)
qed

section \<open>What a sweep does\<close>

definition expired_by :: "ctx \<Rightarrow> trade \<Rightarrow> trade" where
  "expired_by cx t = (if due cx t then t\<lparr>t_status := StatusExpired\<rparr> else t)"

lemma advance_due:
  assumes "map_of (st_trades s) tk = Some t" and "due cx t"
  shows "advance_at tk StatusExpired s = Inr (upd_trade tk (\<lambda>_. t\<lparr>t_status := StatusExpired\<rparr>) s)"
  using assms by (auto simp: advance_at_def AdvanceTrade_def TransitionAllowed_iff due_def trade_at_def gget_def)

lemma sweep_result:
  "distinct tks \<Longrightarrow> set tks \<subseteq> gkeys (st_trades s) \<Longrightarrow>
   \<exists>s'. sweep pr cx tks n s = (Inr (n + length (filter (\<lambda>k. due cx (trade_at s k)) tks)), s') \<and>
     (\<forall>k. map_of (st_trades s') k =
        (if k \<in> set tks then map_option (expired_by cx) (map_of (st_trades s) k) else map_of (st_trades s) k))"
proof (induction tks arbitrary: n s)
  case (Cons tk tks)
  then obtain t where t: "map_of (st_trades s) tk = Some t" by (auto simp: gkeys_iff)
  then have at: "trade_at s tk = t" by (simp add: trade_at_def gget_def)
  show ?case
  proof (cases "due cx t")
    case False
    with Cons.IH [of s n] Cons.prems t at show ?thesis by (auto simp: expired_by_def)
  next
    case True
    let ?s = "upd_colony (t_seller_colony_id t) (appendLedger pr cx ''trade_offer_expired'' []
        (go_map [(''trade_id'', JStr (t_id t)), (''expires_at'', JStr (t_expires_at t))]))
        (upd_trade tk (\<lambda>_. t\<lparr>t_status := StatusExpired\<rparr>) s)"
    have look: "map_of (st_trades ?s) k = (if k = tk then Some (t\<lparr>t_status := StatusExpired\<rparr>) else map_of (st_trades s) k)" for k
      using t by (simp add: upd_colony_def upd_trade_def)
    have same: "trade_at ?s k = trade_at s k" if "k \<in> set tks" for k
      using Cons.prems(1) that look [of k] by (auto simp: trade_at_def gget_def)
    have "set tks \<subseteq> gkeys (st_trades ?s)" using Cons.prems(2) by (simp add: upd_colony_def upd_trade_def)
    with Cons.IH [of ?s "n + 1"] Cons.prems(1) obtain s' where s':
      "sweep pr cx tks (n + 1) ?s = (Inr (n + 1 + length (filter (\<lambda>k. due cx (trade_at ?s k)) tks)), s')"
      "\<And>k. map_of (st_trades s') k = (if k \<in> set tks then map_option (expired_by cx) (map_of (st_trades ?s) k)
         else map_of (st_trades ?s) k)" by auto
    have "filter (\<lambda>k. due cx (trade_at ?s k)) tks = filter (\<lambda>k. due cx (trade_at s k)) tks"
      by (rule filter_cong [OF refl]) (simp only: same)
    with s' True at t Cons.prems(1) show ?thesis
      by (auto simp: Let_def advance_due [OF t True] look expired_by_def)
  qed
qed simp

lemma due_count:
  assumes "gmap_ok (st_trades s)"
  shows "length (filter (\<lambda>k. due cx (trade_at s k)) (map fst (st_trades s))) = length (filter (\<lambda>(k, t). due cx t) (st_trades s))"
proof -
  have "due cx (trade_at s (fst p)) = (case p of (k, t) \<Rightarrow> due cx t)" if "p \<in> set (st_trades s)" for p
    using in_set_map_of [OF assms] that by (cases p) (simp add: trade_at_def gget_def)
  then show ?thesis by (simp add: filter_map comp_def cong: filter_cong)
qed

lemma sweep_all:
  assumes "gmap_ok (st_trades s)"
  shows "\<exists>s'. sweep pr cx (map fst (st_trades s)) 0 s = (Inr (length (filter (\<lambda>(k, t). due cx t) (st_trades s))), s') \<and>
    (\<forall>k. map_of (st_trades s') k = map_option (expired_by cx) (map_of (st_trades s) k))"
proof -
  have "distinct (map fst (st_trades s))" using assms by (simp add: gmap_ok_def)
  from sweep_result [OF this, of s pr cx 0] obtain s' where s':
    "sweep pr cx (map fst (st_trades s)) 0 s =
       (Inr (length (filter (\<lambda>k. due cx (trade_at s k)) (map fst (st_trades s)))), s')"
    "\<And>k. map_of (st_trades s') k = (if k \<in> set (map fst (st_trades s))
       then map_option (expired_by cx) (map_of (st_trades s) k) else map_of (st_trades s) k)"
    by (auto simp: gkeys_def)
  moreover have "map_of (st_trades s) k = None" if "k \<notin> set (map fst (st_trades s))" for k
    using that by (simp add: map_of_eq_None_iff)
  ultimately show ?thesis using due_count [OF assms, of cx] by auto
qed

lemma SweepExpired_result:
  assumes "gmap_ok (st_trades s)" and "save_error cx = None"
  shows "\<exists>s'. SweepExpired pr cx s = (Inr (length (filter (\<lambda>(k, t). due cx t) (st_trades s))), s') \<and>
    (\<forall>k. map_of (st_trades s') k = map_option (expired_by cx) (map_of (st_trades s) k))"
proof (cases "length (filter (\<lambda>(k, t). due cx t) (st_trades s)) = 0")
  case True
  then have "expired_by cx t = t" if "map_of (st_trades s) k = Some t" for k t
    using map_of_SomeD [OF that] by (auto simp: expired_by_def filter_empty_conv)
  then have "map_option (expired_by cx) (map_of (st_trades s) k) = map_of (st_trades s) k" for k
    by (cases "map_of (st_trades s) k") auto
  with True show ?thesis by (auto simp: SweepExpired_def)
next
  case False
  from sweep_all [OF assms(1), of pr cx] False assms(2) show ?thesis
    by (auto simp: SweepExpired_def Let_def StoreUpdateScoped_def)
qed

end
