(* ===== verification/Backends.thy ===== *)
theory Backends
  imports Migration Settlement
begin

text \<open>
  The two backends side by side: a sweep of PostgreSQL (which finds the offers by an index, loads only them and writes
  only what changed, \<open>SweepExpired\<close> of \<open>service/trade_lifecycle.go\<close>) does to the trades what a sweep of the file store does.
\<close>

section \<open>What loading gives\<close>

definition cols_ok :: "app_state \<Rightarrow> bool" where
  "cols_ok s \<longleftrightarrow> gmap_ok (st_colonies s) \<and> gall (\<lambda>i c. gmap_ok (c_accounts c)) (st_colonies s)"

lemma cols_ok_upd:
  "cols_ok s \<Longrightarrow> (\<And>c. gmap_ok (c_accounts c) \<Longrightarrow> gmap_ok (c_accounts (f c))) \<Longrightarrow> cols_ok (upd_colony i f s)"
  by (auto simp: cols_ok_def upd_colony_def intro!: gall_map_entry)

lemma cols_ok_each:
  "cols_ok s \<Longrightarrow> (\<And>r c. gmap_ok (c_accounts c) \<Longrightarrow> gmap_ok (c_accounts (chg r c))) \<Longrightarrow> cols_ok (upd_each tgt chg rows s)"
  unfolding upd_each_def by (induction rows arbitrary: s) (simp_all add: cols_ok_upd)

lemma cols_ok_insert:
  "cols_ok s \<Longrightarrow> gmap_ok (c_accounts c) \<Longrightarrow> cols_ok (s\<lparr>st_colonies := AList.update i c (st_colonies s)\<rparr>)"
  by (auto simp: cols_ok_def intro!: gall_update)

lemma cols_ok_scanColonies:
  "cols_ok (fst so) \<Longrightarrow> list_all (\<lambda>(i, r). gmap_ok (c_accounts (cr_doc r))) rows \<Longrightarrow> cols_ok (fst (scanColonies l rows so))"
  by (induction l rows so rule: scanColonies.induct) (auto simp: cols_ok_insert)

lemma cols_ok_load_colonies:
  assumes "gall (\<lambda>i r. colonyHeader (cr_doc r) = cr_doc r) (db_colonies d)" and "cols_ok (fst so)"
  shows "cols_ok (fst (load_colonies sc w f d so))"
proof -
  have "gmap_ok (c_accounts c)" if "colonyHeader c = c" for c
    by (subst that [symmetric]) (simp add: colonyHeader_def)
  with assms(1) have "list_all (\<lambda>(i, r). gmap_ok (c_accounts (cr_doc r))) (db_colonies d)"
    by (auto simp: gall_def list_all_iff)
  then have "list_all (\<lambda>(i, r). gmap_ok (c_accounts (cr_doc r))) (select ids (db_colonies d))"
    "list_all (\<lambda>(i, r). gmap_ok (c_accounts (cr_doc r))) (sort_key fst (db_colonies d))" for ids
    by (auto simp: select_def list_all_iff)
  with assms(2) show ?thesis
    by (auto simp: load_colonies_def Let_def split: option.split intro!: cols_ok_scanColonies)
qed

lemma put_account_keeps [simp]:
  "cols_ok s \<Longrightarrow> cols_ok (put_account c u b s)" "st_trades (put_account c u b s) = st_trades s"
  "st_users (put_account c u b s) = st_users s" "st_sessions (put_account c u b s) = st_sessions s"
  "st_pending_actions (put_account c u b s) = st_pending_actions s" "st_bundles (put_account c u b s) = st_bundles s"
  by (auto simp: put_account_def upd_colony_def [of c _ s] intro!: cols_ok_upd [unfolded upd_colony_def])

lemma scan_listed_keeps:
  "cols_ok s \<Longrightarrow> cols_ok (scan_listed rows s)" "st_trades (scan_listed rows s) = st_trades s"
  "st_users (scan_listed rows s) = st_users s" "st_sessions (scan_listed rows s) = st_sessions s"
  "st_pending_actions (scan_listed rows s) = st_pending_actions s" "st_bundles (scan_listed rows s) = st_bundles s"
  by (induction rows s rule: scan_listed.induct) (auto split: option.split)

text \<open>The parts of the loaded state, after the documents were read.\<close>

lemma loaded_steps:
  assumes "db_ok d"
  shows "st_trades (fst (load cx sc w d)) = map (\<lambda>(k, r). (k, tr_doc r)) (select (f_trades (discover cx sc d)) (db_trades d))"
    and "maps_ok (fst (load cx sc w d))"
proof -
  let ?f = "discover cx sc d"
  let ?listed = "listed_accounts sc ?f d"
  let ?users = "add_ids (f_users ?f) (map (\<lambda>((c, u), b). u) ?listed)"
  let ?so1 = "load_colonies sc w ?f d (newEmptyState cx, newOrig)"
  let ?so2 = "load_sessions sc d (load_actions (f_actions ?f) d (load_trades (f_trades ?f) d (load_users ?users d ?so1)))"
  let ?so3 = "load_accounts sc ?f ?users d ?so2"
  let ?so4 = "load_processed sc ?f d (load_outbox w ?f d (scan_listed ?listed (fst ?so3), snd ?so3))"
  let ?st = "load_ledger sc d (fst ?so4)"
  have l: "fst (load cx sc w d) = (if sc_counts sc then loadCounts ?f d ?st else ?st)"
    unfolding load_def Let_def by (simp only: fst_conv)
  have parts: "st_trades (fst (load cx sc w d)) = st_trades (fst ?so2)" "st_users (fst (load cx sc w d)) = st_users (fst ?so2)"
    "st_sessions (fst (load cx sc w d)) = st_sessions (fst ?so2)" "st_bundles (fst (load cx sc w d)) = st_bundles (fst ?so2)"
    "st_pending_actions (fst (load cx sc w d)) = st_pending_actions (fst ?so2)"
    "st_colonies (fst (load cx sc w d)) = st_colonies ?st"
    unfolding l by (auto simp: loadCounts_def load_ledger_def load_processed_def load_outbox_def load_accounts_def
        scan_processed_each scan_outbox_each scan_accounts_each scan_listed_keeps split: option.split)
  show "st_trades (fst (load cx sc w d)) = map (\<lambda>(k, r). (k, tr_doc r)) (select (f_trades ?f) (db_trades d))"
    unfolding parts by (simp add: load_sessions_def load_actions_def load_trades_def Let_def)
  note keys = db_okD [OF assms]
  have docs: "gmap_ok (map (\<lambda>(k, r). (k, g r)) m)" if "gmap_ok m" for g :: "'x \<Rightarrow> 'y" and m
    using that by (simp add: gmap_ok_def case_prod_unfold comp_def)
  have "gmap_ok (sort_key fst (filter P (db_sessions d)))" for P
    using keys(3) unfolding gmap_ok_def by (intro map_of_sort_key(2)) (simp add: distinct_map_filter)
  then have flat: "gmap_ok (st_users (fst ?so2))" "gmap_ok (st_trades (fst ?so2))" "gmap_ok (st_sessions (fst ?so2))"
    "gmap_ok (st_pending_actions (fst ?so2))" "gmap_ok (st_bundles (fst ?so2))"
    using keys by (simp_all add: load_sessions_def load_actions_def load_trades_def load_users_def load_colonies_def Let_def
        docs newEmptyState_def split: option.split)
  have "cols_ok (newEmptyState cx)" by (simp add: cols_ok_def newEmptyState_def)
  then have "cols_ok (fst ?so1)" using keys(9) by (intro cols_ok_load_colonies) simp_all
  then have "cols_ok (fst ?so2)"
    by (simp add: load_sessions_def load_actions_def load_trades_def load_users_def Let_def cols_ok_def)
  then have "cols_ok ?st"
    by (auto simp: load_ledger_def load_processed_def load_outbox_def load_accounts_def
        scan_processed_each scan_outbox_each scan_accounts_each set_account_def add_envelope_def mark_processed_def
        split: option.split intro!: cols_ok_each cols_ok_upd scan_listed_keeps(1))
  with flat show "maps_ok (fst (load cx sc w d))" unfolding maps_ok_def parts cols_ok_def by simp
qed
section \<open>The expiry sweep on PostgreSQL\<close>

text \<open>
  \<open>SweepExpired\<close> when the store is PostgreSQL: the offers that are due come from the index, \<open>query\<close> is the
  error that query may end with; \<open>i1\<close> and \<open>i2\<close> interrupt the read and the write.
\<close>

definition pg_SweepExpired ::
    "prims \<Rightarrow> ctx \<Rightarrow> go_error option \<Rightarrow> (nat \<Rightarrow> pg_error option) \<Rightarrow> (nat \<Rightarrow> pg_error option) \<Rightarrow> db \<Rightarrow> nat result \<times> db" where
  "pg_SweepExpired pr cx query i1 i2 d =
     (case query of
        Some err \<Rightarrow> (Inl err, d)
      | None \<Rightarrow>
          let ids = dueTradeIDs (now cx) 200 d in
          if ids = [] then (Inr 0, d)
          else let sc = zero_scope\<lparr>sc_trades := ids\<rparr>
            in case pg_StoreReadScoped cx i1 sc (\<lambda>s. Inr (length (filter (\<lambda>(k, t). due cx t) (st_trades s)))) d of
                 Inl err \<Rightarrow> (Inl err, d)
               | Inr n \<Rightarrow>
                   if n = 0 then (Inr 0, d)
                   else pg_StoreUpdateScoped cx i2 sc (\<lambda>s. sweep pr cx (map fst (st_trades s)) 0 s) d)"

lemma sweep_maps_ok: "maps_ok s \<Longrightarrow> maps_ok (snd (sweep pr cx tks n s))"
proof (induction pr cx tks n s rule: sweep.induct)
  case (2 pr cx tk tks n s)
  have "maps_ok s1" if "advance_at tk StatusExpired s = Inr s1" for s1
    using that 2 by (auto simp: advance_at_def maps_ok_def upd_trade_def split: sum.splits)
  moreover have "maps_ok (upd_colony i (appendLedger pr cx ty u pl) s1)" if "maps_ok s1" for i ty u pl s1
    using that by (auto simp: maps_ok_def upd_colony_def appendLedger_def Let_def intro!: gall_map_entry)
  ultimately show ?case using 2 by (auto simp: Let_def split: sum.split)
qed simp

text \<open>Counting by keys.\<close>

lemma count_keys:
  assumes "gmap_ok m"
  shows "length (filter (\<lambda>(k, t). P t) m) = card {k. \<exists>t. map_of m k = Some t \<and> P t}"
proof -
  have "distinct (map fst (filter (\<lambda>(k, t). P t) m))" using assms by (simp add: gmap_ok_def distinct_map_filter)
  then have "length (filter (\<lambda>(k, t). P t) m) = card (fst ` set (filter (\<lambda>(k, t). P t) m))"
    by (metis distinct_card length_map set_map)
  moreover have "fst ` set (filter (\<lambda>(k, t). P t) m) = {k. \<exists>t. map_of m k = Some t \<and> P t}"
    using in_set_map_of [OF assms] map_of_SomeD by (force simp: image_iff)
  ultimately show ?thesis by simp
qed

lemma named_trades:
  assumes "ids \<noteq> []" and "[] \<notin> set ids"
  shows "set (f_trades (discover cx (zero_scope\<lparr>sc_trades := ids\<rparr>) d)) = set ids"
proof -
  have "filter (\<lambda>i. i \<noteq> []) ids = ids" using assms(2) by (auto simp: filter_id_conv)
  moreover have "select [] (db_actions d) = []" by (simp add: select_def case_prod_unfold)
  ultimately show ?thesis
    using assms(1) by (simp add: discover_def isAll_def discover_named_def zero_scope_def add_ids_def Let_def split: option.split)
qed
lemma loaded_trades:
  assumes "db_ok d" and "ids \<noteq> []" and "[] \<notin> set ids"
  shows "map_of (st_trades (fst (load cx (zero_scope\<lparr>sc_trades := ids\<rparr>) w d))) k =
    (if k \<in> set ids then ct_trades (contents d) k else None)"
  using db_okD(4) [OF assms(1)]
  by (simp add: loaded_steps(1) [OF assms(1)] map_of_docs map_of_select named_trades [OF assms(2,3)] contents_def)

lemma read_Inr:
  assumes "pg_StoreReadScoped cx interrupt sc fn d = Inr out"
  shows "fn (fst (load cx sc False d)) = Inr out"
proof -
  obtain st o' d1 where l: "load cx sc False d = (st, o', d1)" by (cases "load cx sc False d")
  let ?a = "\<lambda>n. once cx (interrupt n) sc False (\<lambda>st. (fn st, st)) d"
  obtain d' where "retry ?a 0 4 = Inr (out, d')"
    using assms unfolding pg_StoreReadScoped_def run_def by (cases "retry ?a 0 4") (auto split: prod.splits)
  from retry_Inr [OF this] obtain n where "?a n = Inr (out, d')" by auto
  then show ?thesis by (auto simp: once_def l split: sum.splits prod.splits option.splits)
qed

text \<open>The sweep of some of the trades: what is due among them expires, and only that.\<close>

lemma pg_sweep_trades:
  assumes "db_ok d" and "columns_ok d" and "[] \<notin> gkeys (db_trades d)"
    and "pg_SweepExpired pr cx query i1 i2 d = (Inr n, d')"
  defines "ids \<equiv> dueTradeIDs (now cx) 200 d"
  shows "ct_trades (contents d') k =
      (if k \<in> set ids then map_option (expired_by cx) (ct_trades (contents d) k) else ct_trades (contents d) k)"
    and "n = card (set ids)"
proof -
  have due_row: "\<exists>r. (i, r) \<in> set (db_trades d) \<and> due cx (tr_doc r)" if "i \<in> set ids" for i
    using due_ids [OF assms(2)] that unfolding ids_def by blast
  then have named: "[] \<notin> set ids" using assms(3) by (force simp: gkeys_def)
  have ids_due: "\<exists>t. ct_trades (contents d) i = Some t \<and> due cx t" if "i \<in> set ids" for i
    using due_row [OF that] in_set_map_of [OF db_okD(4) [OF assms(1)]] by (fastforce simp: contents_def)
  let ?sc = "zero_scope\<lparr>sc_trades := ids\<rparr>"
  let ?fn = "\<lambda>s. sweep pr cx (map fst (st_trades s)) 0 s"
  let ?L = "\<lambda>w. fst (load cx ?sc w d)"
  have "ct_trades (contents d') k = (if k \<in> set ids then map_option (expired_by cx) (ct_trades (contents d) k) else ct_trades (contents d) k)
      \<and> n = card (set ids)"
  proof (cases "ids = []")
    case True
    with assms(4) show ?thesis by (auto simp: pg_SweepExpired_def ids_def [symmetric] Let_def split: option.splits)
  next
    case False
    note trades = loaded_trades [OF assms(1) False named, of cx]
    have count: "length (filter (\<lambda>(k, t). due cx t) (st_trades (?L w))) = card (set ids)" for w
    proof -
      have "gmap_ok (st_trades (?L w))" using loaded_steps(2) [OF assms(1)] by (simp add: maps_ok_def)
      moreover have "{i. \<exists>t. map_of (st_trades (?L w)) i = Some t \<and> due cx t} = set ids"
        using ids_due by (auto simp: trades split: if_splits)
      ultimately show ?thesis by (simp add: count_keys)
    qed
    from False have card: "card (set ids) \<noteq> 0" by simp
    have ne: "filter (\<lambda>(k, t). due cx t) (st_trades (?L w)) \<noteq> []" for w
    proof
      assume "filter (\<lambda>(k, t). due cx t) (st_trades (?L w)) = []"
      with count [of w] card show False by simp
    qed
    from assms(4) False ne [of False] have wr: "pg_StoreUpdateScoped cx i2 ?sc ?fn d = (Inr n, d')"
      by (auto simp: pg_SweepExpired_def ids_def [symmetric] Let_def dest!: read_Inr split: option.splits sum.splits if_splits)
    have L: "maps_ok (?L True)" by (rule loaded_steps(2) [OF assms(1)])
    have "maps_ok (snd (?fn (?L True)))" by (rule sweep_maps_ok [OF L])
    from pg_write_exact [OF wr assms(1) this] obtain st' where st': "?fn (?L True) = (Inr n, st')"
      "contents d' = overwrite st' (fst (snd (load cx ?sc True d))) (contents (prune_expired cx ?sc True d))" by blast
    have "gmap_ok (st_trades (?L True))" using L by (simp add: maps_ok_def)
    from sweep_all [OF this, of pr cx] st'(1) count [of True]
    have "n = card (set ids)" and t: "map_of (st_trades st') i = map_option (expired_by cx) (map_of (st_trades (?L True)) i)" for i
      by auto
    moreover have "ct_trades (contents d') k = (ct_trades (contents d) ++ map_of (st_trades st')) k"
      unfolding st'(2) by (simp add: overwrite_def contents_def prune_expired_def)
    ultimately show ?thesis
      by (auto simp: map_add_def t trades split: option.split)
  qed
  then show "ct_trades (contents d') k =
      (if k \<in> set ids then map_option (expired_by cx) (ct_trades (contents d) k) else ct_trades (contents d) k)"
    and "n = card (set ids)" by blast+
qed

text \<open>Both backends sweep alike.\<close>

theorem backends_sweep:
  assumes "db_ok d" and "columns_ok d" and "[] \<notin> gkeys (db_trades d)"
    and few: "length (filter (\<lambda>(k, r). due cx (tr_doc r)) (db_trades d)) \<le> 200"
    and s: "gmap_ok (st_trades s)" "map_of (st_trades s) = ct_trades (contents d)" and "save_error cx = None"
    and "1000 dvd now cx" and run: "pg_SweepExpired pr cx query i1 i2 d = (Inr n, d')"
  shows "\<exists>s'. SweepExpired pr cx s = (Inr n, s') \<and> map_of (st_trades s') = ct_trades (contents d')"
proof -
  let ?ids = "dueTradeIDs (now cx) 200 d"
  have ids: "set ?ids = fst ` set (filter (\<lambda>(k, r). due cx (tr_doc r)) (db_trades d))"
    by (rule due_ids_all [OF assms(2,8) few])
  have "k \<in> set ?ids \<longleftrightarrow> (\<exists>t. ct_trades (contents d) k = Some t \<and> due cx t)" for k
    unfolding ids using in_set_map_of [OF db_okD(4) [OF assms(1)]]
    by (fastforce simp: contents_def image_iff dest: map_of_SomeD)
  then have due: "set ?ids = {k. \<exists>t. map_of (st_trades s) k = Some t \<and> due cx t}" by (auto simp: s(2))
  note pg = pg_sweep_trades [OF assms(1-3) run]
  obtain s' where s': "SweepExpired pr cx s = (Inr (length (filter (\<lambda>(k, t). due cx t) (st_trades s))), s')"
    "\<And>k. map_of (st_trades s') k = map_option (expired_by cx) (map_of (st_trades s) k)"
    using SweepExpired_result [OF s(1) assms(7)] by blast
  have "n = length (filter (\<lambda>(k, t). due cx t) (st_trades s))"
    using pg(2) by (simp add: count_keys [OF s(1)] due)
  moreover have "map_of (st_trades s') k = ct_trades (contents d') k" for k
    unfolding pg(1) s'(2) s(2) [symmetric] due
    by (cases "map_of (st_trades s) k") (auto simp: expired_by_def)
  ultimately show ?thesis using s'(1) by (intro exI [of _ s']) auto
qed

end
