(* ===== verification/Answers.thy ===== *)
theory Answers
  imports Backends Queries
begin

text \<open>
  Reading from the two stores: the list of trades (\<open>ListTrades\<close> of \<open>service/view.go\<close>) from PostgreSQL, which finds
  the trades, the users and the colonies to load from the token, is the list from the file store.
\<close>

section \<open>Lists sorted by a total order\<close>

lemma sorted_wrt_unique:
  assumes "mset xs = mset ys" and "sorted_wrt le xs" "sorted_wrt le ys"
    and "\<And>a b. a \<in> set xs \<Longrightarrow> b \<in> set xs \<Longrightarrow> le a b \<Longrightarrow> le b a \<Longrightarrow> a = b"
  shows "xs = ys"
  using assms
proof (induction xs arbitrary: ys)
  case (Cons x xs)
  then obtain y zs where ys: "ys = y # zs" by (cases ys) auto
  have sets: "insert x (set xs) = insert y (set zs)"
    using arg_cong [OF Cons.prems(1), of set_mset] by (simp add: ys)
  have "x = y"
  proof (rule ccontr)
    assume ne: "x \<noteq> y"
    with sets have "x \<in> set zs" "y \<in> set xs" by auto
    with Cons.prems(2,3) ys have "le x y" "le y x" by auto
    with Cons.prems(4) sets ne show False by (metis insertI1 insertCI list.simps(15))
  qed
  moreover have "xs = zs"
  proof (rule Cons.IH)
    show "mset xs = mset zs" using Cons.prems(1) ys \<open>x = y\<close> by simp
  qed (use Cons.prems ys in auto)
  ultimately show ?case by (simp add: ys)
qed simp

lemma sort_slice_unique:
  assumes "weak_order lt" and "mset xs = mset ys"
    and "\<And>a b. a \<in> set xs \<Longrightarrow> b \<in> set xs \<Longrightarrow> a \<noteq> b \<Longrightarrow> lt a b \<or> lt b a"
  shows "sort_slice lt xs = sort_slice lt ys"
proof (rule sorted_wrt_unique [where le = "\<lambda>a b. \<not> lt b a"])
  show "mset (sort_slice lt xs) = mset (sort_slice lt ys)" using assms(2) by simp
qed (use assms sorted_sort_slice in auto)

lemma SortTrades_unique:
  assumes "mset xs = mset ys" and "distinct (map tv_id xs)"
  shows "SortTrades xs = SortTrades ys"
  unfolding SortTrades_def
proof (rule sort_slice_unique [OF _ assms(1)])
  show "weak_order (\<lambda>a b. if tv_created_at a = tv_created_at b then tv_id a > tv_id b else tv_created_at a > tv_created_at b)"
    unfolding weak_order_def by (auto split: if_splits)
next
  fix a b assume "a \<in> set xs" "b \<in> set xs" "a \<noteq> b"
  with assms(2) have "tv_id a \<noteq> tv_id b" by (auto simp: distinct_map dest: inj_onD)
  then show "(if tv_created_at a = tv_created_at b then tv_id a > tv_id b else tv_created_at a > tv_created_at b) \<or>
      (if tv_created_at b = tv_created_at a then tv_id b > tv_id a else tv_created_at b > tv_created_at a)"
    by auto
qed

section \<open>Listing trades\<close>

text \<open>A database that represents a state, as far as the list of trades looks at it.\<close>

definition represents :: "db \<Rightarrow> app_state \<Rightarrow> bool" where
  "represents d s \<longleftrightarrow> db_ok d \<and> columns_ok d \<and>
     gall (\<lambda>k r. sr_user_id r = s_user_id (sr_doc r)) (db_sessions d) \<and>
     ct_users (contents d) = map_of (st_users s) \<and> ct_sessions (contents d) = map_of (st_sessions s) \<and>
     ct_trades (contents d) = map_of (st_trades s) \<and> ct_headers (contents d) = map_option colonyHeader \<circ> map_of (st_colonies s) \<and>
     gmap_ok (st_trades s) \<and> gall (\<lambda>k t. t_id t = k) (st_trades s) \<and>
     [] \<notin> gkeys (st_users s) \<and> [] \<notin> gkeys (st_trades s) \<and> [] \<notin> gkeys (st_colonies s)"

definition list_scope :: "string \<Rightarrow> scope" where
  "list_scope token = zero_scope\<lparr>sc_tokens := [token], sc_trades_for_actor := 500\<rparr>"

definition pg_ListTrades ::
    "prims \<Rightarrow> ctx \<Rightarrow> (nat \<Rightarrow> pg_error option) \<Rightarrow> string \<Rightarrow> db \<Rightarrow> trade_view list result" where
  "pg_ListTrades pr cx interrupt token d = pg_StoreReadScoped cx interrupt (list_scope token) (ListTrades pr cx token) d"

lemma list_flags [simp]:
  "\<not> isAll (list_scope token)" "sc_tokens (list_scope token) = [token]" "sc_trades_for_actor (list_scope token) = 500"
  "sc_users (list_scope token) = []" "sc_usernames (list_scope token) = []" "\<not> sc_all_users (list_scope token)"
  "sc_actions (list_scope token) = []" "\<not> sc_all_actions (list_scope token)" "sc_trades (list_scope token) = []"
  "sc_colonies (list_scope token) = []" "\<not> sc_user_colonies (list_scope token)" "\<not> sc_colony_headers (list_scope token)"
  "sc_ledger (list_scope token) = None" "sc_accounts_limit (list_scope token) = 0" "\<not> sc_counts (list_scope token)"
  "sc_envelope_ids (list_scope token) = []" "sc_user_sessions (list_scope token) = []"
  by (simp_all add: list_scope_def zero_scope_def isAll_def)

text \<open>What is found for the token of a user.\<close>

lemma list_found:
  fixes d :: db and cx :: ctx
  assumes "token_users cx [token] d = u # us"
  defines "f \<equiv> discover cx (list_scope token) d"
    and "ids \<equiv> (case userByID u d of None \<Rightarrow> [] | Some actor \<Rightarrow> filter (\<lambda>i. i \<noteq> []) (visibleTradesSQL actor 500 d))"
  shows "f_actor f = userByID u d" "f_trades f = ids"
    "set (f_users f) = {i. i \<noteq> [] \<and> (i \<in> set (u # us) \<or> (\<exists>k r. (k, r) \<in> set (db_trades d) \<and> k \<in> set ids \<and>
       (i = tr_seller_user_id r \<or> i = tr_buyer_user_id r)))}"
    "set (f_colonies f) = {i. i \<noteq> [] \<and> (\<exists>k r. (k, r) \<in> set (db_trades d) \<and> k \<in> set ids \<and>
       (i = tr_seller_colony_id r \<or> i = tr_buyer_colony_id r))}"
proof -
  have sel: "select [] (db_actions d) = []" by (simp add: select_def case_prod_unfold)
  have ids: "(case userByID u d of None \<Rightarrow> [] | Some actor \<Rightarrow> filter (\<lambda>i. i \<noteq> []) (visibleTradesSQL actor 500 d)) = ids"
    by (simp add: ids_def)
  have f: "f = discover_named cx (list_scope token) d" by (simp add: f_def discover_def)
  show "f_actor f = userByID u d"
    unfolding f discover_named_def Let_def by (simp add: assms(1))
  show t: "f_trades f = ids"
    unfolding f discover_named_def Let_def by (simp add: assms(1) sel add_ids_def ids_def split: option.split)
  show "set (f_users f) = {i. i \<noteq> [] \<and> (i \<in> set (u # us) \<or> (\<exists>k r. (k, r) \<in> set (db_trades d) \<and> k \<in> set ids \<and>
       (i = tr_seller_user_id r \<or> i = tr_buyer_user_id r)))}"
    unfolding f discover_named_def Let_def 
    by (simp add: assms(1) sel add_ids_def ids_def select_def split: option.split) force
  show "set (f_colonies f) = {i. i \<noteq> [] \<and> (\<exists>k r. (k, r) \<in> set (db_trades d) \<and> k \<in> set ids \<and>
       (i = tr_seller_colony_id r \<or> i = tr_buyer_colony_id r))}"
    unfolding f discover_named_def Let_def 
    by (simp add: assms(1) sel add_ids_def ids_def select_def split: option.split) force
qed

text \<open>What is loaded for it.\<close>

lemma list_loaded:
  fixes d :: db and cx :: ctx and token :: string
  assumes "db_ok d"
  defines "f \<equiv> discover cx (list_scope token) d" and "L \<equiv> fst (load cx (list_scope token) False d)"
  shows "map_of (st_users L) k = (if k \<in> set (f_users f) then ct_users (contents d) k else None)"
    "map_of (st_sessions L) k = (if k = token then ct_sessions (contents d) k else None)"
    "map_option c_name (map_of (st_colonies L) k) =
       (if k \<in> set (f_colonies f) then map_option c_name (ct_headers (contents d) k) else None)"
proof -
  let ?so1 = "scanColonies False (select (f_colonies f) (db_colonies d)) (newEmptyState cx, newOrig)"
  let ?so2 = "load_sessions (list_scope token) d (load_actions (f_actions f) d (load_trades (f_trades f) d (load_users (f_users f) d ?so1)))"
  have listed: "listed_accounts (list_scope token) f d = []" by (simp add: listed_accounts_def)
  have so1: "load_colonies (list_scope token) False f d so = scanColonies False (select (f_colonies f) (db_colonies d)) so" for so
    by (simp add: load_colonies_def)
  have none: "add_ids us [] = us" for us by (simp add: add_ids_def)
  obtain rows where L: "L = upd_each (\<lambda>r. fst (fst r)) set_account rows (fst ?so2)"
  proof (cases "f_colonies f \<noteq> [] \<and> (f_users f \<noteq> [] \<or> isAll (list_scope token))")
    case True
    then show ?thesis
      by (intro that) (simp add: L_def load_def Let_def listed so1 none load_ledger_def load_processed_def load_outbox_def
        load_accounts_def scan_accounts_each flip: f_def)
  next
    case False
    have "upd_each (\<lambda>r. fst (fst r)) set_account [] s = s" for s by (simp add: upd_each_def)
    with False show ?thesis
      by (intro that [of "[]"]) (auto simp: L_def load_def Let_def listed so1 none load_ledger_def load_processed_def load_outbox_def
        load_accounts_def simp flip: f_def)
  qed
  note so2 = load_users_def load_trades_def load_actions_def load_sessions_def Let_def
  note keys = db_okD [OF assms(1)]
  show "map_of (st_users L) k = (if k \<in> set (f_users f) then ct_users (contents d) k else None)"
    unfolding L by (simp add: so2 map_of_docs map_of_select keys contents_def)
  have "map_of (sort_key fst (filter (\<lambda>(k, r). k = token) (db_sessions d))) k = (if k = token then map_of (db_sessions d) k else None)"
    using keys(3) by (subst map_of_sort_key) (auto simp: gmap_ok_def distinct_map_filter map_of_filter_keys)
  then show "map_of (st_sessions L) k = (if k = token then ct_sessions (contents d) k else None)"
    unfolding L by (simp add: so2 map_of_docs contents_def)
  have name: "c_name (fold set_account rs c) = c_name c" for rs c
    by (induction rs arbitrary: c) (simp_all add: set_account_def)
  show "map_option c_name (map_of (st_colonies L) k) =
      (if k \<in> set (f_colonies f) then map_option c_name (ct_headers (contents d) k) else None)"
    unfolding L by (simp add: upd_each_lookup so2 scanColonies_lookup newEmptyState_def map_of_select keys name option.map_comp comp_def contents_def)
qed

lemma list_found_none:
  assumes "token_users cx [token] d = []"
  shows "f_users (discover cx (list_scope token) d) = []"
proof -
  have "select [] (db_actions d) = []" "select [] (db_trades d) = []" by (simp_all add: select_def case_prod_unfold)
  then show ?thesis
    unfolding discover_def discover_named_def Let_def by (simp add: assms add_ids_def)
qed

text \<open>What a view of a trade looks at.\<close>

lemma toTradeView_cong:
  assumes "\<And>i. i = t_seller_user_id t \<or> i = t_buyer_user_id t \<Longrightarrow> map_of (st_users a) i = map_of (st_users b) i"
    and "\<And>i. i = t_seller_colony_id t \<or> i = t_buyer_colony_id t \<Longrightarrow>
      map_option c_name (map_of (st_colonies a) i) = map_option c_name (map_of (st_colonies b) i)"
  shows "toTradeView a t = toTradeView b t"
proof -
  have name: "(case x of None \<Rightarrow> [] | Some c \<Rightarrow> c_name c) = (case map_option c_name x of None \<Rightarrow> [] | Some n \<Rightarrow> n)" for x
    by (cases x) simp_all
  show ?thesis unfolding toTradeView_def Let_def name using assms by simp
qed

lemma c_name_header: "map_option c_name (map_option colonyHeader x) = map_option c_name x"
  by (cases x) (simp_all add: colonyHeader_def)

text \<open>The user of a token, where the sessions and users that are there are those of another state.\<close>

lemma actor_transfer:
  assumes "actorFromToken pr cx L token = Inr (ak, actor)"
    and "\<And>x. map_of (st_sessions L) token = Some x \<Longrightarrow> map_of (st_sessions s) token = Some x"
    and "\<And>i x. map_of (st_users L) i = Some x \<Longrightarrow> map_of (st_users s) i = Some x"
  shows "actorFromToken pr cx s token = Inr (ak, actor)"
proof -
  from assms(1) have n: "actorFromTokenNoMFA cx L token = Inr (ak, actor)"
    and m: "\<not> (admin_mfa_required pr \<and> IsAdminUser actor \<and> \<not> u_mfa_enabled actor)"
    by (auto simp: actorFromToken_def split: sum.splits if_splits)
  from n assms(2,3) have "actorFromTokenNoMFA cx s token = Inr (ak, actor)"
    by (auto simp: actorFromTokenNoMFA_def split: if_splits option.splits)
  with m show ?thesis by (auto simp: actorFromToken_def)
qed

lemma actor_rows:
  assumes "actorFromToken pr cx s token = Inr (ak, actor)"
  obtains sess where "map_of (st_sessions s) token = Some sess" "s_user_id sess = ak" "map_of (st_users s) ak = Some actor"
  using assms by (auto simp: actorFromToken_def actorFromTokenNoMFA_def split: if_splits option.splits sum.splits)

lemma list_actor:
  assumes "represents d s" and "actorFromToken pr cx (fst (load cx (list_scope token) False d)) token = Inr (ak, actor)"
  shows "actorFromToken pr cx s token = Inr (ak, actor)" "ak \<in> set (f_users (discover cx (list_scope token) d))"
proof -
  have rep: "db_ok d" "ct_users (contents d) = map_of (st_users s)" "ct_sessions (contents d) = map_of (st_sessions s)"
    using assms(1) by (simp_all add: represents_def)
  have a: "actorFromToken pr cx (fst (load cx (list_scope token) False d)) token = Inr (ak, actor)" using assms(2) by simp
  show "actorFromToken pr cx s token = Inr (ak, actor)"
    by (rule actor_transfer [OF a]) (auto simp: list_loaded [OF rep(1)] rep(2,3) split: if_splits)
  show "ak \<in> set (f_users (discover cx (list_scope token) d))"
  proof (rule actor_rows [OF a])
    assume "map_of (st_users (fst (load cx (list_scope token) False d))) ak = Some actor"
    then show ?thesis by (simp add: list_loaded(1) [OF rep(1)] split: if_splits)
  qed
qed

text \<open>What the state of the list shows of the visible trades, the users and the colonies.\<close>

lemma list_state:
  fixes d :: db and cx :: ctx and token :: string
  assumes "represents d s" and "actorFromToken pr cx (fst (load cx (list_scope token) False d)) token = Inr (ak, actor)"
    and "length (filter (\<lambda>(k, r). tradeVisibleToActor (tr_doc r) actor) (db_trades d)) \<le> 500"
  defines "L \<equiv> fst (load cx (list_scope token) False d)"
  shows "map_of (st_trades L) k = Some t \<longleftrightarrow> map_of (st_trades s) k = Some t \<and> tradeVisibleToActor t actor"
    and "map_of (st_trades L) k = Some t \<Longrightarrow> toTradeView L t = toTradeView s t"
    and "gmap_ok (st_trades L)"
proof -
  let ?f = "discover cx (list_scope token) d"
  have rep: "db_ok d" "columns_ok d" "ct_users (contents d) = map_of (st_users s)" "ct_sessions (contents d) = map_of (st_sessions s)"
    "ct_trades (contents d) = map_of (st_trades s)" "ct_headers (contents d) = map_option colonyHeader \<circ> map_of (st_colonies s)"
    using assms(1) by (simp_all add: represents_def)
  have named: "map_of (st_users s) [] = None" "map_of (st_trades s) [] = None" "map_of (st_colonies s) [] = None"
    using assms(1) by (simp_all add: represents_def map_of_None_gkeys)
  note L = list_loaded [OF rep(1), of cx token, folded L_def]
  note keys = db_okD [OF rep(1)]
  note actor = list_actor [OF assms(1,2)]
  from actor_rows [OF actor(1)] obtain sess where sess: "map_of (st_sessions s) token = Some sess" "s_user_id sess = ak"
    and ak: "ak \<in> set (f_users ?f)" "map_of (st_users s) ak = Some actor" using actor(2) by blast
  obtain u us where tu: "token_users cx [token] d = u # us"
    using list_found_none [of cx token d] ak(1) by (cases "token_users cx [token] d") auto
  have "u = ak"
  proof -
    have "u \<in> set (token_users cx [token] d)" by (simp add: tu)
    then obtain r where r: "(token, r) \<in> set (db_sessions d)" "u = sr_user_id r" by (auto simp: token_users_def)
    with in_set_map_of [OF keys(3)] have "ct_sessions (contents d) token = Some (sr_doc r)" by (simp add: contents_def)
    with sess rep(4) have "sr_doc r = sess" by simp
    moreover have "sr_user_id r = s_user_id (sr_doc r)" using assms(1) r(1) by (auto simp: represents_def gall_def list_all_iff)
    ultimately show ?thesis using r(2) sess(2) by simp
  qed
  let ?ids = "filter (\<lambda>i. i \<noteq> []) (visibleTradesSQL actor 500 d)"
  have act: "userByID u d = Some actor"
    using ak(2) rep(3) by (simp add: \<open>u = ak\<close> userByID_def contents_def fun_eq_iff)
  note found = list_found [OF tu, unfolded act option.case]
  have vis: "k \<in> set ?ids \<longleftrightarrow> (\<exists>r. (k, r) \<in> set (db_trades d) \<and> tradeVisibleToActor (tr_doc r) actor)" for k
  proof -
    have "[] \<notin> fst ` set (db_trades d)"
    proof
      assume "[] \<in> fst ` set (db_trades d)"
      then obtain r where "map_of (db_trades d) [] = Some r" using in_set_map_of [OF keys(4)] by force
      then have "ct_trades (contents d) [] = Some (tr_doc r)" by (simp add: contents_def)
      with named(2) rep(5) show False by simp
    qed
    moreover have "k \<in> set ?ids \<longleftrightarrow> k \<noteq> [] \<and> k \<in> fst ` set (filter (\<lambda>(k, r). tradeVisibleToActor (tr_doc r) actor) (db_trades d))"
      by (simp add: visible_rules(2) [OF rep(2) assms(3)] conj_commute)
    moreover have "k \<in> fst ` set (filter (\<lambda>(k, r). P r) m) \<longleftrightarrow> (\<exists>r. (k, r) \<in> set m \<and> P r)" for P and m :: "trade_row gmap"
      by force
    ultimately show ?thesis by (metis fst_conv image_eqI)
  qed
  have row: "(k, r) \<in> set (db_trades d) \<longleftrightarrow> map_of (db_trades d) k = Some r" for k r
    using in_set_map_of [OF keys(4)] map_of_SomeD by metis
  have lt: "st_trades L = map (\<lambda>(k, r). (k, tr_doc r)) (select ?ids (db_trades d))"
    using loaded_steps(1) [OF rep(1), of cx "list_scope token" False] found(2) by (simp add: L_def)
  show "gmap_ok (st_trades L)"
    using keys(4) unfolding lt by (simp add: gmap_ok_def case_prod_unfold comp_def) (metis gmap_ok_def gmap_ok_select)
  show trades: "map_of (st_trades L) k = Some t \<longleftrightarrow> map_of (st_trades s) k = Some t \<and> tradeVisibleToActor t actor" for k t
    using arg_cong [OF rep(5), of "\<lambda>f. f k"] vis row
    by (auto simp: lt map_of_docs map_of_select keys contents_def)
  assume k: "map_of (st_trades L) k = Some t"
  then obtain r where r: "(k, r) \<in> set (db_trades d)" "t = tr_doc r" "k \<in> set ?ids"
    using vis row by (auto simp: lt map_of_docs map_of_select keys split: if_splits)
  then have row_of: "r = trade_row_of t" using rep(2) by (auto simp: columns_ok_def gall_def list_all_iff)
  have cols: "tr_seller_user_id r = t_seller_user_id t" "tr_buyer_user_id r = t_buyer_user_id t"
    "tr_seller_colony_id r = t_seller_colony_id t" "tr_buyer_colony_id r = t_buyer_colony_id t"
    unfolding row_of by (simp_all add: trade_row_of_def)
  show "toTradeView L t = toTradeView s t"
  proof (rule toTradeView_cong)
    fix i assume i: "i = t_seller_user_id t \<or> i = t_buyer_user_id t"
    then have "i \<in> set (f_users ?f)" if "i \<noteq> []" unfolding found(3) cols [symmetric] using r(1,3) that by blast
    then show "map_of (st_users L) i = map_of (st_users s) i" using named(1) by (cases "i = []") (simp_all add: L(1) rep(3))
  next
    fix i assume i: "i = t_seller_colony_id t \<or> i = t_buyer_colony_id t"
    then have "i \<in> set (f_colonies ?f)" if "i \<noteq> []" unfolding found(4) cols [symmetric] using r(1,3) that by blast
    then show "map_option c_name (map_of (st_colonies L) i) = map_option c_name (map_of (st_colonies s) i)"
      using named(3) by (cases "i = []") (simp_all add: L(3) rep(6) c_name_header)
  qed
qed

lemma distinct_views:
  assumes "gmap_ok ts" and "\<And>k t. (k, t) \<in> set ts \<Longrightarrow> t_id t = k"
  shows "distinct (map tv_id (map (\<lambda>(k, t). toTradeView s t) (filter (\<lambda>(k, t). P t) ts)))"
proof -
  have "map tv_id (map (\<lambda>(k, t). toTradeView s t) (filter (\<lambda>(k, t). P t) ts)) = map fst (filter (\<lambda>(k, t). P t) ts)"
    using assms(2) by auto
  with assms(1) show ?thesis by (simp only: gmap_ok_def distinct_map_filter)
qed

lemma same_views:
  fixes view view' :: "trade \<Rightarrow> trade_view"
  assumes "\<And>k t. (k, t) \<in> set ts \<Longrightarrow> view t = view' t"
    and "\<And>k t. (k, t) \<in> set ts \<longleftrightarrow> (k, t) \<in> set ts' \<and> P t"
  shows "set (map (\<lambda>(k, t). view t) (filter (\<lambda>(k, t). P t) ts)) = set (map (\<lambda>(k, t). view' t) (filter (\<lambda>(k, t). P t) ts'))"
proof (rule set_eqI)
  fix x :: trade_view
  have img: "x \<in> set (map (\<lambda>(k, t). v t) (filter (\<lambda>(k, t). P t) m)) \<longleftrightarrow> (\<exists>k t. (k, t) \<in> set m \<and> P t \<and> x = v t)"
    for v :: "trade \<Rightarrow> trade_view" and m
    by auto
  show "x \<in> set (map (\<lambda>(k, t). view t) (filter (\<lambda>(k, t). P t) ts)) \<longleftrightarrow>
      x \<in> set (map (\<lambda>(k, t). view' t) (filter (\<lambda>(k, t). P t) ts'))"
    unfolding img using assms by metis
qed

lemma lists_alike:
  assumes "represents d s" and "pg_ListTrades pr cx interrupt token d = Inr vs"
    and "\<And>ak actor. actorFromToken pr cx s token = Inr (ak, actor) \<Longrightarrow>
      length (filter (\<lambda>(k, t). tradeVisibleToActor t actor) (st_trades s)) \<le> 500"
  shows "ListTrades pr cx token s = Inr vs"
proof -
  let ?L = "fst (load cx (list_scope token) False d)"
  have rep: "db_ok d" "ct_trades (contents d) = map_of (st_trades s)" "gmap_ok (st_trades s)"
    "gall (\<lambda>k t. t_id t = k) (st_trades s)" using assms(1) by (simp_all add: represents_def)
  from read_Inr [OF assms(2) [unfolded pg_ListTrades_def]] obtain ak actor
    where a: "actorFromToken pr cx ?L token = Inr (ak, actor)" and vs: "vs = filterTradesForActor ?L actor"
    by (auto simp: ListTrades_def StoreReadScoped_def split: sum.splits)
  note as = list_actor(1) [OF assms(1) a]
  let ?vis = "\<lambda>t. tradeVisibleToActor t actor"
  have "length (filter (\<lambda>(k, r). ?vis (tr_doc r)) (db_trades d)) = length (filter (\<lambda>(k, t). ?vis t) (st_trades s))"
    unfolding count_keys [OF rep(3)] count_keys [OF db_okD(4) [OF rep(1)]] rep(2) [symmetric]
    by (rule arg_cong [where f = card]) (auto simp: contents_def)
  with assms(3) [OF as] have "length (filter (\<lambda>(k, r). ?vis (tr_doc r)) (db_trades d)) \<le> 500" by simp
  note L = list_state [OF assms(1) a this]
  let ?show = "\<lambda>st. map (\<lambda>(k, t). toTradeView st t) (filter (\<lambda>(k, t). ?vis t) (st_trades st))"
  have inL: "(k, t) \<in> set (st_trades ?L) \<longleftrightarrow> map_of (st_trades ?L) k = Some t" for k t
    using in_set_map_of [OF L(3)] map_of_SomeD by metis
  have ins: "(k, t) \<in> set (st_trades s) \<longleftrightarrow> map_of (st_trades s) k = Some t" for k t
    using in_set_map_of [OF rep(3)] map_of_SomeD by metis
  have id: "t_id t = k" if "map_of (st_trades s) k = Some t" for k t using gall_lookup [OF rep(4) that] .
  have dist: "distinct (map tv_id (?show ?L))" "distinct (map tv_id (?show s))"
    by (rule distinct_views; use L(3) rep(3) id L(1) inL ins in blast)+
  have "toTradeView ?L t = toTradeView s t" if "(k, t) \<in> set (st_trades ?L)" for k t
    using L(2) that by (simp add: inL)
  moreover have "(k, t) \<in> set (st_trades ?L) \<longleftrightarrow> (k, t) \<in> set (st_trades s) \<and> ?vis t" for k t
    unfolding inL ins by (rule L(1))
  ultimately have "set (?show ?L) = set (?show s)" by (rule same_views)
  with dist have "mset (?show ?L) = mset (?show s)" by (metis distinct_map set_eq_iff_mset_eq_distinct)
  from SortTrades_unique [OF this dist(1)] show ?thesis
    by (simp add: ListTrades_def StoreReadScoped_def as vs filterTradesForActor_def)
qed

end
