(* ===== verification/Unchanged.thy ===== *)
theory Unchanged
  imports Migration
begin

text \<open>
  Transactions that change little: what a load remembers is what it loaded, a state that was only extended by new
  ledger entries and changed trades is written without a violation, and the columns of the rows follow their documents.
\<close>

section \<open>What was loaded is remembered\<close>

text \<open>A colony of the state as it was loaded: locked, and every child row of it among the remembered ones.\<close>

definition recalled :: "pg_orig \<Rightarrow> string \<Rightarrow> colony \<Rightarrow> bool" where
  "recalled o' i c \<longleftrightarrow> i \<in> set (o_locked o') \<and> map_of (o_colonies o') i = Some (colonyHeader c) \<and> c_ledger c = [] \<and>
     (\<forall>u a. map_of (c_accounts c) u = Some a \<longrightarrow> map_of (o_accounts o') (i, u) = Some (a_balance a)) \<and>
     list_all (\<lambda>e. e_id e \<in> gkeys (o_outbox o')) (c_outbox c) \<and>
     list_all (\<lambda>(e, b). (i, e) \<in> set (o_processed o')) (c_processed_envelopes c)"

definition all_recalled :: "app_state \<times> pg_orig \<Rightarrow> bool" where
  "all_recalled so \<longleftrightarrow> (\<forall>i c. map_of (st_colonies (fst so)) i = Some c \<longrightarrow> recalled (snd so) i c) \<and>
     (\<forall>e i. map_of (o_outbox (snd so)) e = Some i \<longrightarrow>
        (\<exists>c. map_of (st_colonies (fst so)) i = Some c \<and> e \<in> e_id ` set (c_outbox c)))"

lemma all_recalled_colonies:
  "all_recalled so \<Longrightarrow> list_all (\<lambda>(i, r). colonyHeader (cr_doc r) = cr_doc r) rows \<Longrightarrow> all_recalled (scanColonies True rows so)"
proof (induction True rows so rule: scanColonies.induct)
  case (2 i r rows st o')
  show ?case
  proof (cases "map_of (st_colonies st) i")
    case None
    have hdr: "cr_doc r = colonyHeader (cr_doc r)" using 2(4) by simp
    have fields: "c_accounts (cr_doc r) = []" "c_ledger (cr_doc r) = []" "c_outbox (cr_doc r) = []"
        "c_processed_envelopes (cr_doc r) = []"
      by (subst hdr, simp add: colonyHeader_def)+
    have "all_recalled (st\<lparr>st_colonies := AList.update i (cr_doc r) (st_colonies st)\<rparr>,
         o'\<lparr>o_colonies := AList.update i (colonyHeader (cr_doc r)) (o_colonies o'), o_locked := i # o_locked o'\<rparr>)"
      using 2(3) None fields unfolding all_recalled_def by (fastforce simp: recalled_def split: if_splits)
    with 2 None show ?thesis by simp
  qed (use 2 in simp)
qed simp

lemma all_recalled_accounts: "all_recalled so \<Longrightarrow> all_recalled (scan_accounts rows so)"
proof (induction rows so rule: scan_accounts.induct)
  case (2 c u b rows st o')
  show ?case
  proof (cases "map_of (st_colonies st) c")
    case (Some col)
    have "all_recalled (put_account c u b st, o'\<lparr>o_accounts := AList.update (c, u) b (o_accounts o')\<rparr>)"
      using 2(3) Some unfolding all_recalled_def by (fastforce simp: recalled_def put_account_def upd_colony_def colonyHeader_def split: if_splits)
    with 2 Some show ?thesis by simp
  qed (use 2 in simp)
qed simp

lemma all_recalled_outbox:
  "all_recalled so \<Longrightarrow> list_all (\<lambda>(k, r). e_id (or_doc r) = k) rows \<Longrightarrow> all_recalled (scan_outbox rows so)"
proof (induction rows so rule: scan_outbox.induct)
  case (2 eid r rows st o')
  show ?case
  proof (cases "map_of (st_colonies st) (or_colony_id r)")
    case (Some col)
    let ?so = "(upd_colony (or_colony_id r) (\<lambda>col. col\<lparr>c_outbox := c_outbox col @ [or_doc r]\<rparr>) st,
         o'\<lparr>o_outbox := AList.update eid (or_colony_id r) (o_outbox o')\<rparr>)"
    have "recalled (snd ?so) i c" if "map_of (st_colonies (fst ?so)) i = Some c" for i c
      using 2(3) 2(4) Some that unfolding all_recalled_def
      by (fastforce simp: recalled_def upd_colony_def colonyHeader_def list_all_iff split: if_splits)
    moreover have "\<exists>c. map_of (st_colonies (fst ?so)) i = Some c \<and> e \<in> e_id ` set (c_outbox c)"
      if "map_of (o_outbox (snd ?so)) e = Some i" for e i
      using 2(3) 2(4) Some that unfolding all_recalled_def by (fastforce simp: upd_colony_def split: if_splits)
    ultimately have "all_recalled ?so" unfolding all_recalled_def by blast
    with 2 Some show ?thesis by simp
  qed (use 2 in simp)
qed simp

lemma all_recalled_processed: "all_recalled so \<Longrightarrow> all_recalled (scan_processed rows so)"
proof (induction rows so rule: scan_processed.induct)
  case (2 c eid rows st o')
  show ?case
  proof (cases "map_of (st_colonies st) c")
    case (Some col)
    have "all_recalled (upd_colony c (\<lambda>col. col\<lparr>c_processed_envelopes := AList.update eid True (c_processed_envelopes col)\<rparr>) st,
         o'\<lparr>o_processed := (c, eid) # o_processed o'\<rparr>)"
      using 2(3) Some unfolding all_recalled_def
      by (fastforce simp: recalled_def upd_colony_def colonyHeader_def list_all_iff dest!: set_update split: if_splits)
    with 2 Some show ?thesis by simp
  qed (use 2 in simp)
qed simp

definition unchanged :: "app_state \<Rightarrow> pg_orig \<Rightarrow> bool" where
  "unchanged st o' \<longleftrightarrow> st_users st = o_users o' \<and> st_sessions st = o_sessions o' \<and> st_trades st = o_trades o' \<and>
     st_pending_actions st = o_actions o' \<and> st_bundles st = [] \<and> all_recalled (st, o')"

lemma load_unchanged:
  assumes "db_ok d" and "gall (\<lambda>k r. e_id (or_doc r) = k) (db_outbox d)"
    and sc: "sc_accounts_limit sc \<le> 0" "\<not> sc_colony_headers sc" "sc_ledger sc = None"
  shows "unchanged (fst (load cx sc True d)) (fst (snd (load cx sc True d)))"
proof -
  let ?f = "discover cx sc d"
  let ?users = "add_ids (f_users ?f) []"
  let ?so1 = "load_colonies sc True ?f d (newEmptyState cx, newOrig)"
  let ?so2 = "load_sessions sc d (load_actions (f_actions ?f) d (load_trades (f_trades ?f) d (load_users ?users d ?so1)))"
  let ?so3 = "load_accounts sc ?f ?users d ?so2"
  let ?so4 = "load_processed sc ?f d (load_outbox True ?f d ?so3)"
  have no: "listed_accounts sc ?f d = []" using sc(1) by (simp add: listed_accounts_def)
  have l: "fst (load cx sc True d) = (if sc_counts sc then loadCounts ?f d (fst ?so4) else fst ?so4)"
    "fst (snd (load cx sc True d)) = snd ?so4"
    unfolding load_def Let_def no by (simp_all add: load_ledger_def sc(3))
  have same: "st_users (fst ?so4) = o_users (snd ?so4)" "st_sessions (fst ?so4) = o_sessions (snd ?so4)"
    "st_trades (fst ?so4) = o_trades (snd ?so4)" "st_pending_actions (fst ?so4) = o_actions (snd ?so4)" "st_bundles (fst ?so4) = []"
    by (simp_all add: load_processed_def load_outbox_def load_accounts_def load_sessions_def load_actions_def load_trades_def
        load_users_def load_colonies_def Let_def scan_processed_each scan_outbox_each scan_accounts_each newEmptyState_def
        split: option.split)
  have "all_recalled (newEmptyState cx, newOrig)" by (simp add: all_recalled_def newEmptyState_def newOrig_def)
  moreover have "list_all (\<lambda>(i, r). colonyHeader (cr_doc r) = cr_doc r) (select (f_colonies ?f) (db_colonies d))"
    using db_okD(9) [OF assms(1)] select_sub [of "f_colonies ?f" "db_colonies d"] unfolding gall_def list_all_iff by blast
  ultimately have "all_recalled ?so1"
    using sc by (simp add: load_colonies_def all_recalled_colonies)
  then have "all_recalled ?so2"
    by (simp add: load_sessions_def load_actions_def load_trades_def load_users_def Let_def all_recalled_def recalled_def)
  then have "all_recalled ?so3" by (simp add: load_accounts_def all_recalled_accounts)
  moreover have "list_all (\<lambda>(k, r). e_id (or_doc r) = k) (filter P (db_outbox d))" for P
    using assms(2) by (simp add: gall_def list_all_iff)
  ultimately have "all_recalled ?so4"
    by (simp add: load_processed_def load_outbox_def all_recalled_outbox all_recalled_processed)
  with same show ?thesis
    by (simp add: l unchanged_def loadCounts_def all_recalled_def)
qed

text \<open>An envelope that was loaded stays in the outbox of its colony.\<close>

lemma recalled_present:
  assumes "all_recalled (st, o')"
    and "\<And>i c. map_of (st_colonies st) i = Some c \<Longrightarrow> \<exists>c'. map_of (st_colonies st') i = Some c' \<and> c_outbox c' = c_outbox c"
  shows "gkeys (o_outbox o') \<subseteq> present st' o'"
proof
  fix e assume "e \<in> gkeys (o_outbox o')"
  then obtain i where "map_of (o_outbox o') e = Some i" by (auto simp: gkeys_iff)
  with assms(1) obtain c where c: "map_of (st_colonies st) i = Some c" "e \<in> e_id ` set (c_outbox c)" "recalled o' i c"
    by (fastforce simp: all_recalled_def)
  with assms(2) obtain c' where "map_of (st_colonies st') i = Some c'" "c_outbox c' = c_outbox c" by blast
  with map_of_SomeD [OF this(1)] c show "e \<in> present st' o'"
    by (auto simp: present_def owned_def recalled_def intro!: bexI [of _ "(i, c')"])
qed

section \<open>Colonies that only grew\<close>

text \<open>A colony after at most \<open>m\<close> further ledger entries, and the room in its numbers for \<open>m\<close> of them.\<close>

definition extended :: "nat \<Rightarrow> colony \<Rightarrow> colony \<Rightarrow> bool" where
  "extended m c c' \<longleftrightarrow> c_accounts c' = c_accounts c \<and> c_outbox c' = c_outbox c \<and>
     c_processed_envelopes c' = c_processed_envelopes c \<and> c_name c' = c_name c \<and>
     (\<exists>k \<le> m. c_next_ledger_seq c' = c_next_ledger_seq c + int k \<and>
        map le_seq (c_ledger c') = map le_seq (c_ledger c) @ map (\<lambda>j. c_next_ledger_seq c + 1 + int j) [0..<k])"

definition has_room :: "nat \<Rightarrow> colony \<Rightarrow> bool" where
  "has_room m c \<longleftrightarrow> 0 \<le> c_next_ledger_seq c \<and> c_next_ledger_seq c + int m \<le> max_int64"

lemma extended_refl: "extended m c c"
  by (auto simp: extended_def intro: exI [of _ 0])

lemma extended_append:
  assumes "extended m c c'" and "has_room (Suc m) c"
  shows "extended (Suc m) c (appendLedger pr cx ty u pl c')"
proof -
  from assms(1) obtain k where k: "k \<le> m" "c_next_ledger_seq c' = c_next_ledger_seq c + int k"
    "map le_seq (c_ledger c') = map le_seq (c_ledger c) @ map (\<lambda>j. c_next_ledger_seq c + 1 + int j) [0..<k]"
    by (auto simp: extended_def)
  have "wrap64 (c_next_ledger_seq c' + 1) = c_next_ledger_seq c + 1 + int k"
    using assms(2) k(1,2) by (subst wrap64_id) (auto simp: has_room_def in_int64_def min_int64_def)
  with assms(1) k show ?thesis
    by (auto simp: extended_def appendLedger_def Let_def intro!: exI [of _ "Suc k"])
qed

lemma extended_mono: "extended m c c' \<Longrightarrow> m \<le> m' \<Longrightarrow> extended m' c c'"
  by (auto simp: extended_def intro: order_trans)

lemma has_room_mono: "has_room m c \<Longrightarrow> m' \<le> m \<Longrightarrow> has_room m' c"
  by (auto simp: has_room_def)

section \<open>Statements that succeed\<close>

lemma each_runs:
  assumes "\<And>x d1. x \<in> set xs \<Longrightarrow> P d1 \<Longrightarrow> \<exists>d2. f x d1 = Inr d2 \<and> P d2" and "P d"
  shows "\<exists>d'. each f xs d = Inr d' \<and> P d'"
  using assms
proof (induction xs arbitrary: d)
  case (Cons x xs)
  from Cons.prems(1) [of x d] Cons.prems(2) obtain d2 where "f x d = Inr d2" "P d2" by auto
  with Cons.IH [of d2] Cons.prems(1) show ?case by auto
qed simp

lemma each_still: "(\<And>x. x \<in> set xs \<Longrightarrow> f x d = Inr d) \<Longrightarrow> each f xs d = Inr d"
  by (induction xs) auto

definition colony_names :: "db \<Rightarrow> (string \<times> string) list" where
  "colony_names d = map (\<lambda>(k, r). (k, cr_name_lower r)) (db_colonies d)"

lemma name_free:
  assumes "names_ok cr_name_lower (db_colonies d)" and "colony_names d1 = colony_names d" and "(i, nm) \<in> set (colony_names d)"
  shows "\<not> name_taken i nm d1"
proof
  assume "name_taken i nm d1"
  then obtain k where k: "(k, nm) \<in> set (colony_names d1)" "k \<noteq> i" by (force simp: name_taken_def list_ex_iff colony_names_def)
  have "distinct (map snd (colony_names d))" using assms(1) by (simp add: names_ok_def colony_names_def case_prod_unfold comp_def)
  with k assms(2,3) show False unfolding distinct_map inj_on_def by (metis fst_conv snd_conv)
qed

lemma colonies_run:
  assumes "names_ok cr_name_lower (db_colonies d)"
    and "\<And>i c. (i, c) \<in> set ps \<Longrightarrow> map_of (o_colonies o') i \<noteq> None \<and> (i, to_lower (c_name c)) \<in> set (colony_names d)"
  shows "\<exists>d'. each (persist_colony o') ps d = Inr d' \<and> colony_names d' = colony_names d"
proof (rule each_runs)
  fix p d1 assume p: "p \<in> set ps" and d1: "colony_names d1 = colony_names d"
  obtain i c where ic: "p = (i, c)" by (cases p)
  note in_names = assms(2) [OF p [unfolded ic]]
  have "\<not> name_taken i (to_lower (c_name c)) d1" using name_free [OF assms(1) d1] in_names by blast
  moreover have "colony_names (d1\<lparr>db_colonies := AList.map_entry i (\<lambda>_. \<lparr>cr_name_lower = to_lower (c_name c), cr_doc = doc\<rparr>) (db_colonies d1)\<rparr>)
      = colony_names d1" for doc
  proof -
    have "distinct (map fst (colony_names d))" using assms(1) by (simp add: names_ok_def colony_names_def case_prod_unfold comp_def)
    then have u: "nm = to_lower (c_name c)" if "(i, nm) \<in> set (colony_names d1)" for nm
      using that in_names unfolding d1 by (metis map_of_is_SomeI option.inject)
    have "map (\<lambda>(k, r). (k, cr_name_lower r)) (AList.map_entry i (\<lambda>_. \<lparr>cr_name_lower = nm, cr_doc = doc\<rparr>) m) = map (\<lambda>(k, r). (k, cr_name_lower r)) m"
      if "\<And>r. (i, r) \<in> set m \<Longrightarrow> cr_name_lower r = nm" for m nm using that by (induction m) auto
    from this [of "db_colonies d1" "to_lower (c_name c)"] u show ?thesis by (force simp: colony_names_def)
  qed
  ultimately show "\<exists>d2. persist_colony o' p d1 = Inr d2 \<and> colony_names d2 = colony_names d"
    using in_names d1 by (auto simp: ic persist_colony_def update_colony_def Let_def split: option.split)
qed simp

lemma trades_run:
  assumes "\<And>i t. (i, t) \<in> set ps \<Longrightarrow> map_of (o_trades o') i \<noteq> None"
  shows "\<exists>d'. each (persist_trade o') ps d = Inr d'"
proof -
  have "\<exists>d'. each (persist_trade o') ps d = Inr d' \<and> True"
    by (rule each_runs) (use assms in \<open>fastforce simp: persist_trade_def update_trade_def Let_def split: option.splits\<close>)+
  then show ?thesis by simp
qed

lemma ledger_runs:
  assumes "i \<in> gkeys (db_colonies d)" and "distinct (map le_seq es)" and "\<And>e. e \<in> set es \<Longrightarrow> (i, le_seq e) \<notin> fst ` set (db_ledger d)"
  shows "\<exists>d'. each (insert_ledger_entry i) es d = Inr d'"
  using assms
proof (induction es arbitrary: d)
  case (Cons e es)
  let ?d = "d\<lparr>db_ledger := AList.update (i, le_seq e) e (db_ledger d)\<rparr>"
  have "insert_ledger_entry i e d = Inr ?d" using Cons.prems by (simp add: insert_ledger_entry_def)
  moreover have "\<exists>d'. each (insert_ledger_entry i) es ?d = Inr d'"
  proof (rule Cons.IH)
    fix e' assume "e' \<in> set es"
    with Cons.prems(2) have "le_seq e' \<noteq> le_seq e" by (metis distinct.simps(2) image_eqI list.map(2) set_map)
    with Cons.prems(3) [of e'] \<open>e' \<in> set es\<close> show "(i, le_seq e') \<notin> fst ` set (db_ledger ?d)" by (simp add: dom_update)
  qed (use Cons.prems in auto)
  ultimately show ?case by simp
qed simp

text \<open>The child rows: a colony that was loaded and then only extended.\<close>

lemma children_runs:
  assumes "recalled o' i c" and "extended m c c'" and "gmap_ok (c_accounts c)" and "i \<in> gkeys (db_colonies d)"
    and "\<And>n e. ((i, n), e) \<in> set (db_ledger d) \<Longrightarrow> n \<le> c_next_ledger_seq c"
  shows "\<exists>d'. persist_children o' (i, c') d = Inr d'"
proof -
  note rec = assms(1) [unfolded recalled_def]
  obtain k where k: "map le_seq (c_ledger c') = map (\<lambda>j. c_next_ledger_seq c + 1 + int j) [0..<k]"
    and same: "c_accounts c' = c_accounts c" "c_outbox c' = c_outbox c" "c_processed_envelopes c' = c_processed_envelopes c"
    using assms(2) rec by (auto simp: extended_def)
  have acc: "each (persist_account o' i) (pairs (c_accounts c)) d1 = Inr d1" for d1
    by (rule each_still) (use rec in_set_map_of [OF assms(3)] in \<open>force simp: persist_account_def pairs_def Let_def\<close>)
  have out: "each (persist_envelope o' i) (c_outbox c) d1 = Inr d1" for d1
    by (rule each_still) (use rec in \<open>auto simp: persist_envelope_def list_all_iff gkeys_iff\<close>)
  have proc: "each (persist_processed o' i) (pairs (c_processed_envelopes c)) d1 = Inr d1" for d1
    by (rule each_still) (use rec in \<open>force simp: persist_processed_def pairs_def list_all_iff\<close>)
  have "distinct (map le_seq (c_ledger c'))" unfolding k by (simp add: distinct_map inj_on_def)
  moreover have "(i, le_seq e) \<notin> fst ` set (db_ledger d)" if "e \<in> set (c_ledger c')" for e
  proof -
    have "le_seq e \<in> set (map le_seq (c_ledger c'))" using that by simp
    then have "c_next_ledger_seq c < le_seq e" unfolding k by auto
    with assms(5) show ?thesis by force
  qed
  ultimately obtain d' where "each (insert_ledger_entry i) (c_ledger c') d = Inr d'"
    using ledger_runs [OF assms(4)] by blast
  then show ?thesis by (simp add: persist_children_def and_then_def same acc out proc)
qed

lemma all_children_run:
  assumes "distinct (map fst ps)"
    and "\<And>i c'. (i, c') \<in> set ps \<Longrightarrow> \<exists>c m. recalled o' i c \<and> extended m c c' \<and> gmap_ok (c_accounts c) \<and>
      i \<in> gkeys (db_colonies d) \<and> (\<forall>n e. ((i, n), e) \<in> set (db_ledger d) \<longrightarrow> n \<le> c_next_ledger_seq c)"
  shows "\<exists>d'. each (persist_children o') ps d = Inr d'"
  using assms
proof (induction ps arbitrary: d)
  case (Cons p ps)
  obtain i c' where p: "p = (i, c')" by (cases p)
  from Cons.prems(2) [of i c'] p obtain d1 where d1: "persist_children o' (i, c') d = Inr d1"
    using children_runs by (metis list.set_intros(1))
  have cols: "db_colonies d1 = db_colonies d" using persist_children_facts(1) [OF d1] by (cases d; cases d1) simp
  have old: "((j, n), e) \<in> set (db_ledger d)" if "((j, n), e) \<in> set (db_ledger d1)" "j \<noteq> i" for j n e
    using that persist_children_facts(3) [OF d1] by (auto split: if_splits)
  have "\<exists>d'. each (persist_children o') ps d1 = Inr d'"
  proof (rule Cons.IH)
    fix j c2 assume jc: "(j, c2) \<in> set ps"
    with Cons.prems(1) p have "j \<noteq> i" by (metis distinct.simps(2) fst_conv image_eqI list.map(2) set_map)
    with old have "((j, n), e) \<in> set (db_ledger d1) \<Longrightarrow> ((j, n), e) \<in> set (db_ledger d)" for n e by blast
    with Cons.prems(2) [of j c2] jc show "\<exists>c m. recalled o' j c \<and> extended m c c2 \<and> gmap_ok (c_accounts c) \<and>
      j \<in> gkeys (db_colonies d1) \<and> (\<forall>n e. ((j, n), e) \<in> set (db_ledger d1) \<longrightarrow> n \<le> c_next_ledger_seq c)"
      unfolding cols by (metis list.set_intros(2))
  qed (use Cons.prems(1) in simp)
  with d1 show ?case by (simp add: p)
qed simp

text \<open>
  Columns that repeat a field of the document, and ledgers that end where the header of the colony says.
\<close>

definition colony_columns :: "db \<Rightarrow> bool" where
  "colony_columns d \<longleftrightarrow> gall (\<lambda>i r. cr_name_lower r = to_lower (c_name (cr_doc r))) (db_colonies d)"

definition tails_ok :: "db \<Rightarrow> bool" where
  "tails_ok d \<longleftrightarrow> (\<forall>i n e c. ((i, n), e) \<in> set (db_ledger d) \<longrightarrow> ct_headers (contents d) i = Some c \<longrightarrow> n \<le> c_next_ledger_seq c)"

definition outbox_columns :: "db \<Rightarrow> bool" where
  "outbox_columns d \<longleftrightarrow> gall (\<lambda>k r. e_id (or_doc r) = k) (db_outbox d)"

text \<open>A state that was only extended is written.\<close>

lemma persist_runs:
  assumes "db_ok d" and "unchanged st o'" and "maps_ok st" and "remembers o' (contents d)"
    and "colony_columns d" and "tails_ok d"
    and same: "st_users st' = st_users st" "st_sessions st' = st_sessions st" "st_pending_actions st' = st_pending_actions st"
      "st_bundles st' = st_bundles st" "map fst (st_trades st') = map fst (st_trades st)"
      "map fst (st_colonies st') = map fst (st_colonies st)"
    and ext: "\<And>i c. map_of (st_colonies st) i = Some c \<Longrightarrow> \<exists>c'. map_of (st_colonies st') i = Some c' \<and> extended m c c'"
  shows "\<exists>d'. persist cx st' o' d = Inr d'"
proof -
  note un = assms(2) [unfolded unchanged_def] and ok = assms(3) [unfolded maps_ok_def] and rem = assms(4) [unfolded remembers_def]
  have rec: "recalled o' i c" if "map_of (st_colonies st) i = Some c" for i c
    using un that by (simp add: all_recalled_def)
  have hdr: "ct_headers (contents d) i = Some (colonyHeader c)" if "map_of (st_colonies st) i = Some c" for i c
    using rec [OF that] rem by (auto simp: recalled_def map_le_def dom_def) 
  have colony: "\<exists>c. map_of (st_colonies st) i = Some c \<and> extended m c c'" if "(i, c') \<in> set (pairs (st_colonies st'))" for i c'
  proof -
    have "(i, c') \<in> set (st_colonies st')" using that by (simp add: pairs_def)
    moreover have "gmap_ok (st_colonies st')" using ok same(6) by (simp add: gmap_ok_def)
    ultimately have "map_of (st_colonies st') i = Some c'" by (simp add: in_set_map_of)
    moreover from this obtain c where "map_of (st_colonies st) i = Some c"
      using same(6) by (metis gkeys_def gkeys_iff set_map)
    ultimately show ?thesis using ext by fastforce
  qed
  have in_names: "map_of (o_colonies o') i \<noteq> None \<and> (i, to_lower (c_name c')) \<in> set (colony_names d)"
    if "(i, c') \<in> set (pairs (st_colonies st'))" for i c'
  proof -
    from colony [OF that] obtain c where c: "map_of (st_colonies st) i = Some c" "extended m c c'" by blast
    from hdr [OF c(1)] obtain r where r: "(i, r) \<in> set (db_colonies d)" "cr_doc r = colonyHeader c"
      by (auto simp: contents_def dest: map_of_SomeD)
    with assms(5) have "cr_name_lower r = to_lower (c_name c')"
      using c(2) by (force simp: colony_columns_def gall_def list_all_iff extended_def colonyHeader_def)
    with r(1) rec [OF c(1)] show ?thesis by (force simp: colony_names_def recalled_def)
  qed
  have "names_ok cr_name_lower (db_colonies d)" using assms(1) by (simp add: db_ok_def keys_ok_def)
  then obtain d1 where s1: "each (persist_colony o') (pairs (st_colonies st')) d = Inr d1" "colony_names d1 = colony_names d"
    using colonies_run in_names by metis
  have users: "each (persist_user o') (pairs (st_users st')) d' = Inr d'" for d'
    by (rule each_still) (use un same ok in \<open>auto simp: persist_user_def pairs_def Let_def dest: in_set_map_of\<close>)
  have gone: "each (persist_gone_session st') (sortedKeys (o_sessions o')) d' = Inr d'" for d'
    by (rule each_still) (use un same in \<open>auto simp: persist_gone_session_def sortedKeys_def map_of_eq_None_iff\<close>)
  have sessions: "each (persist_session cx o') (pairs (st_sessions st')) d' = Inr d'" for d'
    by (rule each_still) (use un same ok in \<open>auto simp: persist_session_def pairs_def Let_def dest: in_set_map_of\<close>)
  have "map_of (o_trades o') i \<noteq> None" if "(i, t) \<in> set (pairs (st_trades st'))" for i t
    using that un same(5) by (metis (no_types, lifting) fst_conv image_eqI map_of_eq_None_iff pairs_def set_map set_sort)
  then obtain d5 where s5: "each (persist_trade o') (pairs (st_trades st')) d1 = Inr d5"
    using trades_run by metis
  have actions: "each (persist_action o') (pairs (st_pending_actions st')) d' = Inr d'" for d'
    by (rule each_still) (use un same ok in \<open>auto simp: persist_action_def pairs_def Let_def dest: in_set_map_of\<close>)
  note frames = only_colonies [OF s1(1), unfolded frame_iff] only_trades [OF s5, unfolded frame_iff]
  have keys5: "gkeys (db_colonies d5) = gkeys (db_colonies d)"
    using frames arg_cong [OF s1(2), of "set \<circ> map fst"] by (simp add: colony_names_def gkeys_def image_image case_prod_unfold)
  have "\<exists>c m. recalled o' i c \<and> extended m c c' \<and> gmap_ok (c_accounts c) \<and> i \<in> gkeys (db_colonies d5) \<and>
      (\<forall>n e. ((i, n), e) \<in> set (db_ledger d5) \<longrightarrow> n \<le> c_next_ledger_seq c)" if ic: "(i, c') \<in> set (pairs (st_colonies st'))" for i c'
  proof -
    from colony [OF ic] obtain c where c: "map_of (st_colonies st) i = Some c" "extended m c c'" by blast
    have "i \<in> gkeys (db_colonies d)" using hdr [OF c(1)] by (auto simp: contents_def gkeys_iff)
    moreover have "gmap_ok (c_accounts c)" using ok c(1) gall_lookup by fastforce
    moreover have "n \<le> c_next_ledger_seq c" if "((i, n), e) \<in> set (db_ledger d)" for n e
      using assms(6) hdr [OF c(1)] that by (force simp: tails_ok_def colonyHeader_def)
    ultimately show ?thesis using rec [OF c(1)] c(2) keys5 frames by auto
  qed
  moreover have "distinct (map fst (pairs (st_colonies st')))"
    using ok same(6) map_of_sort_key(2) [of "st_colonies st'"] by (simp add: gmap_ok_def pairs_def)
  ultimately obtain d7 where s7: "each (persist_children o') (pairs (st_colonies st')) d5 = Inr d7"
    using all_children_run by metis
  have "gkeys (o_outbox o') \<subseteq> present st' o'"
    by (rule recalled_present) (use un ext in \<open>auto simp: extended_def\<close>)
  then have envelopes: "each (persist_gone_envelope st' o') (sortedKeys (o_outbox o')) d' = Inr d'" for d'
    by (intro each_still) (auto simp: persist_gone_envelope_def sortedKeys_def gkeys_def)
  have bundles: "each (\<lambda>(i, b). insert_bundle i b) (pairs (st_bundles st')) d' = Inr d'" for d'
    using un same by (simp add: pairs_def)
  show ?thesis
    by (simp add: persist_def and_then_def s1 users gone sessions s5 actions s7 envelopes bundles)
qed

section \<open>Columns follow the documents\<close>

text \<open>The columns of a trade that an update does not set.\<close>

definition same_terms :: "trade \<Rightarrow> trade \<Rightarrow> bool" where
  "same_terms t t' \<longleftrightarrow> t_seller_user_id t' = t_seller_user_id t \<and> t_buyer_user_id t' = t_buyer_user_id t \<and>
     t_seller_colony_id t' = t_seller_colony_id t \<and> t_buyer_colony_id t' = t_buyer_colony_id t \<and> t_created_at t' = t_created_at t"

definition docs_agree :: "pg_orig \<Rightarrow> db \<Rightarrow> bool" where
  "docs_agree o' d \<longleftrightarrow> colony_columns d \<and> outbox_columns d \<and>
     gall (\<lambda>k r. r = trade_row_of (tr_doc r) \<and> (\<forall>prev. map_of (o_trades o') k = Some prev \<longrightarrow> same_terms prev (tr_doc r))) (db_trades d)"

lemma agree_colony: "persist_colony o' p d = Inr d' \<Longrightarrow> docs_agree og d \<Longrightarrow> docs_agree og d'"
  by (auto simp: persist_defs table_defs Let_def docs_agree_def colony_columns_def outbox_columns_def colonyHeader_def
      intro!: gall_update gall_map_entry split: option.splits if_splits prod.splits)

lemma agree_rest:
  "persist_user o' p1 d = Inr d' \<Longrightarrow> docs_agree og d \<Longrightarrow> docs_agree og d'"
  "persist_gone_session st tok d = Inr d' \<Longrightarrow> docs_agree og d \<Longrightarrow> docs_agree og d'"
  "persist_session cx o' p2 d = Inr d' \<Longrightarrow> docs_agree og d \<Longrightarrow> docs_agree og d'"
  "persist_action o' p4 d = Inr d' \<Longrightarrow> docs_agree og d \<Longrightarrow> docs_agree og d'"
  "insert_bundle i b d = Inr d' \<Longrightarrow> docs_agree og d \<Longrightarrow> docs_agree og d'"
  "persist_account o' i p5 d = Inr d' \<Longrightarrow> docs_agree og d \<Longrightarrow> docs_agree og d'"
  "insert_ledger_entry i e d = Inr d' \<Longrightarrow> docs_agree og d \<Longrightarrow> docs_agree og d'"
  "persist_envelope o' i env d = Inr d' \<Longrightarrow> docs_agree og d \<Longrightarrow> docs_agree og d'"
  "persist_processed o' i q d = Inr d' \<Longrightarrow> docs_agree og d \<Longrightarrow> docs_agree og d'"
  "persist_gone_envelope st o' eid d = Inr d' \<Longrightarrow> docs_agree og d \<Longrightarrow> docs_agree og d'"
  by (auto simp: persist_defs table_defs Let_def docs_agree_def colony_columns_def outbox_columns_def AList.delete_eq
      intro!: gall_update gall_filter split: option.splits if_splits prod.splits)

lemma agree_children: "persist_children o' p d = Inr d' \<Longrightarrow> docs_agree og d \<Longrightarrow> docs_agree og d'"
  by (cases p) (auto simp: persist_children_def and_then_Inr split: if_splits
      elim!: each_keeps [where P = "docs_agree og"] intro: agree_rest)

lemma doc_of_row [simp]: "tr_doc (trade_row_of t) = t"
  by (simp add: trade_row_of_def)

lemma row_updated:
  "same_terms t t' \<Longrightarrow>
   (trade_row_of t)\<lparr>tr_status := t_status t', tr_expires_at := column_time (t_expires_at t'), tr_doc := t'\<rparr> = trade_row_of t'"
  by (simp add: same_terms_def trade_row_of_def)

lemma agree_trade:
  assumes "persist_trade o' (i, t) d = Inr d'" and "docs_agree o' d"
    and "\<And>prev. map_of (o_trades o') i = Some prev \<Longrightarrow> same_terms prev t"
  shows "docs_agree o' d'"
proof (cases "map_of (o_trades o') i")
  case None
  with assms show ?thesis
    by (auto simp: persist_trade_def insert_trade_def docs_agree_def colony_columns_def outbox_columns_def trade_row_of_def
        intro!: gall_update split: if_splits)
next
  case (Some prev)
  have "gall (\<lambda>k r. r = trade_row_of (tr_doc r) \<and> (\<forall>prev. map_of (o_trades o') k = Some prev \<longrightarrow> same_terms prev (tr_doc r)))
      (AList.map_entry i (\<lambda>r. r\<lparr>tr_status := t_status t, tr_expires_at := column_time (t_expires_at t), tr_doc := t\<rparr>) (db_trades d))"
  proof (rule gall_map_entry)
    fix r assume r: "r = trade_row_of (tr_doc r) \<and> (\<forall>prev. map_of (o_trades o') i = Some prev \<longrightarrow> same_terms prev (tr_doc r))"
    let ?r = "r\<lparr>tr_status := t_status t, tr_expires_at := column_time (t_expires_at t), tr_doc := t\<rparr>"
    have "same_terms prev (tr_doc r)" "same_terms prev t" using r Some assms(3) by auto
    then have "same_terms (tr_doc r) t" by (simp add: same_terms_def)
    from row_updated [OF this, folded conjunct1 [OF r]] have "?r = trade_row_of (tr_doc ?r)" by simp
    with assms(3) show "?r = trade_row_of (tr_doc ?r) \<and> (\<forall>prev. map_of (o_trades o') i = Some prev \<longrightarrow> same_terms prev (tr_doc ?r))"
      by simp
  qed (use assms(2) in \<open>simp add: docs_agree_def\<close>)
  with assms Some show ?thesis
    by (auto simp: persist_trade_def update_trade_def docs_agree_def colony_columns_def outbox_columns_def split: if_splits)
qed

lemma agree_trades:
  "each (persist_trade o') ps d = Inr d' \<Longrightarrow> docs_agree o' d \<Longrightarrow>
   (\<And>i t prev. (i, t) \<in> set ps \<Longrightarrow> map_of (o_trades o') i = Some prev \<Longrightarrow> same_terms prev t) \<Longrightarrow> docs_agree o' d'"
proof (induction ps arbitrary: d)
  case (Cons p ps)
  obtain i t where p: "p = (i, t)" by (cases p)
  from Cons.prems(1) p obtain d1 where d1: "persist_trade o' (i, t) d = Inr d1" "each (persist_trade o') ps d1 = Inr d'"
    by (auto split: sum.splits)
  have "docs_agree o' d1" by (rule agree_trade [OF d1(1) Cons.prems(2) Cons.prems(3)]) (simp_all add: p)
  then show ?case by (rule Cons.IH [OF d1(2)]) (rule Cons.prems(3), auto)
qed simp

theorem persist_agrees:
  assumes "persist cx st o' d = Inr d'" and "docs_agree o' d"
    and "\<And>i t prev. (i, t) \<in> set (st_trades st) \<Longrightarrow> map_of (o_trades o') i = Some prev \<Longrightarrow> same_terms prev t"
  shows "docs_agree o' d'"
proof -
  from assms(1) obtain d4 d5 where
    "docs_agree o' d \<longrightarrow> docs_agree o' d4" and t: "each (persist_trade o') (pairs (st_trades st)) d4 = Inr d5" and
    "docs_agree o' d5 \<longrightarrow> docs_agree o' d'"
    unfolding persist_def and_then_Inr
    by (elim exE conjE, intro that)
      (auto elim!: each_keeps [where P = "docs_agree o'"] intro: agree_colony agree_rest agree_children)
  with assms(2) agree_trades [OF t] assms(3) show ?thesis by (simp add: pairs_def)
qed

end
