(* ===== verification/Backlog.thy ===== *)
theory Backlog
  imports Unchanged Backends Integrity
begin

text \<open>
  The expiry ticker of \<open>cmd/itp-server/main.go\<close> on PostgreSQL: a tick that is not disturbed succeeds, and takes up to
  200 of the offers that have been due longest, so a backlog of \<open>n\<close> offers is gone after \<open>n / 200\<close> such ticks.
\<close>

section \<open>Sweeps and colonies\<close>

lemma sweep_frame:
  "sweep pr cx tks n s = (r, s') \<Longrightarrow> st_users s' = st_users s \<and> st_sessions s' = st_sessions s \<and>
     st_pending_actions s' = st_pending_actions s \<and> st_bundles s' = st_bundles s"
proof (induction pr cx tks n s rule: sweep.induct)
  case (2 pr cx tk tks n s)
  have "st_users s1 = st_users s \<and> st_sessions s1 = st_sessions s \<and> st_pending_actions s1 = st_pending_actions s \<and>
      st_bundles s1 = st_bundles s" if "advance_at tk StatusExpired s = Inr s1" for s1
    using that by (auto simp: advance_at_def upd_trade_def split: sum.splits)
  with 2 show ?case by (auto simp: Let_def upd_colony_def split: sum.splits if_splits)
qed simp

lemma sweep_counts: "sweep pr cx tks n s = (Inr n', s') \<Longrightarrow> n \<le> n'"
  by (induction pr cx tks n s rule: sweep.induct) (auto simp: Let_def split: sum.splits if_splits intro: Suc_leD)

lemma sweep_extends:
  "sweep pr cx tks n s = (Inr n', s') \<Longrightarrow>
   \<exists>c1. map_of (st_colonies s) i = Some c1 \<and> extended m c c1 \<Longrightarrow> has_room (m + (n' - n)) c \<Longrightarrow>
   \<exists>c'. map_of (st_colonies s') i = Some c' \<and> extended (m + (n' - n)) c c'"
proof (induction pr cx tks n s arbitrary: m rule: sweep.induct)
  case (2 pr cx tk tks n s)
  show ?case
  proof (cases "due cx (trade_at s tk)")
    case True
    let ?t = "trade_at s tk"
    let ?add = "appendLedger pr cx ''trade_offer_expired'' []
        (go_map [(''trade_id'', JStr (t_id ?t)), (''expires_at'', JStr (t_expires_at ?t))])"
    from 2(3) True obtain s1 where s1: "advance_at tk StatusExpired s = Inr s1"
      "sweep pr cx tks (n + 1) (upd_colony (t_seller_colony_id ?t) ?add s1) = (Inr n', s')"
      by (auto simp: Let_def split: sum.splits)
    from sweep_counts [OF s1(2)] have n: "Suc m + (n' - (n + 1)) = m + (n' - n)" by simp
    then have room: "has_room (Suc m) c" by (intro has_room_mono [OF 2(5)]) simp
    have "map_of (st_colonies s1) = map_of (st_colonies s)"
      using s1(1) by (auto simp: advance_at_def upd_trade_def split: sum.splits)
    with 2(4) have "\<exists>c1. map_of (st_colonies (upd_colony (t_seller_colony_id ?t) ?add s1)) i = Some c1 \<and> extended (Suc m) c c1"
      by (auto simp: upd_colony_def intro: extended_append [OF _ room] extended_mono [OF _ le_SucI [OF order_refl]])
    from 2(2) [OF refl _ s1(1) s1(2) this] True 2(5) show ?thesis unfolding n by blast
  qed (use 2 in simp)
qed simp

lemma sweep_keys: "sweep pr cx tks n s = (r, s') \<Longrightarrow> map fst (st_colonies s') = map fst (st_colonies s)"
proof (induction pr cx tks n s rule: sweep.induct)
  case (2 pr cx tk tks n s)
  have "st_colonies s1 = st_colonies s" if "advance_at tk StatusExpired s = Inr s1" for s1
    using that by (auto simp: advance_at_def upd_trade_def split: sum.splits)
  with 2 show ?case by (auto simp: Let_def upd_colony_def split: sum.splits if_splits)
qed simp

section \<open>An undisturbed tick succeeds\<close>

definition open_offers :: "db \<Rightarrow> string set" where
  "open_offers d = {k. \<exists>t. ct_trades (contents d) k = Some t \<and>
     (t_status t = StatusOfferPendingExport \<or> t_status t = StatusOfferReceived)}"

text \<open>What a sweep relies on; every tick keeps it, and a migration establishes it.\<close>

definition pg_sound :: "db \<Rightarrow> bool" where
  "pg_sound d \<longleftrightarrow> db_ok d \<and> columns_ok d \<and> colony_columns d \<and> outbox_columns d \<and> tails_ok d \<and> [] \<notin> gkeys (db_trades d)"

definition ledger_room :: "db \<Rightarrow> bool" where
  "ledger_room d \<longleftrightarrow> (\<forall>i c. ct_headers (contents d) i = Some c \<longrightarrow> has_room (card (open_offers d)) c)"

lemma finite_open: "finite (open_offers d)"
proof (rule finite_subset)
  show "open_offers d \<subseteq> gkeys (db_trades d)" by (auto simp: open_offers_def contents_def gkeys_iff)
  show "finite (gkeys (db_trades d))" by (simp add: gkeys_def)
qed

lemma sweep_trade_keys: "sweep pr cx tks n s = (r, s') \<Longrightarrow> map fst (st_trades s') = map fst (st_trades s)"
proof (induction pr cx tks n s rule: sweep.induct)
  case (2 pr cx tk tks n s)
  have "map fst (st_trades s1) = map fst (st_trades s)" if "advance_at tk StatusExpired s = Inr s1" for s1
    using that by (auto simp: advance_at_def upd_trade_def split: sum.splits)
  with 2 show ?case by (auto simp: Let_def upd_colony_def split: sum.splits if_splits)
qed simp

text \<open>The write of a sweep, with what it does to every colony.\<close>

lemma sweep_writes:
  assumes "pg_sound d" and "ledger_room d" and "ids \<noteq> []" and "set ids \<subseteq> open_offers d"
  defines "sc \<equiv> zero_scope\<lparr>sc_trades := ids\<rparr>"
  shows "\<exists>n st' d'. sweep pr cx (map fst (st_trades (fst (load cx sc True d)))) 0 (fst (load cx sc True d)) = (Inr n, st') \<and>
    persist cx st' (fst (snd (load cx sc True d))) d = Inr d' \<and>
    (\<forall>i c. map_of (st_colonies (fst (load cx sc True d))) i = Some c \<longrightarrow>
       (\<exists>c'. map_of (st_colonies st') i = Some c' \<and> extended n c c'))"
proof -
  let ?L = "fst (load cx sc True d)"
  let ?o = "fst (snd (load cx sc True d))"
  have ok: "db_ok d" and named: "[] \<notin> set ids"
    using assms(1,4) by (auto simp: pg_sound_def open_offers_def contents_def gkeys_iff)
  have un: "unchanged ?L ?o"
    using load_unchanged [OF ok] assms(1) by (simp add: sc_def zero_scope_def pg_sound_def outbox_columns_def)
  have maps: "maps_ok ?L" by (rule loaded_steps(2) [OF ok])
  have same: "snd (snd (load cx sc True d)) = d" by (simp add: load_db prune_expired_def sc_def zero_scope_def)
  have rem: "remembers ?o (contents d)" using load_orig [OF ok, of cx sc True] same by simp
  have "gmap_ok (st_trades ?L)" using maps by (simp add: maps_ok_def)
  from sweep_all [OF this, of pr cx] obtain st' where st':
    "sweep pr cx (map fst (st_trades ?L)) 0 ?L = (Inr (length (filter (\<lambda>(k, t). due cx t) (st_trades ?L))), st')" by blast
  let ?n = "length (filter (\<lambda>(k, t). due cx t) (st_trades ?L))"
  have "?n \<le> card (open_offers d)"
  proof -
    have "{k. \<exists>t. map_of (st_trades ?L) k = Some t \<and> due cx t} \<subseteq> set ids"
      using loaded_trades [OF ok assms(3) named, of cx True] by (auto simp: sc_def split: if_splits)
    with assms(4) have "{k. \<exists>t. map_of (st_trades ?L) k = Some t \<and> due cx t} \<subseteq> open_offers d" by blast
    from card_mono [OF finite_open this] show ?thesis
      by (simp add: count_keys [OF \<open>gmap_ok (st_trades ?L)\<close>])
  qed
  have ext: "\<exists>c'. map_of (st_colonies st') i = Some c' \<and> extended ?n c c'" if c: "map_of (st_colonies ?L) i = Some c" for i c
  proof -
    have "recalled ?o i c" using un c by (simp add: unchanged_def all_recalled_def)
    with rem have "ct_headers (contents d) i = Some (colonyHeader c)" by (auto simp: recalled_def remembers_def map_le_def dom_def)
    with assms(2) have "has_room (card (open_offers d)) (colonyHeader c)" by (simp add: ledger_room_def)
    then have "has_room ?n c"
      using has_room_mono [OF _ \<open>?n \<le> card (open_offers d)\<close>] by (simp add: has_room_def colonyHeader_def)
    with sweep_extends [OF st', of i 0 c] c extended_refl show ?thesis by simp
  qed
  note fr = sweep_frame [OF st'] sweep_keys [OF st'] sweep_trade_keys [OF st']
  have "\<exists>d'. persist cx st' ?o d = Inr d'"
    using assms(1) fr ext by (intro persist_runs [OF ok un maps rem]) (auto simp: pg_sound_def)
  with st' ext show ?thesis by blast
qed

lemma due_ids_open:
  fixes cx :: ctx
  assumes "pg_sound d"
  shows "set (dueTradeIDs (now cx) n d) \<subseteq> open_offers d"
  using due_ids [of d _ cx n] assms in_set_map_of [OF db_okD(4), of d]
  by (fastforce simp: pg_sound_def open_offers_def contents_def due_def)

section \<open>A tick keeps what the next tick needs\<close>

lemma persisted_tails:
  assumes "tails_ok d" and "contents d' = overwrite st' o' (contents d)" and "maps_ok st" and "maps_ok st'"
    and "map fst (st_colonies st') = map fst (st_colonies st)"
    and rec: "\<And>i c. map_of (st_colonies st) i = Some c \<Longrightarrow> recalled o' i c \<and> ct_headers (contents d) i = Some (colonyHeader c)"
    and ext: "\<And>i c. map_of (st_colonies st) i = Some c \<Longrightarrow> \<exists>c'. map_of (st_colonies st') i = Some c' \<and> extended n c c'"
  shows "tails_ok d'"
    and "ct_headers (contents d') i = Some h' \<Longrightarrow>
      \<exists>h k. ct_headers (contents d) i = Some h \<and> k \<le> n \<and> c_next_ledger_seq h' = c_next_ledger_seq h + int k"
proof -
  have was: "\<exists>c. map_of (st_colonies st) i = Some c" if "map_of (st_colonies st') i = Some c'" for i c'
    using that assms(5) by (metis gkeys_def gkeys_iff set_map)
  have hdr: "\<exists>h k. ct_headers (contents d) i = Some h \<and> k \<le> n \<and> c_next_ledger_seq h' = c_next_ledger_seq h + int k"
    if h': "ct_headers (contents d') i = Some h'" for i h'
  proof (cases "map_of (st_colonies st) i")
    case None
    then have "map_of (st_colonies st') i = None" using was by fastforce
    with h' have "ct_headers (contents d) i = Some h'" by (auto simp: assms(2) overwrite_def map_add_def split: option.splits if_splits)
    then show ?thesis by (intro exI [of _ h'] exI [of _ 0]) simp
  next
    case (Some c)
    with ext obtain c' where c': "map_of (st_colonies st') i = Some c'" "extended n c c'" by blast
    with h' rec [OF Some] have "h' = colonyHeader c'" by (simp add: assms(2) overwrite_def map_add_def recalled_def owned_def)
    with rec [OF Some] c'(2) show ?thesis by (auto simp: extended_def colonyHeader_def)
  qed
  have "m \<le> c_next_ledger_seq h'"
    if e: "((i, m), e) \<in> set (db_ledger d')" and h': "ct_headers (contents d') i = Some h'" for i m e h'
  proof -
    from hdr [OF h'] obtain h where h: "ct_headers (contents d) i = Some h" "c_next_ledger_seq h \<le> c_next_ledger_seq h'" by auto
    have led: "db_ledger d' = ct_ledger (contents d')" by (simp add: contents_def)
    have "db_ledger d' = db_ledger d @ owned_rows o' st' (\<lambda>i c. map (\<lambda>e. ((i, le_seq e), e)) (c_ledger c))"
      unfolding led assms(2) by (simp add: overwrite_def contents_def)
    with e consider "((i, m), e) \<in> set (db_ledger d)"
      | c' where "(i, c') \<in> set (st_colonies st')" "e \<in> set (c_ledger c')" "m = le_seq e"
      by (auto simp: owned_rows_def pairs_def split: if_splits)
    then show ?thesis
    proof cases
      case 1
      with assms(1) h show ?thesis by (force simp: tails_ok_def)
    next
      case 2
      then have c': "map_of (st_colonies st') i = Some c'" using assms(4) in_set_map_of by (auto simp: maps_ok_def)
      with was obtain c where c: "map_of (st_colonies st) i = Some c" by blast
      from ext [OF c] c' have x: "extended n c c'" by simp
      from h' c' rec [OF c] have "h' = colonyHeader c'" by (simp add: assms(2) overwrite_def map_add_def recalled_def owned_def)
      moreover obtain k where k: "c_next_ledger_seq c' = c_next_ledger_seq c + int k"
        "map le_seq (c_ledger c') = map (\<lambda>j. c_next_ledger_seq c + 1 + int j) [0..<k]"
        using x rec [OF c] by (auto simp: extended_def recalled_def)
      moreover have "le_seq e \<in> set (map le_seq (c_ledger c'))" using 2 by simp
      then have "le_seq e \<le> c_next_ledger_seq c + int k" unfolding k(2) by auto
      ultimately show ?thesis by (simp add: 2(3) colonyHeader_def)
    qed
  qed
  then show "tails_ok d'" unfolding tails_ok_def by blast
  show "ct_headers (contents d') i = Some h' \<Longrightarrow>
      \<exists>h k. ct_headers (contents d) i = Some h \<and> k \<le> n \<and> c_next_ledger_seq h' = c_next_ledger_seq h + int k"
    by (rule hdr)
qed

lemma pg_sound_keeps:
  assumes "pg_sound d" and "ledger_room d"
    and "pg_SweepExpired pr cx query i1 i2 d = (Inr n, d')"
  shows "pg_sound d' \<and> ledger_room d'"
proof -
  let ?ids = "dueTradeIDs (now cx) 200 d"
  let ?sc = "zero_scope\<lparr>sc_trades := ?ids\<rparr>"
  let ?fn = "\<lambda>s. sweep pr cx (map fst (st_trades s)) 0 s"
  let ?L = "fst (load cx ?sc True d)"
  let ?o = "fst (snd (load cx ?sc True d))"
  note sound = assms(1) [unfolded pg_sound_def]
  note pg = pg_sweep_trades [OF _ _ _ assms(3)]
  from assms(3) consider "d' = d" | "?ids \<noteq> []" "pg_StoreUpdateScoped cx i2 ?sc ?fn d = (Inr n, d')"
    by (auto simp: pg_SweepExpired_def Let_def split: option.splits sum.splits if_splits)
  then show ?thesis
  proof cases
    case 2
    have ok: "db_ok d" using sound by simp
    have same: "snd (snd (load cx ?sc True d)) = d" by (simp add: load_db prune_expired_def zero_scope_def)
    have open_ids: "set ?ids \<subseteq> open_offers d" by (rule due_ids_open [OF assms(1)])
    from sweep_writes [OF assms(1,2) 2(1) open_ids, of pr cx]
    obtain n1 st' d1 where st': "?fn ?L = (Inr n1, st')" "persist cx st' ?o d = Inr d1"
      and ext: "\<And>i c. map_of (st_colonies ?L) i = Some c \<Longrightarrow> \<exists>c'. map_of (st_colonies st') i = Some c' \<and> extended n1 c c'"
      by blast
    obtain st2 where "?fn ?L = (Inr n, st2)" "persist cx st2 ?o (snd (snd (load cx ?sc True d))) = Inr d'"
      by (rule run_Inr [OF 2(2) [unfolded pg_StoreUpdateScoped_def]])
    with st' same have eq: "n1 = n" "d1 = d'" by auto
    have maps: "maps_ok ?L" by (rule loaded_steps(2) [OF ok])
    have maps': "maps_ok st'" using sweep_maps_ok [OF maps, of pr cx "map fst (st_trades ?L)" 0] st'(1) by simp
    have rem: "remembers ?o (contents d)" using load_orig [OF ok, of cx ?sc True] same by simp
    have un: "unchanged ?L ?o"
      using load_unchanged [OF ok] sound by (simp add: zero_scope_def outbox_columns_def)
    have over: "contents d' = overwrite st' ?o (contents d)"
      using persist_overwrites [OF st'(2) maps' rem] eq by simp
    have rec: "recalled ?o i c \<and> ct_headers (contents d) i = Some (colonyHeader c)" if "map_of (st_colonies ?L) i = Some c" for i c
      using un rem that by (auto simp: unchanged_def all_recalled_def recalled_def remembers_def map_le_def dom_def)
    have tails: "tails_ok d"  using sound by simp
    note after = persisted_tails [OF tails over maps maps' sweep_keys [OF st'(1)] rec ext [unfolded eq(1)]]
    have "docs_agree ?o d"
      unfolding docs_agree_def
    proof (intro conjI gallI [OF db_okD(4) [OF ok]])
      fix k r assume r: "map_of (db_trades d) k = Some r"
      show "r = trade_row_of (tr_doc r)" using sound gall_lookup [OF _ r] by (auto simp: columns_ok_def)
      show "\<forall>prev. map_of (o_trades ?o) k = Some prev \<longrightarrow> same_terms prev (tr_doc r)"
        using rem r by (auto simp: remembers_def map_le_def contents_def same_terms_def dom_def)
    qed (use sound in auto)
    then have "docs_agree ?o d'"
    proof (rule persist_agrees [OF st'(2) [unfolded eq(2)]])
      fix i t prev assume it: "(i, t) \<in> set (st_trades st')" and prev: "map_of (o_trades ?o) i = Some prev"
      have "gmap_ok (st_trades ?L)" using maps by (simp add: maps_ok_def)
      from sweep_all [OF this, of pr cx] st'(1) have "map_of (st_trades st') i = map_option (expired_by cx) (map_of (st_trades ?L) i)" by auto
      moreover have "map_of (st_trades st') i = Some t" using it maps' in_set_map_of by (auto simp: maps_ok_def)
      ultimately have "t = expired_by cx prev" using prev un by (auto simp: unchanged_def)
      then show "same_terms prev t" by (simp add: same_terms_def expired_by_def)
    qed
    moreover have "db_ok d'" using persist_keeps_constraints [OF st'(2) ok] eq by simp
    moreover have trades: "ct_trades (contents d') k =
        (if k \<in> set ?ids then map_option (expired_by cx) (ct_trades (contents d) k) else ct_trades (contents d) k)"
      and count: "n = card (set ?ids)" for k
      using pg sound by blast+
    have "[] \<notin> gkeys (db_trades d')"
      using trades [of "[]"] sound by (auto simp: contents_def gkeys_iff split: if_splits)
    moreover have "columns_ok d'" using \<open>docs_agree ?o d'\<close> by (auto simp: docs_agree_def columns_ok_def elim: gall_mono)
    ultimately have "pg_sound d'" using after(1) by (simp add: pg_sound_def docs_agree_def)
    moreover have "ledger_room d'"
    proof -
      have "open_offers d' \<subseteq> open_offers d - set ?ids"
      proof
        fix k assume k: "k \<in> open_offers d'"
        have "k \<notin> set ?ids"
        proof
          assume "k \<in> set ?ids"
          with due_ids [of d k cx 200] sound in_set_map_of [OF db_okD(4) [OF ok]]
          obtain t where "ct_trades (contents d) k = Some t" "due cx t" by (fastforce simp: contents_def)
          with trades [of k] \<open>k \<in> set ?ids\<close> k show False by (simp add: open_offers_def expired_by_def)
        qed
        with trades [of k] k show "k \<in> open_offers d - set ?ids" by (simp add: open_offers_def)
      qed
      from card_mono [OF _ this] finite_open have "card (open_offers d') + n \<le> card (open_offers d)"
        using card_Diff_subset [OF _ open_ids] card_mono [OF finite_open open_ids] by (simp add: count)
      with assms(2) after(2) show ?thesis by (fastforce simp: ledger_room_def has_room_def)
    qed
    ultimately show ?thesis by blast
  qed (use assms in simp)
qed

section \<open>The offers that are due first\<close>

text \<open>The first elements of a sorted list.\<close>

lemma weak_order_key: "weak_order (\<lambda>p q. f p < (f q :: int))"
  by (auto simp: weak_order_def)

lemma taken_first:
  assumes "p \<in> set xs" and "p \<notin> set (take n (sort_slice (\<lambda>p q. f p < (f q :: int)) xs))"
  shows "n \<le> length xs" and "q \<in> set (take n (sort_slice (\<lambda>p q. f p < f q) xs)) \<Longrightarrow> f q \<le> f p"
proof -
  let ?ys = "sort_slice (\<lambda>p q. f p < f q) xs"
  have "p \<in> set (take n ?ys) \<union> set (drop n ?ys)" using assms(1) by (simp flip: set_append)
  with assms(2) have drop: "p \<in> set (drop n ?ys)" by blast
  then have "drop n ?ys \<noteq> []" by auto
  then show "n \<le> length xs" by simp
  have "sorted_wrt (\<lambda>a b. \<not> f b < f a) (take n ?ys @ drop n ?ys)"
    using sorted_sort_slice [OF weak_order_key, of f xs] by simp
  then have "\<forall>a \<in> set (take n ?ys). \<forall>b \<in> set (drop n ?ys). \<not> f b < f a" unfolding sorted_wrt_append by blast
  with drop show "f q \<le> f p" if "q \<in> set (take n ?ys)" using that by fastforce
qed

definition overdue :: "int \<Rightarrow> trade \<Rightarrow> bool" where
  "overdue t0 t \<longleftrightarrow> (t_status t = StatusOfferPendingExport \<or> t_status t = StatusOfferReceived) \<and> isExpired t t0"

definition backlog :: "int \<Rightarrow> db \<Rightarrow> string set" where
  "backlog t0 d = {k. \<exists>t. ct_trades (contents d) k = Some t \<and> overdue t0 t}"

lemma due_overdue: "due cx t = overdue (now cx) t"
  by (simp add: due_def overdue_def)

lemma overdue_later: "overdue t0 t \<Longrightarrow> t0 \<le> t1 \<Longrightarrow> overdue t1 t"
  by (auto simp: overdue_def isExpired_def split: option.splits if_splits)

lemma finite_backlog: "finite (backlog t0 d)"
proof (rule finite_subset)
  show "backlog t0 d \<subseteq> gkeys (db_trades d)" by (auto simp: backlog_def contents_def gkeys_iff)
  show "finite (gkeys (db_trades d))" by (simp add: gkeys_def)
qed

text \<open>The index gives all the offers that were due at an earlier time, or only such offers.\<close>

lemma due_ids_first:
  assumes "columns_ok d" and "gmap_ok (db_trades d)" and t0: "1000 dvd t0" "t0 \<le> t"
  shows "backlog t0 d \<subseteq> set (dueTradeIDs t n d) \<or> (set (dueTradeIDs t n d) \<subseteq> backlog t0 d \<and> card (set (dueTradeIDs t n d)) = n)"
proof -
  let ?f = "\<lambda>p. row_expiry (snd p)"
  let ?rows = "filter (\<lambda>(k, r). due_row (pg_time t) r) (db_trades d)"
  let ?tk = "take n (sort_slice (\<lambda>p q. row_expiry (snd p) < row_expiry (snd q)) ?rows)"
  have row: "r = trade_row_of (tr_doc r)" if "(k, r) \<in> set (db_trades d)" for k r
    using assms(1) that by (auto simp: columns_ok_def gall_def list_all_iff)
  have t0': "pg_time t0 = t0" "t0 \<le> pg_time t"
    using t0 zdiv_mono1 [OF t0(2), of 1000] by (auto simp: pg_time_def)
  have old: "k \<in> backlog t0 d \<longleftrightarrow> row_expiry r < t0" if "(k, r) \<in> set ?rows" for k r
  proof -
    from that have kr: "(k, r) \<in> set (db_trades d)" and due: "due_row (pg_time t) r" by auto
    have "k \<in> backlog t0 d \<longleftrightarrow> due_row t0 r"
      using in_set_map_of [OF assms(2) kr] due_row_iff [of "undefined\<lparr>now := t0\<rparr>" "tr_doc r"] t0(1) row [OF kr] t0'(1)
      by (simp add: backlog_def contents_def due_overdue)
    with due show ?thesis by (auto simp: due_row_def row_expiry_def split: option.splits)
  qed
  have inrows: "\<exists>r. (k, r) \<in> set ?rows" if "k \<in> backlog t0 d" for k
  proof -
    from that obtain r where r: "(k, r) \<in> set (db_trades d)" "overdue t0 (tr_doc r)"
      by (auto simp: backlog_def contents_def dest: map_of_SomeD)
    then have "due_row t0 r"
      using due_row_iff [of "undefined\<lparr>now := t0\<rparr>" "tr_doc r"] t0(1) row [OF r(1)] t0'(1) by (simp add: due_overdue)
    then have "due_row (pg_time t) r" using t0'(2) by (auto simp: due_row_def split: option.splits)
    with r(1) show ?thesis by auto
  qed
  show ?thesis
  proof (cases "backlog t0 d \<subseteq> fst ` set ?tk")
    case False
    then obtain k r where kr: "k \<in> backlog t0 d" "(k, r) \<in> set ?rows" "(k, r) \<notin> set ?tk"
      using inrows by (metis (no_types, lifting) fst_conv image_eqI subsetI)
    note first = taken_first [OF kr(2,3)]
    have "k' \<in> backlog t0 d" if q: "(k', r') \<in> set ?tk" for k' r'
    proof -
      have "(k', r') \<in> set ?rows" using in_set_takeD [OF q] by simp
      moreover have "row_expiry r' \<le> row_expiry r" using first(2) [OF q] by simp
      ultimately show ?thesis using old kr(1,2) by fastforce
    qed
    moreover have "card (set (map fst ?tk)) = n"
    proof -
      have "distinct (map fst ?rows)" using assms(2) by (simp add: gmap_ok_def distinct_map_filter)
      then have "distinct (map fst (sort_slice (\<lambda>p q. row_expiry (snd p) < row_expiry (snd q)) ?rows))"
        using mset_eq_imp_distinct_iff [of "map fst (sort_slice (\<lambda>p q. row_expiry (snd p) < row_expiry (snd q)) ?rows)" "map fst ?rows"] by simp
      then have "distinct (map fst ?tk)" by (simp flip: take_map)
      from distinct_card [OF this] first(1) show ?thesis by simp
    qed
    ultimately show ?thesis by (auto simp: dueTradeIDs_def)
  qed (simp add: dueTradeIDs_def)
qed

section \<open>The ticker\<close>

record pg_tick =
  tk_ctx :: ctx
  tk_query :: "go_error option"
  tk_read :: "nat \<Rightarrow> pg_error option"
  tk_write :: "nat \<Rightarrow> pg_error option"

fun pg_ticker :: "prims \<Rightarrow> pg_tick list \<Rightarrow> db \<Rightarrow> db" where
  "pg_ticker pr [] d = d"
| "pg_ticker pr (tk # tks) d =
     (case pg_SweepExpired pr (tk_ctx tk) (tk_query tk) (tk_read tk) (tk_write tk) d of
        (r, d') \<Rightarrow> pg_ticker pr tks d')"

definition undisturbed :: "pg_tick \<Rightarrow> bool" where
  "undisturbed tk \<longleftrightarrow> tk_query tk = None \<and> settles (tk_read tk) \<and> settles (tk_write tk)"

lemma failed_tick:
  "pg_SweepExpired pr cx query i1 i2 d = (Inl err, d') \<Longrightarrow> d' = d"
  by (auto simp: pg_SweepExpired_def Let_def dest: pg_failed_write split: option.splits sum.splits if_splits)

lemma tick_succeeds:
  assumes "pg_sound d" and "ledger_room d" and "undisturbed tk"
  shows "\<exists>n d'. pg_SweepExpired pr (tk_ctx tk) (tk_query tk) (tk_read tk) (tk_write tk) d = (Inr n, d')"
proof -
  let ?ids = "dueTradeIDs (now (tk_ctx tk)) 200 d"
  let ?sc = "zero_scope\<lparr>sc_trades := ?ids\<rparr>"
  show ?thesis
  proof (cases "?ids = []")
    case False
    have same: "snd (snd (load (tk_ctx tk) ?sc True d)) = d" by (simp add: load_db prune_expired_def zero_scope_def)
    let ?fn = "\<lambda>s. sweep pr (tk_ctx tk) (map fst (st_trades s)) 0 s"
    obtain n st' d' where w: "?fn (fst (load (tk_ctx tk) ?sc True d)) = (Inr n, st')"
      "persist (tk_ctx tk) st' (fst (snd (load (tk_ctx tk) ?sc True d))) d = Inr d'"
      using sweep_writes [OF assms(1,2) False due_ids_open [OF assms(1)], of pr "tk_ctx tk"] by blast
    have "settles (tk_write tk)" using assms(3) by (simp add: undisturbed_def)
    from write_settles [where fn = ?fn, OF this w(1), unfolded same, OF w(2)]
    have "pg_StoreUpdateScoped (tk_ctx tk) (tk_write tk) ?sc ?fn d = (Inr n, d')" .
    moreover have "pg_StoreReadScoped (tk_ctx tk) (tk_read tk) ?sc (\<lambda>s. Inr (length (filter (\<lambda>(k, t). due (tk_ctx tk) t) (st_trades s)))) d
        = Inr (length (filter (\<lambda>(k, t). due (tk_ctx tk) t) (st_trades (fst (load (tk_ctx tk) ?sc False d)))))"
      using assms(3) by (intro read_settles) (simp_all add: undisturbed_def)
    ultimately show ?thesis using assms(3) False by (simp add: pg_SweepExpired_def undisturbed_def Let_def)
  qed (use assms(3) in \<open>simp add: pg_SweepExpired_def undisturbed_def\<close>)
qed

lemma tick_backlog:
  assumes "pg_sound d" and "pg_SweepExpired pr cx query i1 i2 d = (Inr n, d')"
  shows "backlog t0 d' = backlog t0 d - set (dueTradeIDs (now cx) 200 d)"
proof -
  let ?ids = "dueTradeIDs (now cx) 200 d"
  have trades: "ct_trades (contents d') k =
      (if k \<in> set ?ids then map_option (expired_by cx) (ct_trades (contents d) k) else ct_trades (contents d) k)" for k
    using pg_sweep_trades(1) [OF _ _ _ assms(2)] assms(1) by (simp add: pg_sound_def)
  have "k \<notin> backlog t0 d'" if k: "k \<in> set ?ids" for k
  proof -
    obtain t where "ct_trades (contents d) k = Some t" "due cx t"
      using due_ids [OF _ k] assms(1) in_set_map_of [OF db_okD(4), of d] by (fastforce simp: pg_sound_def contents_def)
    with trades [of k] k show ?thesis by (simp add: backlog_def expired_by_def overdue_def)
  qed
  with trades show ?thesis by (auto simp: backlog_def)
qed

lemma tick_step:
  assumes "pg_sound d" and "ledger_room d" and t0: "1000 dvd t0" "t0 \<le> now (tk_ctx tk)"
    and run: "pg_SweepExpired pr (tk_ctx tk) (tk_query tk) (tk_read tk) (tk_write tk) d = (r, d')"
  shows "pg_sound d' \<and> ledger_room d' \<and>
    card (backlog t0 d') \<le> (if undisturbed tk then card (backlog t0 d) - 200 else card (backlog t0 d))"
proof (cases r)
  case (Inl err)
  with run failed_tick have "d' = d" by blast
  moreover have "\<not> undisturbed tk" using tick_succeeds [OF assms(1,2), of tk pr] run Inl by auto
  ultimately show ?thesis using assms(1,2) by simp
next
  case (Inr n)
  note run = run [unfolded Inr]
  let ?ids = "dueTradeIDs (now (tk_ctx tk)) 200 d"
  have eq: "backlog t0 d' = backlog t0 d - set ?ids" by (rule tick_backlog [OF assms(1) run])
  have "columns_ok d" "gmap_ok (db_trades d)" using assms(1) by (auto simp: pg_sound_def db_okD)
  from due_ids_first [OF this t0, of 200] have "card (backlog t0 d') \<le> card (backlog t0 d) - 200"
  proof
    assume "backlog t0 d \<subseteq> set ?ids"
    then have "backlog t0 d' = {}" using eq by blast
    then show ?thesis by simp
  next
    assume "set ?ids \<subseteq> backlog t0 d \<and> card (set ?ids) = 200"
    with card_Diff_subset [of "set ?ids" "backlog t0 d"] show ?thesis by (simp add: eq)
  qed
  with pg_sound_keeps [OF assms(1,2) run] show ?thesis by (auto intro: order_trans)
qed

theorem ticker_drains:
  assumes "pg_sound d" and "ledger_room d" and "1000 dvd t0" and "\<And>tk. tk \<in> set tks \<Longrightarrow> t0 \<le> now (tk_ctx tk)"
  shows "pg_sound (pg_ticker pr tks d) \<and> ledger_room (pg_ticker pr tks d) \<and>
    card (backlog t0 (pg_ticker pr tks d)) \<le> card (backlog t0 d) - 200 * length (filter undisturbed tks)"
  using assms
proof (induction tks arbitrary: d)
  case (Cons tk tks)
  obtain r d' where run: "pg_SweepExpired pr (tk_ctx tk) (tk_query tk) (tk_read tk) (tk_write tk) d = (r, d')"
    by (cases "pg_SweepExpired pr (tk_ctx tk) (tk_query tk) (tk_read tk) (tk_write tk) d")
  from tick_step [OF Cons.prems(1-3) _ run] Cons.prems(4) have "pg_sound d'" "ledger_room d'"
    and less: "card (backlog t0 d') \<le> (if undisturbed tk then card (backlog t0 d) - 200 else card (backlog t0 d))"
    by (simp_all split: if_splits)
  with Cons.IH [of d'] Cons.prems(3,4) show ?case by (fastforce simp: run split: if_splits)
qed simp

section \<open>A migrated database\<close>

lemma chain_numbers:
  "chain_ok pr i prev es \<Longrightarrow> int (i + length es) \<le> max_int64 \<Longrightarrow> e \<in> set es \<Longrightarrow> le_seq e \<le> int (i + length es)"
proof (induction es arbitrary: i prev)
  case (Cons e' es)
  have "wrap64 (int i + 1) = int i + 1"
    using Cons.prems(2) by (intro wrap64_id) (simp add: in_int64_def min_int64_def)
  with Cons.IH [of "Suc i" "le_hash e'"] Cons.prems show ?case by auto
qed simp

lemma migrated_sound:
  assumes "ImportState pr cx interrupt st empty_db = Inr d" and "named_ok st"
    and small: "gall (\<lambda>i c. int (length (c_ledger c) + length (st_trades st)) \<le> max_int64) (st_colonies st)"
  shows "pg_sound d \<and> ledger_room d"
proof -
  have maps: "maps_ok st" and named: "[] \<notin> gkeys (st_trades st)" using assms(2) by (simp_all add: named_ok_def)
  note t = migrated_tables [OF assms(1) maps]
  have intact: "c_next_ledger_seq c = int (length (c_ledger c)) \<and> chain_ok pr 0 [] (c_ledger c) \<and>
      int (length (c_ledger c) + length (st_trades st)) \<le> max_int64" if "map_of (st_colonies st) i = Some c" for i c
  proof -
    have "colony_intact pr c"
      using migrated(2) [OF assms(1) maps] gall_lookup [OF _ that] by (auto simp: VerifyStateIntegrity_iff)
    moreover have len: "int (length (c_ledger c) + length (st_trades st)) \<le> max_int64" using gall_lookup [OF small that] .
    moreover from len have "wrap64 (int (length (c_ledger c))) = int (length (c_ledger c))"
      by (intro wrap64_id) (simp add: in_int64_def min_int64_def)
    ultimately show ?thesis by (simp add: colony_intact_def)
  qed
  have p: "persist cx st newOrig empty_db = Inr d"
    using assms(1) by (auto simp: ImportState_def empty_db_def split: option.splits sum.splits if_splits)
  have "docs_agree newOrig d"
    by (rule persist_agrees [OF p]) (simp_all add: docs_agree_def colony_columns_def outbox_columns_def empty_db_def newOrig_def)
  moreover have "columns_ok d" using calculation by (auto simp: docs_agree_def columns_ok_def elim: gall_mono)
  moreover have "db_ok d" by (rule migrated(3) [OF assms(1) maps])
  moreover have "[] \<notin> gkeys (db_trades d)"
    using named arg_cong [OF t(2), of "\<lambda>f. f []"] by (auto simp: contents_def gkeys_iff)
  moreover have "tails_ok d"
    unfolding tails_ok_def
  proof (intro allI impI)
    fix i n e h assume e: "((i, n), e) \<in> set (db_ledger d)" and h: "ct_headers (contents d) i = Some h"
    from h obtain c where c: "map_of (st_colonies st) i = Some c" "h = colonyHeader c" by (auto simp: t(6))
    from e obtain c' where "(i, c') \<in> set (st_colonies st)" "e \<in> set (c_ledger c')" "n = le_seq e"
      by (auto simp: t(8) owned_rows_def pairs_def split: if_splits)
    with c(1) maps have "e \<in> set (c_ledger c)" "n = le_seq e" by (auto simp: maps_ok_def dest: in_set_map_of)
    with intact [OF c(1)] chain_numbers [of pr 0 "[]" "c_ledger c" e] show "n \<le> c_next_ledger_seq h"
      by (simp add: c(2) colonyHeader_def)
  qed
  ultimately have "pg_sound d" by (simp add: pg_sound_def docs_agree_def)
  moreover have "ledger_room d"
  proof -
    have "open_offers d \<subseteq> fst ` set (st_trades st)"
      by (auto simp: open_offers_def t(2) intro: rev_image_eqI dest: map_of_SomeD)
    then have "card (open_offers d) \<le> card (set (map fst (st_trades st)))" by (intro card_mono) simp_all
    also have "\<dots> \<le> length (map fst (st_trades st))" by (rule card_length)
    finally have few: "card (open_offers d) \<le> length (st_trades st)" by simp
    show ?thesis
      unfolding ledger_room_def
    proof (intro allI impI)
      fix i h assume "ct_headers (contents d) i = Some h"
      then obtain c where "map_of (st_colonies st) i = Some c" "h = colonyHeader c" by (auto simp: t(6))
      with intact few show "has_room (card (open_offers d)) h" by (fastforce simp: has_room_def colonyHeader_def)
    qed
  qed
  ultimately show ?thesis ..
qed

end
