(* ===== verification/PgDemo.thy ===== *)
theory PgDemo
  imports Answers Backlog Demo
begin

text \<open>
  The concrete world of the witnesses on PostgreSQL.
\<close>

text \<open>The demonstration state, moved to PostgreSQL; its offer is past its expiry after a week.\<close>

definition demo_file :: app_state where
  "demo_file = demo_state StatusOfferReceived 100"

definition demo_db :: db where
  "demo_db = (case ImportState demo_prims demo_ctx None demo_file empty_db of Inl e \<Rightarrow> empty_db | Inr d \<Rightarrow> d)"

lemma demo_file_named: "named_ok demo_file"
  by code_simp

lemma demo_file_migrates:
  "case ImportState demo_prims demo_ctx None demo_file empty_db of Inl e \<Rightarrow> False | Inr d \<Rightarrow> columns_ok d"
  by code_simp

lemma demo_db: "ImportState demo_prims demo_ctx None demo_file empty_db = Inr demo_db" "columns_ok demo_db" "db_ok demo_db"
proof -
  show m: "ImportState demo_prims demo_ctx None demo_file empty_db = Inr demo_db"
    using demo_file_migrates by (auto simp: demo_db_def split: sum.splits)
  show "columns_ok demo_db" using demo_file_migrates m by simp
  show "db_ok demo_db"
    using migrated(3) [OF m] demo_file_named by (simp add: named_ok_def)
qed

text \<open>What the sweep writes: the callback and the scope of its transaction.\<close>

definition sweep_scope :: scope where
  "sweep_scope = zero_scope\<lparr>sc_trades := [''T'']\<rparr>"

definition week_ctx :: ctx where
  "week_ctx = demo_ctx\<lparr>now := 8 * 24 * hour, wall_clock := 8 * 24 * hour\<rparr>"

definition sweep_all_trades :: "nat handler" where
  "sweep_all_trades s = sweep demo_prims week_ctx (map fst (st_trades s)) 0 s"

definition never :: "nat \<Rightarrow> pg_error option" where
  "never i = None"

definition deadlock :: pg_error where
  "deadlock = \<lparr>pe_code = ''40P01'', pe_constraint = [], pe_message = ''deadlock detected''\<rparr>"

lemma sweep_write:
  "case pg_StoreUpdateScoped week_ctx never sweep_scope sweep_all_trades demo_db of (Inl e, d) \<Rightarrow> False
   | (Inr n, d) \<Rightarrow> n = 1 \<and> length (db_ledger d) = 1 \<and> map (\<lambda>(k, r). tr_status r) (db_trades d) = [StatusExpired]"
  by code_simp

lemma sweep_deadlocks:
  "case pg_StoreUpdateScoped week_ctx (\<lambda>i. Some deadlock) sweep_scope sweep_all_trades demo_db of
     (Inl e, d) \<Rightarrow> e = PlainErr ''deadlock detected'' | (Inr n, d) \<Rightarrow> False"
  by code_simp

lemma sweep_whole:
  "case pg_SweepExpired demo_prims week_ctx None never never demo_db of (Inl e, d) \<Rightarrow> False | (Inr n, d) \<Rightarrow> n = 1"
  by code_simp

lemma demo_trades: "length (db_trades demo_db) = 1" "[] \<notin> gkeys (db_trades demo_db)"
proof -
  have "map fst (db_trades demo_db) = [''T'']" by code_simp
  then show "length (db_trades demo_db) = 1" "[] \<notin> gkeys (db_trades demo_db)"
    by (auto simp: gkeys_def simp flip: set_map dest: arg_cong [where f = length])
qed

text \<open>The colony \<open>A\<close> has already processed the envelope \<open>E\<close>.\<close>

definition replayed_db :: db where
  "replayed_db = demo_db\<lparr>db_processed := [(''A'', ''E'')]\<rparr>"

text \<open>A callback that processes an envelope of colony \<open>A\<close> for which the scope did not ask.\<close>

definition process_again :: "unit handler" where
  "process_again s =
     (Inr (), s\<lparr>st_colonies := map (\<lambda>(k, c). (k, c\<lparr>c_processed_envelopes := [(''E'', True)]\<rparr>)) (st_colonies s)\<rparr>)"

definition colony_scope :: scope where
  "colony_scope = zero_scope\<lparr>sc_colonies := [''A'']\<rparr>"

lemma replayed_db: "db_ok replayed_db"
  by code_simp

lemma replayed_again: "replays (snd (process_again (fst (load week_ctx colony_scope True replayed_db))))
   (fst (snd (load week_ctx colony_scope True replayed_db))) replayed_db ''A''"
  by code_simp

lemma replayed_maps: "maps_ok (snd (process_again (fst (load week_ctx colony_scope True replayed_db))))"
  by code_simp

text \<open>The list of trades that the buyer sees.\<close>

lemma demo_represents: "represents demo_db demo_file"
proof -
  have ok: "maps_ok demo_file" using demo_file_named by (simp add: named_ok_def)
  note t = migrated_tables [OF demo_db(1) ok]
  have "gall (\<lambda>k r. sr_user_id r = s_user_id (sr_doc r)) (db_sessions demo_db)" by code_simp
  moreover have "gall (\<lambda>k t. t_id t = k) (st_trades demo_file)" by code_simp
  ultimately show ?thesis
    using demo_file_named ok unfolding represents_def by (simp add: t demo_db named_ok_def maps_ok_def)
qed

lemma demo_lists:
  "case pg_ListTrades demo_prims demo_ctx never ''buyer'' demo_db of Inl e \<Rightarrow> False
   | Inr vs \<Rightarrow> map (\<lambda>v. (tv_id v, tv_seller_name v, tv_buyer_colony_name v)) vs = [(''T'', ''seller'', ''B'')]"
  by code_simp

text \<open>A tick of the expiry ticker after a week.\<close>

definition week_tick :: pg_tick where
  "week_tick = \<lparr>tk_ctx = week_ctx, tk_query = None, tk_read = never, tk_write = never\<rparr>"

lemma demo_sound: "pg_sound demo_db" "ledger_room demo_db"
proof -
  have "gall (\<lambda>i c. int (length (c_ledger c) + length (st_trades demo_file)) \<le> max_int64) (st_colonies demo_file)" by code_simp
  from migrated_sound [OF demo_db(1) demo_file_named this] show "pg_sound demo_db" "ledger_room demo_db" by simp_all
qed

lemma demo_backlog: "backlog (8 * 24 * hour) demo_db = {''T''}"
proof -
  have ok: "maps_ok demo_file" using demo_file_named by (simp add: named_ok_def)
  have keys: "gkeys (st_trades demo_file) = {''T''}" by code_simp
  have late: "case map_of (st_trades demo_file) ''T'' of None \<Rightarrow> False | Some t \<Rightarrow> overdue (8 * 24 * hour) t" by code_simp
  have "ct_trades (contents demo_db) = map_of (st_trades demo_file)" using migrated_tables(2) [OF demo_db(1) ok] by simp
  with keys late show ?thesis by (fastforce simp: backlog_def gkeys_iff set_eq_iff split: option.splits)
qed

lemma week_tick: "undisturbed week_tick" "now (tk_ctx week_tick) = 8 * 24 * hour"
  by (auto simp: undisturbed_def settles_def week_tick_def never_def week_ctx_def intro: exI [of _ 0])


end
