(* ===== verification/Server.thy ===== *)
theory Server
  imports Gateway Transactions "HOL-Library.Sublist"
begin

text \<open>
  The server process of \<open>cmd/itp-server/main.go\<close>: its command line, the store it opens, the gate of the first
  administrator and the orderly end of \<open>ServeUntil\<close>; and the schema migrations of \<open>storage/pg_store.go\<close>, which
  run at the start.  The world outside (environment, files, network, database server) is the record \<open>world\<close>.
\<close>

section \<open>Command line\<close>

definition splitCSV :: "string \<Rightarrow> string list" where
  "splitCSV input = filter (\<lambda>p. p \<noteq> []) (map trim_space (split_on (CHR '','') input))"

text \<open>\<open>os.Getenv\<close> is the empty string for a variable that is not set.\<close>

definition envOr :: "(string \<Rightarrow> string) \<Rightarrow> string \<Rightarrow> string \<Rightarrow> string" where
  "envOr env key dflt = (if env key \<noteq> [] then env key else dflt)"

datatype flag_value = StrFlag string | BoolFlag bool

definition flag_defaults :: "(string \<Rightarrow> string) \<Rightarrow> flag_value gmap" where
  "flag_defaults env =
     [(''addr'', StrFlag '':8080''),
      (''data'', StrFlag ''./data/state.json''),
      (''cors'', StrFlag (env ''CORS_ORIGINS'')),
      (''static'', StrFlag []),
      (''database-url'', StrFlag (env ''DATABASE_URL'')),
      (''migrate-state-from'', StrFlag []),
      (''bootstrap-token'', StrFlag (env ''BOOTSTRAP_TOKEN'')),
      (''require-admin-mfa'', BoolFlag (envOr env ''REQUIRE_ADMIN_MFA'' [] = ''true'')),
      (''metrics-addr'', StrFlag (env ''METRICS_ADDR'')),
      (''healthcheck'', BoolFlag False),
      (''version'', BoolFlag False)]"

text \<open>\<open>strconv.ParseBool\<close>.\<close>

definition parse_bool :: "string \<Rightarrow> bool option" where
  "parse_bool t =
     (if t \<in> {''1'', ''t'', ''T'', ''true'', ''TRUE'', ''True''} then Some True
      else if t \<in> {''0'', ''f'', ''F'', ''false'', ''FALSE'', ''False''} then Some False else None)"

text \<open>
  \<open>flag.Parse\<close> with \<open>ExitOnError\<close>: flags with one or two dashes up to the first other argument or \<open>--\<close>; an
  error is the exit code (0 when help is asked for).
\<close>

fun parse_flags :: "string list \<Rightarrow> flag_value gmap \<Rightarrow> int + flag_value gmap" where
  "parse_flags [] fs = Inr fs"
| "parse_flags (s # args) fs =
     (if length s < 2 \<or> hd s \<noteq> CHR ''-'' \<or> s = ''--'' then Inr fs
      else let name = (if s ! 1 = CHR ''-'' then drop 2 s else drop 1 s)
      in if name = [] \<or> hd name = CHR ''-'' \<or> hd name = CHR ''='' then Inl 2
      else let (n, v) = (case split_first (CHR ''='') name of None \<Rightarrow> (name, None) | Some (a, b) \<Rightarrow> (a, Some b))
      in case map_of fs n of
           None \<Rightarrow> if n = ''help'' \<or> n = ''h'' then Inl 0 else Inl 2
         | Some (BoolFlag _) \<Rightarrow>
             (case v of
                None \<Rightarrow> parse_flags args (AList.update n (BoolFlag True) fs)
              | Some t \<Rightarrow> (case parse_bool t of
                    None \<Rightarrow> Inl 2
                  | Some b \<Rightarrow> parse_flags args (AList.update n (BoolFlag b) fs)))
         | Some (StrFlag _) \<Rightarrow>
             (case v of
                Some t \<Rightarrow> parse_flags args (AList.update n (StrFlag t) fs)
              | None \<Rightarrow> (case args of
                    [] \<Rightarrow> Inl 2
                  | t # args' \<Rightarrow> parse_flags args' (AList.update n (StrFlag t) fs))))"

definition str_flag :: "string \<Rightarrow> flag_value gmap \<Rightarrow> string" where
  "str_flag n fs = (case map_of fs n of Some (StrFlag t) \<Rightarrow> t | _ \<Rightarrow> [])"

definition bool_flag :: "string \<Rightarrow> flag_value gmap \<Rightarrow> bool" where
  "bool_flag n fs = (case map_of fs n of Some (BoolFlag b) \<Rightarrow> b | _ \<Rightarrow> False)"

section \<open>The probe\<close>

text \<open>The port of \<open>net.SplitHostPort\<close>.\<close>

definition port_of :: "string \<Rightarrow> string option" where
  "port_of addr = (case split_host_port addr of None \<Rightarrow> None | Some h \<Rightarrow> map_option snd (split_last (CHR '':'') addr))"

text \<open>\<open>get\<close> is the answer to a GET request: an error or the status.\<close>

definition runHealthcheck :: "(string \<Rightarrow> string + nat) \<Rightarrow> string \<Rightarrow> int" where
  "runHealthcheck get addr =
     (let port = (case port_of addr of None \<Rightarrow> ''8080'' | Some p \<Rightarrow> p)
      in case get (''http://127.0.0.1:'' @ port @ ''/api/v1/readyz'') of
           Inl err \<Rightarrow> 1
         | Inr status \<Rightarrow> if status \<noteq> 200 then 1 else 0)"

section \<open>Schema migrations\<close>

text \<open>
  The table \<open>schema_migrations\<close> and the scripts that have been executed.  \<open>pg_server\<close> is what the database
  server answers: the errors of the connection, of the statements around a migration and of its script.
\<close>

record schema =
  applied :: "int list"
  executed :: "string list"

record pg_server =
  url_error :: "string option"
  exec_error :: "string \<Rightarrow> string option"
  ping_error :: "string option"
  conn_error :: "string option"
  lost :: "string \<Rightarrow> string option"
  script_error :: "string \<Rightarrow> string option"

definition quoteIdent :: "string \<Rightarrow> string" where
  "quoteIdent s = CHR 0x22 # concat (map (\<lambda>c. if c = CHR 0x22 then [CHR 0x22, CHR 0x22] else [c]) s) @ [CHR 0x22]"

text \<open>\<open>Sscanf(name, "%d_", ...)\<close>.\<close>

definition migration_version :: "string \<Rightarrow> int option" where
  "migration_version name =
     (let body = (if name \<noteq> [] \<and> (hd name = CHR ''-'' \<or> hd name = CHR ''+'') then tl name else name);
          ds = takeWhile is_digit body;
          v = int (digits_val 0 ds);
          i = (if name \<noteq> [] \<and> hd name = CHR ''-'' then - v else v)
      in if ds = [] \<or> \<not> in_int64 i \<or> \<not> has_prefix (dropWhile is_digit body) ''_'' then None else Some i)"

fun apply_migrations :: "pg_server \<Rightarrow> string list \<Rightarrow> schema \<Rightarrow> string option \<times> schema" where
  "apply_migrations srv [] sch = (None, sch)"
| "apply_migrations srv (name # names) sch =
     (case migration_version name of
        None \<Rightarrow> (Some (''bad migration name '' @ quote name), sch)
      | Some version \<Rightarrow>
          (case lost srv name of
             Some err \<Rightarrow> (Some err, sch)
           | None \<Rightarrow>
               if version \<in> set (applied sch) then apply_migrations srv names sch
               else case script_error srv name of
                 Some err \<Rightarrow> (Some (''migration '' @ name @ '': '' @ err), sch)
               | None \<Rightarrow> apply_migrations srv names
                   (sch\<lparr>applied := applied sch @ [version], executed := executed sch @ [name]\<rparr>)))"

definition migrate :: "pg_server \<Rightarrow> string list \<Rightarrow> schema \<Rightarrow> string option \<times> schema" where
  "migrate srv files sch =
     (case conn_error srv of
        Some err \<Rightarrow> (Some err, sch)
      | None \<Rightarrow> apply_migrations srv (sort files) sch)"

definition migrationFiles :: "string list" where
  "migrationFiles = [''001_init.sql'']"

definition NewPGStore :: "pg_server \<Rightarrow> string \<Rightarrow> schema \<Rightarrow> string option \<times> schema" where
  "NewPGStore srv schema_name sch =
     (case url_error srv of
        Some err \<Rightarrow> (Some (''parse database url: '' @ err), sch)
      | None \<Rightarrow>
          (case (if schema_name \<noteq> [] then exec_error srv (''CREATE SCHEMA IF NOT EXISTS '' @ quoteIdent schema_name)
                 else None) of
             Some err \<Rightarrow> (Some (''create schema: '' @ err), sch)
           | None \<Rightarrow>
               (case ping_error srv of
                  Some err \<Rightarrow> (Some (''ping database: '' @ err), sch)
                | None \<Rightarrow> migrate srv migrationFiles sch)))"

text \<open>A successful run applies exactly what was missing, once and in order.\<close>

definition pending :: "string list \<Rightarrow> schema \<Rightarrow> string list" where
  "pending names sch = filter (\<lambda>n. the (migration_version n) \<notin> set (applied sch)) names"

definition upgraded :: "string list \<Rightarrow> schema \<Rightarrow> schema" where
  "upgraded names sch =
     sch\<lparr>applied := applied sch @ map (\<lambda>n. the (migration_version n)) (pending names sch),
         executed := executed sch @ pending names sch\<rparr>"

lemma upgraded_Cons:
  assumes "distinct (map migration_version (n # ns))" and "\<forall>m \<in> set (n # ns). migration_version m \<noteq> None"
    and "v = the (migration_version n)" and "v \<notin> set (applied sch)"
  shows "upgraded (n # ns) sch = upgraded ns (sch\<lparr>applied := applied sch @ [v], executed := executed sch @ [n]\<rparr>)"
proof -
  have "the (migration_version m) \<noteq> v" if m: "m \<in> set ns" for m
  proof -
    from assms(1) m have "migration_version m \<noteq> migration_version n"
      by (auto simp del: not_None_eq) (metis image_eqI)
    moreover from assms(2) m obtain a b where "migration_version m = Some a" "migration_version n = Some b" by force
    ultimately show ?thesis by (simp add: assms(3))
  qed
  then have "pending ns (sch\<lparr>applied := applied sch @ [v], executed := executed sch @ [n]\<rparr>) = pending ns sch"
    by (auto simp: pending_def intro!: filter_cong)
  with assms(3,4) show ?thesis by (simp add: upgraded_def) (simp add: pending_def)
qed

text \<open>A run that fails has done the first of the missing ones; what is left of the upgrade is the same.\<close>

lemma upgraded_skip:
  assumes "the (migration_version n) \<in> set (applied sch)"
  shows "upgraded (n # ns) sch = upgraded ns sch"
  using assms by (simp add: upgraded_def pending_def)

lemma apply_migrations_prefix:
  assumes "apply_migrations srv names sch = (r, sch')"
    and "distinct (map migration_version names)" and "\<forall>m \<in> set names. migration_version m \<noteq> None"
  shows "upgraded names sch' = upgraded names sch \<and> prefix (applied sch) (applied sch') \<and>
    prefix (executed sch) (executed sch') \<and>
    prefix (executed sch') (executed (upgraded names sch)) \<and> (r = None \<longrightarrow> sch' = upgraded names sch)"
  using assms
proof (induction srv names sch arbitrary: r sch' rule: apply_migrations.induct)
  case (1 srv sch)
  then show ?case by (simp add: upgraded_def pending_def)
next
  case (2 srv n ns sch)
  then obtain v where v: "migration_version n = Some v" by auto
  let ?sch = "sch\<lparr>applied := applied sch @ [v], executed := executed sch @ [n]\<rparr>"
  have rest: "distinct (map migration_version ns)" "\<forall>m \<in> set ns. migration_version m \<noteq> None"
    using 2(4,5) by auto
  consider (fails) "sch' = sch" "r \<noteq> None"
    | (known) "v \<in> set (applied sch)" "lost srv n = None" "apply_migrations srv ns sch = (r, sch')"
    | (new) "v \<notin> set (applied sch)" "lost srv n = None" "script_error srv n = None"
        "apply_migrations srv ns ?sch = (r, sch')"
    using 2(3) v by (auto split: option.splits if_splits) metis
  then show ?case
  proof cases
    case fails
    then show ?thesis by (auto simp: upgraded_def)
  next
    case known
    from 2(1) [OF v known(2,1,3) rest]
    have ih: "upgraded ns sch' = upgraded ns sch" "prefix (applied sch) (applied sch')"
      "prefix (executed sch) (executed sch')" "prefix (executed sch') (executed (upgraded ns sch))"
      "r = None \<longrightarrow> sch' = upgraded ns sch" by auto
    from known(1) set_mono_prefix [OF ih(2)] have "v \<in> set (applied sch')" by auto
    with known(1) v have "upgraded (n # ns) sch' = upgraded ns sch'" "upgraded (n # ns) sch = upgraded ns sch"
      by (auto intro!: upgraded_skip)
    with ih show ?thesis by simp
  next
    case new
    have up: "upgraded (n # ns) sch = upgraded ns ?sch"
      by (rule upgraded_Cons [OF 2(4,5) _ new(1)]) (simp add: v)
    from 2(2) [OF v new(2,1,3,4) rest]
    have ih: "upgraded ns sch' = upgraded ns ?sch" "prefix (applied ?sch) (applied sch')"
      "prefix (executed ?sch) (executed sch')" "prefix (executed sch') (executed (upgraded ns ?sch))"
      "r = None \<longrightarrow> sch' = upgraded ns ?sch" by auto
    from ih(2) have "v \<in> set (applied sch')" by (auto dest: set_mono_prefix)
    then have "upgraded (n # ns) sch' = upgraded ns sch'" by (simp add: upgraded_skip v)
    moreover have "prefix (applied sch) (applied sch')" "prefix (executed sch) (executed sch')"
      using ih(2,3) by (auto dest: append_prefixD)
    ultimately show ?thesis unfolding up using ih by simp
  qed
qed

text \<open>An interrupted upgrade, resumed, ends where an uninterrupted one does.\<close>

definition versioned :: "string list \<Rightarrow> bool" where
  "versioned files \<longleftrightarrow> distinct (map migration_version files) \<and> list_all (\<lambda>n. migration_version n \<noteq> None) files"

lemma versioned_sort:
  assumes "versioned files"
  shows "distinct (map migration_version (sort files))" "\<forall>n \<in> set (sort files). migration_version n \<noteq> None"
proof -
  have "mset (map migration_version (sort files)) = mset (map migration_version files)" by simp
  then show "distinct (map migration_version (sort files))"
    using assms mset_eq_imp_distinct_iff by (metis versioned_def)
  show "\<forall>n \<in> set (sort files). migration_version n \<noteq> None" using assms by (simp add: versioned_def list_all_iff)
qed

lemma migrate_prefix:
  assumes "migrate srv files sch = (r, sch')" and "versioned files"
  shows "upgraded (sort files) sch' = upgraded (sort files) sch"
    "prefix (executed sch) (executed sch')" "prefix (executed sch') (executed (upgraded (sort files) sch))"
    "r = None \<Longrightarrow> sch' = upgraded (sort files) sch"
proof -
  have "upgraded (sort files) sch' = upgraded (sort files) sch \<and> prefix (executed sch) (executed sch') \<and>
    prefix (executed sch') (executed (upgraded (sort files) sch)) \<and> (r = None \<longrightarrow> sch' = upgraded (sort files) sch)"
  proof (cases "conn_error srv")
    case None
    with assms(1) have "apply_migrations srv (sort files) sch = (r, sch')" by (simp add: migrate_def)
    from apply_migrations_prefix [OF this versioned_sort [OF assms(2)]] show ?thesis by simp
  next
    case (Some e)
    with assms(1) show ?thesis by (auto simp: migrate_def upgraded_def)
  qed
  then show "upgraded (sort files) sch' = upgraded (sort files) sch"
    "prefix (executed sch) (executed sch')" "prefix (executed sch') (executed (upgraded (sort files) sch))"
    "r = None \<Longrightarrow> sch' = upgraded (sort files) sch" by auto
qed

lemma pending_upgraded: "versioned files \<Longrightarrow> pending (sort files) (upgraded (sort files) sch) = []"
  by (auto simp: pending_def upgraded_def filter_empty_conv)

section \<open>Opening the store\<close>

text \<open>A state file is missing, cannot be read or decoded, or holds a state.\<close>

datatype state_file = NoFile | BadFile string | FileHolds app_state

definition NewStore :: "ctx \<Rightarrow> state_file \<Rightarrow> string + app_state" where
  "NewStore cx f =
     (case f of
        NoFile \<Rightarrow> (case save_error cx of Some err \<Rightarrow> Inl err | None \<Rightarrow> Inr (newEmptyState cx))
      | BadFile err \<Rightarrow> Inl err
      | FileHolds s \<Rightarrow> Inr (LoadStateFile s))"

definition read_state_file :: "string \<Rightarrow> state_file \<Rightarrow> string + app_state" where
  "read_state_file path f =
     (case f of
        NoFile \<Rightarrow> Inl (''open '' @ path @ '': no such file or directory'')
      | BadFile err \<Rightarrow> Inl err
      | FileHolds s \<Rightarrow> Inr (LoadStateFile s))"

datatype backend = FileBackend string app_state | PGBackend schema db

record world =
  w_env :: "string \<Rightarrow> string"
  w_args :: "string list"
  w_get :: "string \<Rightarrow> string + nat"
  w_file :: "string \<Rightarrow> state_file"
  w_dir :: "string \<Rightarrow> static_files"
  w_server :: "string \<Rightarrow> pg_server"
  w_schema :: schema
  w_db :: db
  w_interrupt :: "nat \<Rightarrow> pg_error option"
  w_listen :: "string \<Rightarrow> string option"

definition pg_NeedsBootstrap :: "ctx \<Rightarrow> (nat \<Rightarrow> pg_error option) \<Rightarrow> db \<Rightarrow> bool result" where
  "pg_NeedsBootstrap cx interrupt d =
     pg_StoreReadScoped cx interrupt (zero_scope\<lparr>sc_counts := True\<rparr>) (\<lambda>s. Inr (UserCount s = 0)) d"

definition needs_bootstrap :: "ctx \<Rightarrow> world \<Rightarrow> backend \<Rightarrow> bool result" where
  "needs_bootstrap cx w be =
     (case be of FileBackend path s \<Rightarrow> NeedsBootstrap s | PGBackend sch d \<Rightarrow> pg_NeedsBootstrap cx (w_interrupt w) d)"

text \<open>
  How \<open>main\<close> ends or what it runs: it exits with a code, with \<open>fatal\<close> (code 1) and a message, after the migration
  of a state, or it serves an API on a store.
\<close>

datatype outcome = Exit int | Fatal string | Migrated schema db | Serving api backend

definition open_store :: "prims \<Rightarrow> ctx \<Rightarrow> world \<Rightarrow> flag_value gmap \<Rightarrow> outcome + backend" where
  "open_store pr cx w fs =
     (let url = str_flag ''database-url'' fs; from = str_flag ''migrate-state-from'' fs; path = str_flag ''data'' fs
      in if url \<noteq> []
         then (case NewPGStore (w_server w url) [] (w_schema w) of
                 (Some err, sch) \<Rightarrow> Inl (Fatal ''open postgres'')
               | (None, sch) \<Rightarrow>
                   if from = [] then Inr (PGBackend sch (w_db w))
                   else (case read_state_file from (w_file w from) of
                           Inl err \<Rightarrow> Inl (Fatal ''read state file'')
                         | Inr st \<Rightarrow>
                             (case ImportState pr cx (w_interrupt w 0) st (w_db w) of
                                Inl err \<Rightarrow> Inl (Fatal ''migrate'')
                              | Inr d \<Rightarrow> Inl (Migrated sch d))))
         else if from \<noteq> [] then Inl (Fatal ''--migrate-state-from requires --database-url'')
         else (case NewStore cx (w_file w path) of
                 Inl err \<Rightarrow> Inl (Fatal ''load store'')
               | Inr s \<Rightarrow> Inr (FileBackend path s)))"

text \<open>The bootstrap gate: a token is generated when the system is empty and none is configured.\<close>

definition gate_token :: "prims \<Rightarrow> ctx \<Rightarrow> string \<Rightarrow> bool result \<Rightarrow> string + string" where
  "gate_token pr cx configured needs =
     (case needs of
        Inl err \<Rightarrow> Inr configured
      | Inr b \<Rightarrow> if b \<and> configured = [] then RandomBase64URL pr cx 0 24 else Inr configured)"

definition start_listening :: "world \<Rightarrow> string \<Rightarrow> api \<Rightarrow> backend \<Rightarrow> outcome" where
  "start_listening w addr api be = (case w_listen w addr of Some err \<Rightarrow> Fatal ''listen'' | None \<Rightarrow> Serving api be)"

definition main :: "prims \<Rightarrow> net_lib \<Rightarrow> ctx \<Rightarrow> world \<Rightarrow> outcome" where
  "main pr lib cx w =
     (case parse_flags (w_args w) (flag_defaults (w_env w)) of
        Inl rc \<Rightarrow> Exit rc
      | Inr fs \<Rightarrow>
          let addr = str_flag ''addr'' fs;
              pr' = pr\<lparr>admin_mfa_required := bool_flag ''require-admin-mfa'' fs\<rparr>
          in if bool_flag ''version'' fs then Exit 0
             else if bool_flag ''healthcheck'' fs then Exit (runHealthcheck (w_get w) addr)
             else (case open_store pr' cx w fs of
                     Inl r \<Rightarrow> r
                   | Inr be \<Rightarrow>
                       (case gate_token pr' cx (str_flag ''bootstrap-token'' fs) (needs_bootstrap cx w be) of
                          Inl err \<Rightarrow> Fatal ''generate bootstrap token''
                        | Inr token \<Rightarrow>
                            let static = str_flag ''static'' fs;
                                api = WithBootstrapToken token (NewAPI pr' lib (splitCSV (str_flag ''cors'' fs))
                                  (if static = [] then None else Some (w_dir w static)))
                            in start_listening w addr api be)))"

section \<open>Restarts\<close>

text \<open>The repairs at load do nothing to a state that the server itself has written.\<close>

lemma backfill_idle:
  assumes "ledger_ok pr c" and "minted_seen c"
  shows "backfillLedgerHead (backfillMintedTotal c) = c"
proof -
  have none: "foldl (\<lambda>acc e. wrap64 (acc + minted_amount e)) 0 es = 0" if "list_all (\<lambda>e. le_type e \<noteq> ''funds_minted'') es" for es
    using that by (induction es rule: rev_induct) (simp_all add: minted_amount_def)
  have "backfillMintedTotal c = c"
    using assms(2) none by (auto simp: backfillMintedTotal_def minted_seen_def)
  with assms(1) show ?thesis by (auto simp: backfillLedgerHead_def ledger_ok_def head_hash_def)
qed

lemma reload_reachable:
  assumes "sys_ok pr s" shows "LoadStateFile s = s"
proof -
  have "map (\<lambda>(k, c). (k, backfillLedgerHead (backfillMintedTotal c))) cs = cs" if "gall (\<lambda>k c. colony_ok pr c) cs" for cs
    using that by (induction cs) (auto simp: colony_ok_def backfill_idle)
  moreover have "gall (\<lambda>k c. colony_ok pr c) (st_colonies s)"
    using assms by (simp add: sys_ok_def money_ok_def struct_ok_def)
  ultimately show ?thesis by (simp add: LoadStateFile_def)
qed

text \<open>The database server as long as it answers.\<close>

lemma pg_NeedsBootstrap_answers: "pg_NeedsBootstrap cx (\<lambda>n. None) d = Inr (db_users d = [])"
  by (simp add: pg_NeedsBootstrap_def pg_StoreReadScoped_def run_def numeral_eq_Suc once_def load_def Let_def
      loadCounts_def zero_scope_def UserCount_def)

definition system_empty :: "world \<Rightarrow> backend \<Rightarrow> bool" where
  "system_empty w be =
     (case be of
        FileBackend path s \<Rightarrow> st_users s = [] \<and> st_counts s = None
      | PGBackend sch d \<Rightarrow> db_users d = [] \<and> w_interrupt w = (\<lambda>n. None))"

lemma system_empty_needs: "system_empty w be \<Longrightarrow> needs_bootstrap cx w be = Inr True"
  by (auto simp: system_empty_def needs_bootstrap_def NeedsBootstrap_def StoreReadScoped_def UserCount_def
      pg_NeedsBootstrap_answers split: backend.splits)

lemma open_store_stops: "open_store pr cx w fs \<noteq> Inl (Serving a be)"
  by (auto simp: open_store_def Let_def split: if_splits sum.splits option.splits prod.splits)

lemma gate_token_flag: "gate_token (pr\<lparr>admin_mfa_required := b\<rparr>) = gate_token pr"
  by (auto simp: gate_token_def fun_eq_iff RandomBase64URL_def split: sum.split)

lemma main_Serving:
  assumes "main pr lib cx w = Serving a be"
  shows "\<exists>fs token. parse_flags (w_args w) (flag_defaults (w_env w)) = Inr fs \<and>
    open_store (pr\<lparr>admin_mfa_required := bool_flag ''require-admin-mfa'' fs\<rparr>) cx w fs = Inr be \<and>
    gate_token pr cx (str_flag ''bootstrap-token'' fs) (needs_bootstrap cx w be) = Inr token \<and>
    a_bootstrap_token a = token \<and> a_prims a = pr\<lparr>admin_mfa_required := bool_flag ''require-admin-mfa'' fs\<rparr>"
proof (cases "parse_flags (w_args w) (flag_defaults (w_env w))")
  case (Inr fs)
  let ?pr = "pr\<lparr>admin_mfa_required := bool_flag ''require-admin-mfa'' fs\<rparr>"
  let ?gate = "\<lambda>be. gate_token ?pr cx (str_flag ''bootstrap-token'' fs) (needs_bootstrap cx w be)"
  from assms Inr obtain be' token where *: "open_store ?pr cx w fs = Inr be'" "?gate be' = Inr token"
    unfolding main_def Let_def by (auto simp: open_store_stops split: sum.splits if_splits)
  with assms Inr have "be' = be \<and> a_bootstrap_token a = token \<and> a_prims a = ?pr"
    unfolding main_def Let_def
    by (auto simp: start_listening_def WithBootstrapToken_def NewAPI_def split: if_splits option.splits)
  with * Inr show ?thesis by (auto simp: gate_token_flag)
qed (use assms in \<open>simp add: main_def\<close>)

lemma open_store_file:
  "open_store pr cx w fs = Inr (FileBackend path s) \<Longrightarrow> NewStore cx (w_file w path) = Inr s"
  by (auto simp: open_store_def Let_def split: if_splits sum.splits option.splits prod.splits)

lemma main_file: "main pr lib cx w = Serving a (FileBackend path s) \<Longrightarrow> NewStore cx (w_file w path) = Inr s"
  by (blast dest: main_Serving open_store_file)

section \<open>The life of a server\<close>

text \<open>The expiry ticker: a sweep, and a counter when it found something.\<close>

definition tick :: "prims \<Rightarrow> ctx \<Rightarrow> server \<Rightarrow> server" where
  "tick pr cx sv =
     (case SweepExpired pr cx (sv_state sv) of
        (Inl err, s) \<Rightarrow> sv\<lparr>sv_state := s\<rparr>
      | (Inr n, s) \<Rightarrow> sv\<lparr>sv_state := s, sv_metrics := (if n > 0 then Inc ''itp_offers_expired_total'' [] (sv_metrics sv)
                                                      else sv_metrics sv)\<rparr>)"

text \<open>
  \<open>ServeUntil\<close>: \<open>early\<close> is the error with which \<open>Serve\<close> returns before the signal, \<open>shutdown\<close> the error of
  draining the open requests within the grace period, \<open>late\<close> what \<open>Serve\<close> returns after that.  The result is
  the error, and \<open>main\<close> turns it into the exit code.
\<close>

datatype serve_error = ErrServerClosed | OtherError string

definition ServeUntil :: "serve_error option \<Rightarrow> string option \<Rightarrow> serve_error \<Rightarrow> serve_error option" where
  "ServeUntil early shutdown late =
     (case early of
        Some err \<Rightarrow> Some err
      | None \<Rightarrow> (case shutdown of
            Some err \<Rightarrow> Some (OtherError err)
          | None \<Rightarrow> if late \<noteq> ErrServerClosed then Some late else None))"

definition exit_code :: "serve_error option \<Rightarrow> int" where
  "exit_code r = (case r of None \<Rightarrow> 0 | Some err \<Rightarrow> 1)"

text \<open>
  The file store across the processes that run on it: a process starts on what the file holds, answers
  requests and ticks, and is stopped, at any time.  Every successful update writes the file, so it holds
  the state of the process.  The flags keep the administrators' MFA policy from one process to the next.
\<close>

inductive life :: "prims \<Rightarrow> net_lib \<Rightarrow> string \<Rightarrow> state_file \<Rightarrow> (api \<times> server) option \<Rightarrow> bool" for pr lib path where
  install: "life pr lib path NoFile None"
| boot: "life pr lib path f None \<Longrightarrow> main pr lib cx w = Serving a (FileBackend path s) \<Longrightarrow> w_file w path = f \<Longrightarrow>
    a_prims a = pr \<Longrightarrow>
    life pr lib path (if f = NoFile then FileHolds s else f)
      (Some (a, \<lparr>sv_state = s, sv_log = [], sv_metrics = NewMetrics\<rparr>))"
| exchange: "life pr lib path f (Some (a, sv)) \<Longrightarrow> fresh_ids cx (sv_state sv) \<Longrightarrow>
    sv' = after_exch (ServeHTTP a cx rnd dur r sv) \<Longrightarrow> life pr lib path (FileHolds (sv_state sv')) (Some (a, sv'))"
| tick: "life pr lib path f (Some (a, sv)) \<Longrightarrow> fresh_ids cx (sv_state sv) \<Longrightarrow> sv' = tick pr cx sv \<Longrightarrow>
    life pr lib path (FileHolds (sv_state sv')) (Some (a, sv'))"
| stop: "life pr lib path f (Some r) \<Longrightarrow> life pr lib path f None"

definition intact :: "prims \<Rightarrow> state_file \<Rightarrow> (api \<times> server) option \<Rightarrow> bool" where
  "intact pr f p =
     (case f of
        NoFile \<Rightarrow> p = None
      | BadFile err \<Rightarrow> False
      | FileHolds s \<Rightarrow> reachable pr s \<and> (case p of None \<Rightarrow> True | Some (a, sv) \<Rightarrow> sv_state sv = s \<and> a_prims a = pr))"

lemma life_intact: "life pr lib path f p \<Longrightarrow> intact pr f p"
proof (induction rule: life.induct)
  case (boot f cx w a s)
  from main_file [OF boot(2)] boot(3) have s: "NewStore cx f = Inr s" by simp
  show ?case
  proof (cases f)
    case NoFile
    with s have "s = newEmptyState cx" by (auto simp: NewStore_def split: option.splits)
    with NoFile boot(4) show ?thesis by (simp add: intact_def reachable.start)
  next
    case (FileHolds s0)
    with boot.IH have r: "reachable pr s0" by (simp add: intact_def)
    from FileHolds s have "s = LoadStateFile s0" by (simp add: NewStore_def)
    with reload_reachable [OF reachable_sys [OF r]] FileHolds r boot(4) show ?thesis by (simp add: intact_def)
  qed (use s in \<open>simp add: NewStore_def\<close>)
next
  case (exchange f a sv cx sv' rnd dur r)
  from exchange.IH have ok: "reachable pr (sv_state sv)" "a_prims a = pr" by (auto simp: intact_def split: state_file.splits)
  from ServeHTTP_effect [of a cx r sv rnd dur] have "reachable pr (sv_state sv')"
    using reachable.next_step [OF ok(1) step.request [OF exchange.hyps(2)]] ok exchange.hyps(3)
    by (auto simp: effect_def after_exch_def)
  with ok(2) show ?case by (simp add: intact_def)
next
  case (tick f a sv cx sv')
  from tick.IH have ok: "reachable pr (sv_state sv)" "a_prims a = pr" by (auto simp: intact_def split: state_file.splits)
  from reachable.next_step [OF ok(1) step.request [OF tick.hyps(2), where r = ReqSweep]]
  have "reachable pr (sv_state sv')"
    by (auto simp: tick.hyps(3) tick_def split: prod.splits sum.splits)
  with ok(2) show ?case by (simp add: intact_def)
qed (auto simp: intact_def split: state_file.splits)

lemma intact_file:
  assumes "intact pr f p" and "f \<noteq> NoFile"
  obtains s where "f = FileHolds s" "reachable pr s" "case p of None \<Rightarrow> True | Some (a, sv) \<Rightarrow> sv_state sv = s"
  using assms by (auto simp: intact_def split: state_file.splits option.splits)

lemma life_reload:
  assumes "life pr lib path (FileHolds s) p" shows "NewStore cx (FileHolds s) = Inr s"
  using life_intact [OF assms] reload_reachable [OF reachable_sys, of pr s] by (auto simp: intact_def NewStore_def)

end
