(* ===== verification/ServerDemo.thy ===== *)
theory ServerDemo
  imports Server WebDemo PgDemo
begin

text \<open>
  A first start of the server on an empty directory, with and without a configured bootstrap token, and the
  life of the file store over a restart.
\<close>

definition demo_world :: "string list \<Rightarrow> world" where
  "demo_world args =
     \<lparr>w_env = (\<lambda>k. []), w_args = args, w_get = (\<lambda>url. Inr 200), w_file = (\<lambda>p. NoFile),
      w_dir = (\<lambda>p. \<lparr>is_file = (\<lambda>f. False), file_status = (\<lambda>r. 404), index_status = (\<lambda>r. 404)\<rparr>),
      w_server = (\<lambda>u. \<lparr>url_error = None, exec_error = (\<lambda>s. None), ping_error = None, conn_error = None,
         lost = (\<lambda>n. None), script_error = (\<lambda>n. None)\<rparr>),
      w_schema = \<lparr>applied = [], executed = []\<rparr>, w_db = empty_db, w_interrupt = (\<lambda>n. None), w_listen = (\<lambda>a. None)\<rparr>"

definition boot_args :: "string list" where
  "boot_args = [''--bootstrap-token'', ''boot'', ''-cors= https://ui.example '']"

definition data_path :: string where
  "data_path = ''./data/state.json''"

lemma demo_start_without_token:
  "case main demo_prims demo_lib demo_ctx (demo_world []) of
     Serving a be \<Rightarrow> (case be of FileBackend p s \<Rightarrow> a_bootstrap_token a = replicate 24 (CHR ''z'') | _ \<Rightarrow> False)
   | _ \<Rightarrow> False"
  by code_simp

lemma demo_start_on_postgres:
  "case main demo_prims demo_lib demo_ctx (demo_world [''--database-url=postgres://db'']) of
     Serving a be \<Rightarrow> (case be of PGBackend sch d \<Rightarrow> executed sch = [''001_init.sql''] \<and> applied sch = [1] | _ \<Rightarrow> False)
   | _ \<Rightarrow> False"
  by code_simp

definition fate :: "outcome \<Rightarrow> (int + string) option" where
  "fate r = (case r of Exit n \<Rightarrow> Some (Inl n) | Fatal msg \<Rightarrow> Some (Inr msg) | _ \<Rightarrow> None)"

lemma demo_bad_start:
  "fate (main demo_prims demo_lib demo_ctx (demo_world [''-migrate-state-from'', ''old.json''])) =
     Some (Inr ''--migrate-state-from requires --database-url'')"
  "fate (main demo_prims demo_lib demo_ctx (demo_world [''-port'', ''80''])) = Some (Inl 2)"
  "fate (main demo_prims demo_lib demo_ctx (demo_world [''--healthcheck'', ''-version=f''])) = Some (Inl 0)"
  by code_simp+

lemma demo_flags: "parse_flags boot_args (flag_defaults (\<lambda>k. [])) =
    Inr [(''addr'', StrFlag '':8080''), (''data'', StrFlag data_path), (''cors'', StrFlag '' https://ui.example ''),
      (''static'', StrFlag []), (''database-url'', StrFlag []), (''migrate-state-from'', StrFlag []),
      (''bootstrap-token'', StrFlag ''boot''), (''require-admin-mfa'', BoolFlag False), (''metrics-addr'', StrFlag []),
      (''healthcheck'', BoolFlag False), (''version'', BoolFlag False)]"
  by code_simp

lemma demo_origins: "filter (\<lambda>o'. o' \<noteq> []) (map trim_space (splitCSV '' https://ui.example '')) =
    filter (\<lambda>o'. o' \<noteq> []) (map trim_space ['' https://ui.example ''])"
  by code_simp

lemma demo_main:
  "main demo_prims demo_lib demo_ctx (demo_world boot_args) = Serving demo_api (FileBackend data_path (newEmptyState demo_ctx))"
  by (simp add: main_def start_listening_def demo_world_def demo_flags str_flag_def bool_flag_def open_store_def NewStore_def gate_token_def
      demo_api_def WithBootstrapToken_def NewAPI_def demo_origins demo_prims_def demo_ctx_def Let_def split: sum.split)

text \<open>Installed, started, the administrator created over HTTP, and stopped.\<close>

definition stopped_state :: app_state where
  "stopped_state = x_state (demo_serve (bootstrap_post ''boot'') (demo_server (newEmptyState demo_ctx)))"

lemma demo_life: "life demo_prims demo_lib data_path (FileHolds stopped_state) None"
proof -
  have "life demo_prims demo_lib data_path NoFile None" by (rule life.install)
  from life.boot [OF this demo_main] have
    "life demo_prims demo_lib data_path (FileHolds (newEmptyState demo_ctx)) (Some (demo_api, demo_server (newEmptyState demo_ctx)))"
    by (simp add: demo_world_def demo_server_def demo_api_def WithBootstrapToken_def NewAPI_def)
  moreover have "fresh_ids (ctx_of (CHR ''a'')) (sv_state (demo_server (newEmptyState demo_ctx)))"
    by (rule fresh_for_fresh_ids) (simp add: fresh_for_def newEmptyState_def demo_server_def)
  ultimately have "life demo_prims demo_lib data_path
      (FileHolds (sv_state (after_exch (demo_serve (bootstrap_post ''boot'') (demo_server (newEmptyState demo_ctx))))))
      (Some (demo_api, after_exch (demo_serve (bootstrap_post ''boot'') (demo_server (newEmptyState demo_ctx)))))"
    by (rule life.exchange) (simp add: demo_serve_def)
  then have "life demo_prims demo_lib data_path (FileHolds stopped_state)
      (Some (demo_api, after_exch (demo_serve (bootstrap_post ''boot'') (demo_server (newEmptyState demo_ctx)))))"
    by (simp add: stopped_state_def after_exch_def)
  then show ?thesis by (rule life.stop)
qed

lemma stopped_state_users: "length (st_users stopped_state) = 1"
  using bootstrap_post_served by (simp add: stopped_state_def Let_def)

end
