(* ===== verification/FileText.thy ===== *)
theory FileText
  imports Ledger
begin

text \<open>
  The bytes of signed payloads in the state file (\<open>SaveJSONAtomic\<close> of \<open>domain/util.go\<close>, \<open>normalizeRawPayloads\<close> of
  \<open>storage/store.go\<close>).  The file is written with \<open>json.MarshalIndent\<close>, which indents a \<open>json.RawMessage\<close> along with
  the rest, while hashes and signatures cover the compact bytes; \<open>json.Compact\<close> at load restores them.
\<close>

section \<open>Indented text\<close>

text \<open>\<open>MarshalIndent(v, "", "  ")\<close>, for a value that is nested \<open>n\<close> levels deep.\<close>

definition line_break :: "nat \<Rightarrow> string" where
  "line_break n = CHR 0x0A # replicate (2 * n) (CHR '' '')"

fun json_indent :: "nat \<Rightarrow> json \<Rightarrow> string" where
  "json_indent n JNull = ''null''"
| "json_indent n (JBool b) = (if b then ''true'' else ''false'')"
| "json_indent n (JInt i) = show_int i"
| "json_indent n (JDec s) = s"
| "json_indent n (JStr s) = quote s"
| "json_indent n (JArr xs) =
     (if xs = [] then ''[]''
      else ''['' @ join '','' (map (\<lambda>x. line_break (n + 1) @ json_indent (n + 1) x) xs) @ line_break n @ '']'')"
| "json_indent n (JObj ms) =
     (if ms = [] then ''{}''
      else ''{'' @ join '','' (map (\<lambda>p. line_break (n + 1) @ quote (fst p) @ '': '' @ json_indent (n + 1) (snd p)) ms)
        @ line_break n @ ''}'')"

text \<open>\<open>json.Compact\<close> of a valid text: white space goes, except in strings; the flag says whether one is open.\<close>

definition json_space :: "char \<Rightarrow> bool" where
  "json_space c \<longleftrightarrow> c = CHR '' '' \<or> c = CHR 0x09 \<or> c = CHR 0x0A \<or> c = CHR 0x0D"

fun compact :: "bool \<Rightarrow> string \<Rightarrow> string" where
  "compact inside [] = []"
| "compact False (c # cs) =
     (if json_space c then compact False cs else c # compact (c = CHR 0x22) cs)"
| "compact True (c # cs) =
     (if c = CHR 0x5C then (case cs of [] \<Rightarrow> [c] | d # ds \<Rightarrow> c # d # compact True ds)
      else c # compact (c \<noteq> CHR 0x22) cs)"

definition normalizeRawPayload :: "string \<Rightarrow> string" where
  "normalizeRawPayload raw = compact False raw"

text \<open>A number that is not an integer is kept as its text, which has neither spaces nor quotes.\<close>

fun numbers_ok :: "json \<Rightarrow> bool" where
  "numbers_ok (JDec s) = list_all (\<lambda>c. \<not> json_space c \<and> c \<noteq> CHR 0x22) s"
| "numbers_ok (JArr xs) = list_all numbers_ok xs"
| "numbers_ok (JObj ms) = list_all (\<lambda>p. numbers_ok (snd p)) ms"
| "numbers_ok j = True"

section \<open>Compacting what was indented\<close>

text \<open>Compacting turns the text \<open>t\<close> into \<open>u\<close>, whatever follows it.\<close>

definition compacts :: "string \<Rightarrow> string \<Rightarrow> bool" where
  "compacts t u \<longleftrightarrow> (\<forall>rest. compact False (t @ rest) = u @ compact False rest)"

named_theorems compacts_intros \<open>how the parts of a JSON text are compacted\<close>

lemma compacts_append [compacts_intros]: "compacts t u \<Longrightarrow> compacts t' u' \<Longrightarrow> compacts (t @ t') (u @ u')"
  by (simp add: compacts_def)

lemma compacts_space: "compacts t u \<Longrightarrow> list_all json_space s \<Longrightarrow> compacts (s @ t) u"
  by (induction s) (simp_all add: compacts_def)

lemma compacts_plain: "list_all (\<lambda>c. \<not> json_space c \<and> c \<noteq> CHR 0x22) s \<Longrightarrow> compacts s s"
  by (induction s) (simp_all add: compacts_def)

lemma line_break_space: "list_all json_space (line_break n)"
  by (simp add: line_break_def json_space_def list_all_iff)

lemma hex_digit_plain: "n < 16 \<Longrightarrow> hex_digit n \<noteq> CHR 0x22" "n < 16 \<Longrightarrow> hex_digit n \<noteq> CHR 0x5C"
proof -
  assume n: "n < 16"
  then have "code (hex_digit n) \<noteq> code (CHR 0x22)" "code (hex_digit n) \<noteq> code (CHR 0x5C)"
    by (simp_all add: hex_digit_def code_char_of) (simp_all add: code_def)
  then show "hex_digit n \<noteq> CHR 0x22" "hex_digit n \<noteq> CHR 0x5C" by auto
qed

lemma code_halves: "code c div 16 < 16" "code c mod 16 < 16"
  using code_less [of c] by (simp_all add: less_mult_imp_div_less)

lemma compact_escape: "compact True (escape_char c @ rest) = escape_char c @ compact True rest"
  by (auto simp: escape_char_def hex_digit_plain code_halves)

lemma compacts_quote [compacts_intros]: "compacts (quote s) (quote s)"
proof -
  have "compact True (concat (map escape_char s) @ CHR 0x22 # rest) = concat (map escape_char s) @ CHR 0x22 # compact False rest" for rest
    by (induction s) (simp_all add: compact_escape)
  then show ?thesis by (simp add: compacts_def quote_def json_space_def)
qed

lemma compacts_Cons: "compacts t u \<Longrightarrow> \<not> json_space c \<Longrightarrow> c \<noteq> CHR 0x22 \<Longrightarrow> compacts (c # t) (c # u)"
  by (simp add: compacts_def)

lemma compacts_nil: "compacts [] []"
  by (simp add: compacts_def)

lemma compacts_join [compacts_intros]:
  assumes "list_all2 compacts ts us" shows "compacts (join '','' ts) (join '','' us)"
  using assms
proof (induction ts us rule: list_all2_induct)
  case (Cons t ts u us)
  then show ?case
    by (cases ts; cases us) (auto simp: json_space_def intro!: compacts_append compacts_Cons)
qed (simp add: compacts_nil)

lemma show_nat_plain: "list_all (\<lambda>c. \<not> json_space c \<and> c \<noteq> CHR 0x22) (show_nat n)"
  using show_nat_digits [of n] by (auto simp: list_all_iff is_digit_def json_space_def code_def)

lemma compacts_empty: "compacts ''[]'' ''[]''" "compacts ''{}'' ''{}''"
  by (simp_all add: compacts_plain json_space_def)

lemma compacts_enclose:
  assumes "compacts t u" and "\<not> json_space a" "a \<noteq> CHR 0x22" "\<not> json_space b" "b \<noteq> CHR 0x22"
  shows "compacts (a # t @ line_break n @ [b]) (a # u @ [b])"
proof -
  have "compacts (line_break n @ [b]) [b]"
    by (rule compacts_space [OF compacts_Cons [OF compacts_nil assms(4,5)] line_break_space])
  from compacts_append [OF assms(1) this] assms(2,3) show ?thesis by (rule compacts_Cons)
qed

lemma compacts_indent: "numbers_ok j \<Longrightarrow> compacts (json_indent n j) (json_text j)"
proof (induction n j rule: json_indent.induct)
  case (3 n i)
  have "list_all (\<lambda>c. \<not> json_space c \<and> c \<noteq> CHR 0x22) (show_int i)"
    using show_nat_plain by (simp add: show_int_def json_space_def)
  then show ?case by (simp add: compacts_plain)
next
  case (6 n xs)
  have "compacts (line_break (n + 1) @ json_indent (n + 1) x) (json_text x)" if "x \<in> set xs" for x
    by (rule compacts_space [OF _ line_break_space]) (use 6 that in \<open>force simp: list_all_iff\<close>)
  then have "list_all2 compacts (map (\<lambda>x. line_break (n + 1) @ json_indent (n + 1) x) xs) (map json_text xs)"
    by (simp add: list_all2_conv_all_nth)
  from compacts_enclose [OF compacts_join [OF this], of "CHR ''[''" "CHR '']''"] show ?case
    by (simp add: compacts_empty json_space_def)
next
  case (7 n ms)
  have "compacts (line_break (n + 1) @ quote (fst p) @ '': '' @ json_indent (n + 1) (snd p)) (quote (fst p) @ '':'' @ json_text (snd p))"
    if "p \<in> set ms" for p
  proof -
    have "compacts (json_indent (n + 1) (snd p)) (json_text (snd p))" using 7(1) [of p] 7(2) that by (cases ms) (auto simp: list_all_iff)
    then have "compacts ('': '' @ json_indent (n + 1) (snd p)) ('':'' @ json_text (snd p))"
      by (auto simp: compacts_def json_space_def)
    from compacts_space [OF compacts_append [OF compacts_quote this] line_break_space] show ?thesis .
  qed
  then have "list_all2 compacts (map (\<lambda>p. line_break (n + 1) @ quote (fst p) @ '': '' @ json_indent (n + 1) (snd p)) ms)
      (map (\<lambda>p. quote (fst p) @ '':'' @ json_text (snd p)) ms)"
    by (simp add: list_all2_conv_all_nth)
  from compacts_enclose [OF compacts_join [OF this], of "CHR ''{''" "CHR ''}''"] show ?case
    by (simp add: compacts_empty json_space_def)
qed (auto intro!: compacts_plain compacts_quote simp: json_space_def)

text \<open>The bytes of a payload are restored; without the repair those of an object with members would have changed.\<close>

lemma payload_bytes: "numbers_ok j \<Longrightarrow> normalizeRawPayload (json_indent n j) = json_text j"
  using compacts_indent [of j n] by (auto simp: normalizeRawPayload_def compacts_def dest: spec [where x = "[]"])

lemma indent_changes: "json_indent n (JObj (m # ms)) \<noteq> json_text (JObj (m # ms))"
  by (cases "map (\<lambda>p. line_break (n + 1) @ quote (fst p) @ '': '' @ json_indent (n + 1) (snd p)) ms";
      cases "map (\<lambda>p. quote (fst p) @ '':'' @ json_text (snd p)) ms") (simp_all add: line_break_def quote_def)

end
