(* ===== verification/Spec2Isabelle.thy ===== *)
theory Spec2Isabelle
  imports Integrity Atomicity Protection Limits WebDemo PgDemo ServerDemo FileText
begin

text \<open>
  A verification library for the interstellar trade platform, a Go server on which colonies trade.

  A colony holds accounts in its own money and a ledger that is a hash chain.  A trade goes between
  two colonies that cannot talk to each other directly: each step is a signed envelope in an outbox,
  bundles of envelopes are carried by hand from one colony to the other.  An offer of the seller
  travels to the buyer's colony, an acceptance (with the buyer's money debited into escrow) travels
  back, a settlement or a refund ends it.  Administrators create colonies and users, mint money up to
  a cap and, where a colony asks for dual control, approve each other's proposals.

  \<^bold>\<open>How the code is modelled.\<close>  A definition has the name of the Go function or type it translates;
  structs are records, status strings a datatype, a map is an association list (theory \<open>Prelude\<close>), a
  pointer into a map is the key it is stored under, an \<open>int64\<close> is an integer whose arithmetic goes
  through \<open>wrap64\<close>.  A function that may fail returns \<open>go_error + 'a\<close>, where a panic is an error of its
  own.  A request of the service is a \<open>handler\<close>: it takes the state and returns its result with the
  state as it left it; \<open>StoreUpdateScoped\<close> (theory \<open>Store\<close>) then keeps that state or throws it away.
  What a request reads from outside is a parameter: \<open>prims\<close> are the cryptographic primitives, \<open>ctx\<close> the
  clocks, the random bytes and the error of saving the file, \<open>net_lib\<close> the address and URL parsers.
  All definitions compute, so the witnesses evaluate them.

  \<^bold>\<open>The theories\<close>, from the bottom, with the files under \<open>src/backend/internal\<close> they model:
  \<^item> \<open>Prelude\<close>, \<open>GoStrings\<close>, \<open>GoTime\<close>, \<open>Json\<close>: maps, 64-bit integers, and the parts of Go's library that the
    code leans on (strings, hexadecimal, decimal and RFC 3339 texts, JSON values).
  \<^item> \<open>Model\<close> (\<open>domain/model.go\<close>, \<open>errors.go\<close>), \<open>TradeState\<close> (\<open>trade_state.go\<close>), \<open>Crypto\<close> (\<open>util.go\<close>), \<open>Wire\<close>
    (the signed payloads), \<open>Ledger\<close> (\<open>appendLedger\<close>), \<open>Credentials\<close> (\<open>password.go\<close>, \<open>security.go\<close>).
  \<^item> \<open>Store\<close> (\<open>storage/store.go\<close>), \<open>FileText\<close> (the bytes of payloads in the state file), \<open>Money\<close> (\<open>VerifyStateIntegrity\<close> of \<open>storage/pg_migrate.go\<close>).
  \<^item> \<open>Views\<close>, \<open>Access\<close>, \<open>Admin\<close>, \<open>Lifecycle\<close>, \<open>Trade\<close>, \<open>Import\<close>, \<open>Approvals\<close>, \<open>Sessions\<close>, \<open>UserAdmin\<close>, \<open>Queries\<close>:
    the requests of \<open>service/\<close>, one definition each.
  \<^item> \<open>Tables\<close> (the schema \<open>storage/migrations/001_init.sql\<close> and \<open>pg_persist.go\<close>), \<open>Loading\<close> (\<open>pg_load.go\<close>, \<open>pg_store.go\<close>,
    \<open>ImportState\<close> of \<open>pg_migrate.go\<close>, \<open>service/scopes.go\<close>), \<open>Backends\<close> and \<open>Answers\<close> (the sweep and the list of trades on
    PostgreSQL): the second store.  A table is
    an association list, a statement returns the database after it or the violated constraint.
  \<^item> \<open>Requests\<close>, \<open>Observe\<close>, \<open>Http\<close>, \<open>Handlers\<close>: the HTTP interface of \<open>httpapi/\<close>, from the decoding of bodies to
    \<open>ServeHTTP\<close>, which runs the whole chain of middlewares, the mux and a handler on an \<open>exch\<close>ange.
  \<^item> \<open>Server\<close> (\<open>cmd/itp-server/main.go\<close>, \<open>NewStore\<close> of \<open>storage/store.go\<close>, \<open>NewPGStore\<close> of \<open>storage/pg_store.go\<close>, \<open>ServeUntil\<close>
    of \<open>httpapi/server.go\<close>): the command line, the start on either store with its schema migrations and the gate of
    the first administrator; \<open>life\<close> is a data file with the processes that come and go on it.
  \<^item> \<open>Conservation\<close>, \<open>Invariant\<close>, \<open>Integrity\<close>, \<open>System\<close>, \<open>Progress\<close>, \<open>Settlement\<close>, \<open>Atomicity\<close>, \<open>Protection\<close>,
    \<open>Limits\<close>, \<open>Gateway\<close>, \<open>Persistence\<close>, \<open>Transactions\<close>, \<open>Migration\<close>, \<open>Unchanged\<close>, \<open>Backends\<close>, \<open>Backlog\<close>, \<open>Answers\<close>: the proofs.  \<open>Demo\<close>, \<open>WebDemo\<close>,
    \<open>PgDemo\<close>, \<open>ServerDemo\<close> hold the concrete worlds of the witnesses.

  \<^bold>\<open>How it fits together.\<close>  Theory \<open>System\<close> makes the service a state machine: \<open>request\<close> is a request,
  \<open>serve\<close> the state it leaves behind, \<open>step\<close> also has the second transactions of the requests that hash a
  password between two transactions, each on whatever state it then finds.  \<open>reachable\<close> is closed under
  \<open>step\<close> from the empty state, with any clocks and any random bytes that do not repeat an identifier
  (\<open>fresh_ids\<close>: the server draws 64 random bits).  Theory \<open>Gateway\<close> shows that \<open>ServeHTTP\<close> refines it.
  Four interfaces carry the proofs, each a locale that is interpreted on the model:
  \<open>state_invariant\<close> (what every update of the state must keep for a predicate to be an invariant),
  \<open>state_relation\<close> (the same for a relation between the state before and after) and \<open>ranked_machine\<close> (a
  transition table that never goes back), and \<open>row_loop\<close> (a loop that overwrites the rows of a table, interpreted
  on each loop of \<open>persist\<close>).

  \<^bold>\<open>What is shown.\<close>  Money is conserved and bounded, and moves only as a trade, a refund or a mint says
  (\<open>Conservation\<close>, \<open>Invariant\<close>, \<open>Settlement\<close>); ledgers only grow, are intact and tamper-evident (\<open>Ledger\<close>,
  \<open>Integrity\<close>, \<open>Progress\<close>); trades never go back and bundles count once; dual control and the four-eyes
  rule hold, an administrator always remains, sessions are bounded (\<open>Progress\<close>); a failed request
  changes nothing but the count of failed logins (\<open>Atomicity\<close>); lockout, one-time codes and resets do
  what they should (\<open>Protection\<close>, \<open>Credentials\<close>); encoders and decoders agree (\<open>Wire\<close>, \<open>Requests\<close>, \<open>GoTime\<close>);
  over HTTP, only proper requests change the state and each of them is recorded (\<open>Gateway\<close>); a write to
  PostgreSQL overwrites exactly what the request changed (\<open>Persistence\<close>, an abstraction of the tables to maps and
  append-only lists), keeps the constraints and fails without a trace (\<open>Transactions\<close>), a migration loses nothing
  (\<open>Migration\<close>), both stores sweep alike (\<open>Backends\<close>) and show the same trades (\<open>Answers\<close>), and the ticker works off
  every backlog of expired offers (\<open>Backlog\<close>, on the columns that \<open>Unchanged\<close> shows to follow the documents); a server starts with a closed door, restarts on exactly
  the state it had, and upgrades its schema once (\<open>Server\<close>); the file keeps the bytes that hashes and signatures cover (\<open>FileText\<close>).  \<open>Limits\<close>
  holds the places where the code does not do what it means to.

  \<^bold>\<open>Bounds and termination.\<close>  Every function is total, there is no fuel: the reachability search of the
  state machine has a measure (the unvisited statuses), loops over maps and messages are structural.
  A transaction on PostgreSQL is tried at most five times, and a backlog of expired offers needs one undisturbed sweep
  for every 200 of them (\<open>Backlog\<close>); what a sweep relies on (\<open>pg_sound\<close>, \<open>ledger_room\<close>: fewer than \<open>2^63\<close> ledger
  entries) holds after a migration and after every sweep.
  \<open>Argon2id\<close> and the other primitives are parameters; what the proofs need of them is a hypothesis of
  the theorem that needs it (a signature verifies, base64 decodes what it encoded, hashes of two
  different texts differ).

  \<^bold>\<open>Not modelled.\<close>  The texts of JSON bodies (a body is the value it stands for), the text of the state file other than
  the signed payloads in it,
  Unicode case folding (ASCII only), percent escapes in paths, the metrics page, logging set-up,
  timeouts, the listener for the metrics, and concurrency inside one transaction (the file
  store runs transactions one at a time under a lock; on PostgreSQL a transaction is one atomic step, which
  its locks and isolation level are there to make it).  Of the PostgreSQL server, the SQL texts of the schema
  migrations, the connection pool, locks and collations are not modelled; of the scopes of single requests, those of imports,
  sweeps and the list of trades are.
\<close>

section \<open>Money\<close>

text \<open>
  C1: Money is conserved: in every state that the server can reach, by any sequence of requests and
  delayed transactions, the balances of all accounts together with the prices of the trades in
  escrow are exactly the money ever minted, as unbounded integers.
\<close>
theorem money_conserved:
  assumes "reachable pr s"
  shows "total_balances s + total_escrow s = total_minted s"
  using reachable_sys [OF assms] by (simp add: sys_ok_def money_ok_def gap_def)

theorem money_conserved_witness:
  "\<exists>s. reachable demo_prims s \<and> total_minted s = 100 \<and> total_balances s + total_escrow s = total_minted s"
  using interesting_reachable money_conserved unfolding interesting_def by metis

text \<open>
  C2: No reachable state holds a negative balance or a balance that overflowed, and no colony has
  minted more than its cap, which never exceeds the platform maximum of 10^15.
\<close>
theorem balances_bounded:
  assumes "reachable pr s" and "map_of (st_colonies s) k = Some c"
  shows "0 \<le> c_minted_total c \<and> c_minted_total c \<le> EffectiveMintCap c \<and> EffectiveMintCap c \<le> DefaultMintCap
    \<and> (map_of (c_accounts c) u = Some a \<longrightarrow> 0 \<le> a_balance a \<and> a_balance a \<le> max_int64)"
proof -
  have "struct_ok pr s" using reachable_sys [OF assms(1)] by (simp add: sys_ok_def money_ok_def)
  from struct_lookup(1) [OF this assms(2)] show ?thesis
    by (auto simp: colony_ok_def EffectiveMintCap_def DefaultMintCap_def account_ok_def dest: gall_lookup)
qed

theorem balances_bounded_witness:
  "\<exists>s k c u a. reachable demo_prims s \<and> map_of (st_colonies s) k = Some c \<and> map_of (c_accounts c) u = Some a
    \<and> 0 \<le> a_balance a \<and> c_minted_total c \<le> EffectiveMintCap c"
proof -
  obtain s where s: "reachable demo_prims s" "interesting s" by (rule interesting_reachable)
  obtain k c u a where c: "map_of (st_colonies s) k = Some c" and a: "map_of (c_accounts c) u = Some a"
    by (rule interesting_account [OF s(2)])
  from balances_bounded [OF s(1) c, of u a] s c a show ?thesis by blast
qed

text \<open>
  C3: Ledgers are append-only: whatever requests are served, in any order, a colony stays with its
  identity and keys, its old ledger is a prefix of its new one, none of its accounts disappears and
  no envelope it has processed is forgotten.
\<close>
theorem ledgers_append_only:
  assumes "(step pr)\<^sup>*\<^sup>* s s'" and "map_of (st_colonies s) k = Some c"
  shows "\<exists>c'. map_of (st_colonies s') k = Some c' \<and> identity_of c' = identity_of c \<and> prefix (c_ledger c) (c_ledger c')
    \<and> gkeys (c_accounts c) \<subseteq> gkeys (c_accounts c')
    \<and> (\<forall>e. gget False (c_processed_envelopes c) e \<longrightarrow> gget False (c_processed_envelopes c') e)"
  using steps_progress [OF assms(1)] assms(2) unfolding progress_def gkept_def colony_progress_def by blast

theorem ledgers_append_only_witness:
  "\<exists>c'. map_of (st_colonies (serve demo_prims demo_ctx (ReqAcceptTrade ''buyer'' ''T'') (demo_state StatusOfferReceived 100))) ''B'' = Some c'
    \<and> prefix (c_ledger (demo_colony ''B'' [(''buyer'', demo_account ''buyer'' ''B'' 100)] 100)) (c_ledger c')
    \<and> length (c_ledger c') = 1"
proof -
  let ?s = "demo_state StatusOfferReceived 100"
  let ?s' = "serve demo_prims demo_ctx (ReqAcceptTrade ''buyer'' ''T'') ?s"
  have fresh: "fresh_ids demo_ctx ?s" by (rule demo_fresh)
  have run: "(step demo_prims)\<^sup>*\<^sup>* ?s ?s'" using step.request [OF fresh] by blast
  have c: "map_of (st_colonies ?s) ''B'' = Some (demo_colony ''B'' [(''buyer'', demo_account ''buyer'' ''B'' 100)] 100)"
    by (simp add: demo_state_def)
  have len: "case map_of (st_colonies ?s') ''B'' of None \<Rightarrow> False | Some c' \<Rightarrow> length (c_ledger c') = 1"
    by code_simp
  from ledgers_append_only [OF run c] len show ?thesis by auto
qed

text \<open>
  C4: A trade is never lost and its terms (asset, price, parties, dates) never change; its status
  only moves forward along the transition table, so a completed or refunded trade stays as it is for
  ever and no status is ever returned to.
\<close>
theorem trades_never_go_back:
  assumes "(step pr)\<^sup>*\<^sup>* s s'" and "map_of (st_trades s) k = Some t"
  shows "\<exists>t'. map_of (st_trades s') k = Some t' \<and> terms_of t' = terms_of t
    \<and> (t_status t' = t_status t \<or> Reachable (t_status t) (t_status t'))
    \<and> \<not> Reachable (t_status t') (t_status t)
    \<and> (TradeTransitions (t_status t) = [] \<longrightarrow> t_status t' = t_status t)"
proof -
  obtain t' where t': "map_of (st_trades s') k = Some t'" "trade_progress t t'"
    using steps_progress [OF assms(1)] assms(2) unfolding progress_def gkept_def by blast
  from t'(2) have path: "TransitionAllowed\<^sup>*\<^sup>* (t_status t) (t_status t')" and terms: "terms_of t' = terms_of t"
    by (simp_all add: trade_progress_def)
  from trade_path [OF path] terms t'(1) show ?thesis by auto
qed

theorem trades_never_go_back_witness:
  "\<exists>t'. map_of (st_trades (serve demo_prims demo_ctx (ReqAcceptTrade ''buyer'' ''T'') (demo_state StatusOfferReceived 100))) ''T'' = Some t'
    \<and> t_status t' = StatusAcceptancePendingExport \<and> Reachable StatusOfferReceived (t_status t')"
proof -
  let ?s = "demo_state StatusOfferReceived 100"
  let ?s' = "serve demo_prims demo_ctx (ReqAcceptTrade ''buyer'' ''T'') ?s"
  have run: "(step demo_prims)\<^sup>*\<^sup>* ?s ?s'" using step.request [OF demo_fresh] by blast
  have t: "map_of (st_trades ?s) ''T'' = Some (demo_trade StatusOfferReceived)" by (simp add: demo_state_def)
  have st: "case map_of (st_trades ?s') ''T'' of None \<Rightarrow> False | Some t' \<Rightarrow> t_status t' = StatusAcceptancePendingExport"
    by code_simp
  from trades_never_go_back [OF run t] st show ?thesis by (auto simp: demo_trade_def)
qed



text \<open>
  C6: Importing an acceptance that is applied finds the trade in escrow with the stated price and,
  when the acceptance was made after the offer's expiry, decides a refund and moves no money;
  otherwise it credits exactly the price to the seller's account and to no other, and the trade
  leaves escrow, so it can never be credited again.
\<close>
theorem acceptance_settles:
  assumes "importAcceptance pr cx draw source target env s = (Inr (tk, True), s')" and "sys_ok pr s"
    and "map_of (st_colonies s) target = Some c"
  shows "\<exists>payload t seller t'. decode_acceptance (e_payload env) = Some payload \<and> ap_trade_id payload = tk
    \<and> map_of (st_trades s) tk = Some t \<and> t_status t = StatusAcceptancePendingExport \<and> ap_debit_amount payload = t_price t
    \<and> map_of (st_users s) (t_seller_user_id t) = Some seller \<and> map_of (st_trades s') tk = Some t'
    \<and> (if acceptedAfterExpiry t (ap_accepted_at payload) = Inr True
       then same_balances s s' \<and> t_status t' = StatusRefundPendingExport
       else moves target (u_id seller) (t_price t) s s' \<and> t_status t' = StatusSettlementPendingExport)
    \<and> \<not> Reachable (t_status t') StatusAcceptancePendingExport"
proof -
  have no_return: "\<not> Reachable StatusRefundPendingExport StatusAcceptancePendingExport"
    "\<not> Reachable StatusSettlementPendingExport StatusAcceptancePendingExport" by code_simp+
  from importAcceptance_Inr [OF assms] obtain payload t seller where
    p: "decode_acceptance (e_payload env) = Some payload" "ap_trade_id payload = tk" "map_of (st_trades s) tk = Some t"
      "t_status t = StatusAcceptancePendingExport" "ap_debit_amount payload = t_price t"
      "map_of (st_users s) (t_seller_user_id t) = Some seller"
    and r: "if acceptedAfterExpiry t (ap_accepted_at payload) = Inr True
       then same_balances s s' \<and> (\<exists>t'. map_of (st_trades s') tk = Some t' \<and> t_status t' = StatusRefundPendingExport)
       else moves target (u_id seller) (t_price t) s s'
         \<and> (\<exists>t'. map_of (st_trades s') tk = Some t' \<and> t_status t' = StatusSettlementPendingExport)"
    by blast
  from r obtain t' where t': "map_of (st_trades s') tk = Some t'" by (auto split: if_splits)
  from p r t' no_return show ?thesis
    by (intro exI [of _ payload] exI [of _ t] exI [of _ seller] exI [of _ t']) (auto split: if_splits)
qed

theorem acceptance_settles_witness:
  "let s = demo_state StatusAcceptancePendingExport 60 in
   \<exists>s' s''. importAcceptance demo_prims demo_ctx 0 ''B'' ''A'' (demo_acceptance ''1970-01-02T00:00:00Z'') s = (Inr (''T'', True), s')
    \<and> importAcceptance demo_prims demo_ctx 0 ''B'' ''A'' (demo_acceptance ''1970-02-02T00:00:00Z'') s = (Inr (''T'', True), s'')
    \<and> (\<exists>t'. map_of (st_trades s') ''T'' = Some t') \<and> (\<exists>t'. map_of (st_trades s'') ''T'' = Some t')
    \<and> balance_at s' ''A'' ''seller'' = Some 40 \<and> balance_at s'' ''A'' ''seller'' = Some 0"
proof -
  let ?s = "demo_state StatusAcceptancePendingExport 60"
  let ?imp = "\<lambda>at. importAcceptance demo_prims demo_ctx 0 ''B'' ''A'' (demo_acceptance at) ?s"
  have "case ?imp ''1970-01-02T00:00:00Z'' of (Inl e, s') \<Rightarrow> False
      | (Inr r, s') \<Rightarrow> r = (''T'', True) \<and> balance_at s' ''A'' ''seller'' = Some 40" by code_simp
  then obtain s' where 1: "?imp ''1970-01-02T00:00:00Z'' = (Inr (''T'', True), s')" "balance_at s' ''A'' ''seller'' = Some 40"
    by (auto split: prod.splits sum.splits)
  have "case ?imp ''1970-02-02T00:00:00Z'' of (Inl e, s') \<Rightarrow> False
      | (Inr r, s') \<Rightarrow> r = (''T'', True) \<and> balance_at s' ''A'' ''seller'' = Some 0" by code_simp
  then obtain s'' where 2: "?imp ''1970-02-02T00:00:00Z'' = (Inr (''T'', True), s'')" "balance_at s'' ''A'' ''seller'' = Some 0"
    by (auto split: prod.splits sum.splits)
  have sys: "sys_ok demo_prims ?s" by (rule demo_sys) (simp_all add: IsEscrowed_def)
  have c: "map_of (st_colonies ?s) ''A'' = Some (demo_colony ''A'' [(''seller'', demo_account ''seller'' ''A'' 0)] 0)"
    by (simp add: demo_state_def)
  from acceptance_settles [OF 1(1) sys c] acceptance_settles [OF 2(1) sys c] 1 2 show ?thesis unfolding Let_def by blast
qed

text \<open>
  C7: Importing a refund that is applied pays exactly the price of the trade back to its buyer's
  account, touches no other account, and closes the trade for good.
\<close>
theorem refund_repays:
  assumes "importRefund pr cx source target env s = (Inr (tk, True), s')" and "sys_ok pr s"
  shows "\<exists>payload t t'. decode_refund (e_payload env) = Some payload \<and> rp_trade_id payload = tk
    \<and> map_of (st_trades s) tk = Some t \<and> t_status t = StatusRefundPendingExport \<and> rp_refund_amount payload = t_price t
    \<and> moves (t_buyer_colony_id t) (t_buyer_user_id t) (t_price t) s s'
    \<and> map_of (st_trades s') tk = Some t' \<and> t_status t' = StatusRefunded \<and> TradeTransitions (t_status t') = []"
proof -
  from importRefund_Inr [OF assms] obtain payload t t' where "decode_refund (e_payload env) = Some payload"
    "rp_trade_id payload = tk" "map_of (st_trades s) tk = Some t" "t_status t = StatusRefundPendingExport"
    "rp_refund_amount payload = t_price t" "moves (t_buyer_colony_id t) (t_buyer_user_id t) (t_price t) s s'"
    "map_of (st_trades s') tk = Some t'" "t_status t' = StatusRefunded" by blast
  then show ?thesis by (intro exI conjI) (assumption | simp)+
qed

theorem refund_repays_witness:
  "\<exists>s'. importRefund demo_prims demo_ctx ''A'' ''B'' demo_refund (demo_state StatusRefundPendingExport 60) = (Inr (''T'', True), s')
    \<and> moves ''B'' ''buyer'' 40 (demo_state StatusRefundPendingExport 60) s'"
proof -
  let ?s = "demo_state StatusRefundPendingExport 60"
  have "case importRefund demo_prims demo_ctx ''A'' ''B'' demo_refund ?s of (Inl e, s') \<Rightarrow> False
      | (Inr r, s') \<Rightarrow> r = (''T'', True)" by code_simp
  then obtain s' where run: "importRefund demo_prims demo_ctx ''A'' ''B'' demo_refund ?s = (Inr (''T'', True), s')"
    by (auto split: prod.splits sum.splits)
  have "sys_ok demo_prims ?s" by (rule demo_sys) (simp_all add: IsEscrowed_def)
  from refund_repays [OF run this] run show ?thesis by (auto simp: demo_state_def demo_trade_def)
qed

text \<open>
  C8: No other operation on trades touches a balance: creating, cancelling and exporting, the expiry
  sweep, and the import of any envelope that is neither an acceptance nor a refund leave every
  account as it was.
\<close>
theorem nothing_else_moves_money:
  "same_balances s (snd (CreateOffer pr cx tok req s)) \<and> same_balances s (snd (CancelTrade pr cx tok tk s))
   \<and> same_balances s (snd (ExportBundle pr cx tok c dest s)) \<and> same_balances s (snd (SweepExpired pr cx s))
   \<and> (importEnvelope pr cx draw source target env s = (Inr r, s') \<longrightarrow> e_type env \<noteq> ''acceptance'' \<longrightarrow> e_type env \<noteq> ''refund''
      \<longrightarrow> same_balances s s')"
  by (cases r) (auto simp: CreateOffer_same CancelTrade_same ExportBundle_same SweepExpired_same intro: importEnvelope_other)

theorem nothing_else_moves_money_witness:
  "\<exists>r s'. importEnvelope demo_prims demo_ctx 0 ''A'' ''B'' demo_settlement (demo_state StatusSettlementPendingExport 60) = (Inr r, s')
    \<and> same_balances (demo_state StatusSettlementPendingExport 60) s' \<and> snd r"
proof -
  let ?s = "demo_state StatusSettlementPendingExport 60"
  have "case importEnvelope demo_prims demo_ctx 0 ''A'' ''B'' demo_settlement ?s of (Inl e, s') \<Rightarrow> False
      | (Inr r, s') \<Rightarrow> snd r" by code_simp
  then obtain r s' where run: "importEnvelope demo_prims demo_ctx 0 ''A'' ''B'' demo_settlement ?s = (Inr r, s')" "snd r"
    by (auto split: prod.splits sum.splits)
  have "e_type demo_settlement = ''settlement''" by (simp add: demo_settlement_def new_envelope_def)
  with nothing_else_moves_money [of ?s demo_prims demo_ctx _ _ _ _ _ 0 "''A''" "''B''" demo_settlement r s'] run
  show ?thesis by auto
qed

text \<open>
  C9: A bundle counts once: after a successful import, and whatever else is served in between,
  importing the same bundle again imports nothing, skips every envelope, emits nothing and leaves
  all trades and balances alone.
\<close>
theorem bundle_once:
  assumes "ImportBundle pr cx tok col b s = (Inr r, s1)" and "(step pr)\<^sup>*\<^sup>* s1 s2"
    and "ImportBundle pr cx' tok' col b s2 = (Inr r', s3)"
  shows "ib_imported_count r' = 0 \<and> ib_skipped_duplicates r' = length (filter (\<lambda>m. m \<noteq> None) (b_messages b))
    \<and> ib_generated_outbox r' = 0 \<and> st_trades s3 = st_trades s2 \<and> same_balances s2 s3"
  using bundle_replay [OF assms(1) steps_progress [OF assms(2)] assms(3)] by (simp add: envelopes_def)

theorem bundle_once_witness:
  "let b = demo_bundle [Some (demo_acceptance ''1970-01-02T00:00:00Z'')] in
   \<exists>r s1 r' s3. ImportBundle demo_prims demo_ctx ''admin'' ''A'' b (demo_state StatusAcceptancePendingExport 60) = (Inr r, s1)
    \<and> ImportBundle demo_prims demo_ctx ''admin'' ''A'' b s1 = (Inr r', s3)
    \<and> ib_imported_count r = 1 \<and> ib_imported_count r' = 0 \<and> same_balances s1 s3"
proof -
  let ?b = "demo_bundle [Some (demo_acceptance ''1970-01-02T00:00:00Z'')]"
  let ?imp = "ImportBundle demo_prims demo_ctx ''admin'' ''A'' ?b"
  have "case ?imp (demo_state StatusAcceptancePendingExport 60) of (Inl e, s1) \<Rightarrow> False
      | (Inr r, s1) \<Rightarrow> ib_imported_count r = 1 \<and> (case ?imp s1 of (Inl e, s3) \<Rightarrow> False | (Inr r', s3) \<Rightarrow> True)" by code_simp
  then obtain r s1 r' s3 where run: "?imp (demo_state StatusAcceptancePendingExport 60) = (Inr r, s1)" "ib_imported_count r = 1"
    "?imp s1 = (Inr r', s3)" by (auto split: prod.splits sum.splits)
  from bundle_once [OF run(1) rtranclp.rtrancl_refl run(3)] run show ?thesis unfolding Let_def by blast
qed

text \<open>The integrity check that guards the migration to PostgreSQL accepts every state the file store can reach, so the migration never refuses a healthy system.\<close>
theorem integrity_reachable:
  assumes "reachable pr s"
  shows "VerifyStateIntegrity pr s = None"
  by (rule sys_intact) (rule reachable_sys [OF assms])

theorem integrity_reachable_witness:
  "\<exists>s. reachable demo_prims s \<and> length (st_users s) = 2 \<and> VerifyStateIntegrity demo_prims s = None"
proof -
  obtain s where s: "reachable demo_prims s" "interesting s" by (rule interesting_reachable)
  from s(2) have "length (map (\<lambda>(k, u). u_roles u) (st_users s)) = 2" unfolding interesting_def by simp
  with s(1) integrity_reachable [OF s(1)] show ?thesis by auto
qed

text \<open>
  C10: The integrity check accepts a state exactly when every colony's ledger is a contiguous hash
  chain of the recorded length, no account is negative, and balances plus escrow equal the minted
  supply modulo 2^64; the checks are made on int64 sums, so an error that is a multiple of 2^64 is
  the only one that passes.
\<close>
theorem integrity_exact:
  "VerifyStateIntegrity pr s = None \<longleftrightarrow>
   gall (\<lambda>k c. chain_ok pr 0 [] (c_ledger c) \<and> c_next_ledger_seq c = wrap64 (int (length (c_ledger c)))
     \<and> gall (\<lambda>u a. 0 \<le> a_balance a) (c_accounts c)) (st_colonies s) \<and>
   (total_balances s + total_escrow s) mod 2 ^ 64 = total_minted s mod 2 ^ 64"
  by (simp only: VerifyStateIntegrity_iff colony_intact_def)

section \<open>Administration\<close>

text \<open>
  C11: Under dual control no request changes a colony's supply or its policy except the decision of
  an approval: a mint or a policy change by an administrator alone only records a proposal.
\<close>
theorem dual_control:
  assumes "fresh_ids cx s" and "map_of (st_colonies s) k = Some c" and "c_require_dual_control c"
  shows "\<exists>c'. map_of (st_colonies (serve pr cx r s)) k = Some c'
    \<and> (decision r \<or> c_minted_total c' = c_minted_total c \<and> c_mint_cap c' = c_mint_cap c \<and> c_require_dual_control c')"
proof (cases "decision r")
  case True
  with serve_progress [OF assms(1), of pr r] assms(2) show ?thesis unfolding progress_def gkept_def by blast
next
  case False
  with serve_progress_other [OF assms(1) False, of True pr] assms(2,3) show ?thesis
    unfolding progress_def gkept_def colony_progress_def by blast
qed

theorem dual_control_witness:
  "\<exists>c'. map_of (st_colonies (serve demo_prims demo_ctx dual_mint (dual_state 0))) ''B'' = Some c'
    \<and> c_minted_total c' = 100 \<and> length (c_ledger c') = 1"
proof -
  have run: "case map_of (st_colonies (serve demo_prims demo_ctx dual_mint (dual_state 0))) ''B'' of
      None \<Rightarrow> False | Some c' \<Rightarrow> length (c_ledger c') = 1" by code_simp
  have c: "map_of (st_colonies (dual_state 0)) ''B'' =
      Some ((demo_colony ''B'' [(''buyer'', demo_account ''buyer'' ''B'' 0)] 100)\<lparr>c_require_dual_control := True\<rparr>)"
    by (simp add: dual_state_def demo_state_def)
  from dual_control [OF dual_fresh c, of demo_prims dual_mint] run show ?thesis
    by (auto simp: dual_mint_def demo_colony_def)
qed



text \<open>
  C13: The platform is never left without an administrator: once there is an active super admin
  there is one after any sequence of requests, because nobody can deactivate or demote themselves
  and only a super admin can act on a super admin.
\<close>
theorem admin_remains:
  assumes "(step pr)\<^sup>*\<^sup>* s s'" and "map_of (st_users s) k = Some u" and "u_active u" and "HasRole u ''super_admin''"
  shows "\<exists>k' u'. map_of (st_users s') k' = Some u' \<and> u_active u' \<and> HasRole u' ''super_admin''"
proof -
  have "has_admin s" using assms(2-4) by (auto simp: has_admin_def active_admin_def)
  from steps_admin [OF assms(1) this] show ?thesis by (simp add: has_admin_def active_admin_def)
qed

theorem admin_remains_witness:
  "\<exists>k' u'. map_of (st_users (serve demo_prims demo_ctx (ReqSetUserActive ''root2'' ''admin'' False) (dual_state 0))) k' = Some u'
    \<and> u_active u' \<and> HasRole u' ''super_admin''"
proof -
  have run: "(step demo_prims)\<^sup>*\<^sup>* (dual_state 0) (serve demo_prims demo_ctx (ReqSetUserActive ''root2'' ''admin'' False) (dual_state 0))"
    using step.request [OF dual_fresh] by blast
  have u: "map_of (st_users (dual_state 0)) ''admin'' = Some (demo_user ''admin'' [] [''super_admin''])"
    by (simp add: dual_state_def demo_state_def)
  show ?thesis by (rule admin_remains [OF run u]) (simp_all add: demo_user_def HasRole_def)
qed

text \<open>
  C14: In every reachable state a session is stored under its own token and no user has more than
  ten sessions, whichever of them pruning picks to evict.
\<close>
theorem sessions_bounded:
  assumes "reachable pr s"
  shows "length (filter (\<lambda>(k, x). s_user_id x = u) (st_sessions s)) \<le> 10
    \<and> gall (\<lambda>k x. s_token x = k) (st_sessions s)"
  using reachable_parts [OF assms]
  by (simp add: sessions_ok_def sessions_of_def MaxSessionsPerUser_def)

theorem sessions_bounded_witness:
  "\<exists>s. reachable demo_prims s \<and> length (st_sessions s) = 1
     \<and> length (filter (\<lambda>(k, x). s_user_id x = ''u'') (st_sessions s)) \<le> 10"
proof -
  obtain s where s: "reachable demo_prims s" "interesting s" by (rule interesting_reachable)
  from s sessions_bounded [OF s(1), of "''u''"] show ?thesis unfolding interesting_def by blast
qed

text \<open>
  C15: A request that fails, for whatever reason and however far its handler got, leaves the state
  exactly as it was; only a failed login or password change leaves a trace, the failure count and
  lock of one user.
\<close>
theorem failed_requests_harmless:
  assumes "answer pr cx r s = (Some e, s')"
  shows "if password_check r then counts_failure s s' else s' = s"
  by (rule answer_failure [OF assms])

theorem failed_requests_harmless_witness:
  "\<exists>e. answer demo_prims demo_ctx (ReqAcceptTrade ''buyer'' ''T'') (demo_state StatusOfferReceived 39)
     = (Some e, demo_state StatusOfferReceived 39)"
proof -
  let ?a = "answer demo_prims demo_ctx (ReqAcceptTrade ''buyer'' ''T'') (demo_state StatusOfferReceived 39)"
  have "case fst ?a of None \<Rightarrow> False | Some e \<Rightarrow> True" by code_simp
  then obtain e s' where a: "?a = (Some e, s')" by (cases ?a) (auto split: option.splits)
  from failed_requests_harmless [OF a] a show ?thesis by simp
qed

section \<open>Accounts\<close>

text \<open>
  C16: A login only succeeds for an active user who is not locked, with the password that matches
  the stored hash and, where MFA is on, with a code of a later time step than any used before; it
  clears the failure count, moves the time step forward so that the code cannot be replayed, and
  opens a session of the user for 24 hours.
\<close>
theorem login_checks:
  assumes "Login pr cx req s = (Inr r, s')" and "ids_ok s"
  shows "\<exists>u u' sess. findUserByUsername s (NormalizeUsername (lr_username req)) = Some u \<and> u_active u \<and> \<not> IsLocked cx u
    \<and> fst (VerifyPassword pr (lr_password req) (u_password_salt u) (u_password_hash u))
    \<and> (u_mfa_enabled u \<longrightarrow> VerifyTOTP pr cx (u_mfa_secret u) (lr_totp_code req) (u_mfa_last_step u) \<noteq> 0)
    \<and> map_of (st_users s') (u_id u) = Some u' \<and> u_failed_logins u' = 0 \<and> u_locked_until u' = []
    \<and> (u_mfa_enabled u \<longrightarrow> u_mfa_last_step u < u_mfa_last_step u') \<and> u_roles u' = u_roles u
    \<and> map_of (st_sessions s') (ar_token r) = Some sess \<and> s_user_id sess = u_id u
    \<and> s_expires_at sess = format_rfc3339 (wall_clock cx + 24 * hour)"
  using Login_Inr [OF assms] by (auto simp: SessionTTL_def steady_def)

theorem login_checks_witness:
  "\<exists>r s' u'. Login demo_prims demo_ctx (login_with ''secret'') (login_state 4) = (Inr r, s')
    \<and> map_of (st_users s') ''buyer'' = Some u' \<and> u_failed_logins u' = 0"
proof -
  have "case Login demo_prims demo_ctx (login_with ''secret'') (login_state 4) of (Inl e, s') \<Rightarrow> False
      | (Inr r, s') \<Rightarrow> True" by code_simp
  then obtain r s' where run: "Login demo_prims demo_ctx (login_with ''secret'') (login_state 4) = (Inr r, s')"
    by (auto split: prod.splits sum.splits)
  have "case findUserByUsername (login_state 4) (NormalizeUsername ''Buyer'') of None \<Rightarrow> False | Some u \<Rightarrow> u_id u = ''buyer''"
    by code_simp
  with login_checks [OF run login_state_ids] run show ?thesis
    by (auto simp: login_with_def split: option.splits)
qed

text \<open>
  C17: Lockout: the fifth wrong password in a row locks the user, and for the next fifteen minutes
  every login under that name fails, also with the right password, and changes nothing.
\<close>
theorem lockout:
  assumes "ids_ok s" and "findUserByUsername s (NormalizeUsername (lr_username req)) = Some u"
    and "u_active u" and "\<not> IsLocked cx u" and "u_failed_logins u = 4" and "NormalizeUsername (lr_username req) \<noteq> []"
    and "lr_password req \<noteq> []" and "length (lr_password req) \<le> MaxPasswordLen"
    and "\<not> fst (VerifyPassword pr (lr_password req) (u_password_salt u) (u_password_hash u))"
    and "save_error cx = None" and "four_digit_year (lock_clock cx + 15 * minute)"
    and "NormalizeUsername (lr_username req') = NormalizeUsername (lr_username req)"
    and "lock_clock cx' < (lock_clock cx + 15 * minute) div second * second"
  shows "\<exists>e. Login pr cx' req' (snd (Login pr cx req s)) = (Inl e, snd (Login pr cx req s))"
  using lockout_holds [of s req u cx pr req' cx'] assms by (simp add: LockoutDuration_def MaxFailedLogins_def)

theorem lockout_witness:
  "\<exists>e. Login demo_prims demo_ctx (login_with ''secret'') (snd (Login demo_prims demo_ctx (login_with ''guess'') (login_state 4)))
     = (Inl e, snd (Login demo_prims demo_ctx (login_with ''guess'') (login_state 4)))"
proof -
  have found: "case findUserByUsername (login_state 4) (NormalizeUsername ''Buyer'') of None \<Rightarrow> False
      | Some u \<Rightarrow> u_active u \<and> \<not> IsLocked demo_ctx u \<and> u_failed_logins u = 4
          \<and> \<not> fst (VerifyPassword demo_prims ''guess'' (u_password_salt u) (u_password_hash u))" by code_simp
  have name: "NormalizeUsername ''Buyer'' \<noteq> []" by code_simp
  have year: "four_digit_year (lock_clock demo_ctx + 15 * minute)" by code_simp
  have time: "lock_clock demo_ctx < (lock_clock demo_ctx + 15 * minute) div second * second" by code_simp
  from found obtain u where "findUserByUsername (login_state 4) (NormalizeUsername ''Buyer'') = Some u"
    "u_active u" "\<not> IsLocked demo_ctx u" "u_failed_logins u = 4"
    "\<not> fst (VerifyPassword demo_prims ''guess'' (u_password_salt u) (u_password_hash u))"
    by (auto split: option.splits)
  from lockout [OF login_state_ids, where req = "login_with ''guess''" and u = u and cx = demo_ctx and pr = demo_prims
      and req' = "login_with ''secret''" and cx' = demo_ctx]
    this name year time show ?thesis
    by (simp add: login_with_def MaxPasswordLen_def demo_ctx_def)
qed

text \<open>
  C18: A password reset needs the token whose hash is on record for an active user and has not
  expired; it sets the new password, logs every session of the user out, and the token is used up:
  it is refused from then on.
\<close>
theorem reset_once:
  assumes "CompleteReset pr cx tok pw s = (Inr r, s')"
  shows "\<exists>k h u u' nh. SplitResetToken pr tok = Some (k, h) \<and> map_of (st_users s) k = Some u \<and> valid_reset cx h (Some u)
    \<and> map_of (st_users s') k = Some u' \<and> HashPasswordArgon2id pr cx 0 pw = Inr nh \<and> u_password_hash u' = nh
    \<and> (\<forall>cx' t a. actorFromTokenNoMFA cx' s' t = Inr a \<longrightarrow> fst a \<noteq> k)
    \<and> (\<forall>cx' pw'. \<exists>e. CompleteReset pr cx' tok pw' s' = (Inl e, s'))"
proof -
  from assms obtain k h nh where split: "SplitResetToken pr tok = Some (k, h)"
    and hash: "HashPasswordArgon2id pr cx 0 pw = Inr nh" and commit: "CompleteReset_commit cx k h nh s = (Inr r, s')"
    by (auto simp: CompleteReset_def split: option.splits sum.splits if_splits)
  from CompleteReset_commit_Inr [OF commit] obtain u u' where u: "map_of (st_users s) k = Some u" "valid_reset cx h (Some u)"
    and u': "map_of (st_users s') k = Some u'" "u_password_hash u' = nh" "u_reset_token_hash u' = []"
    and gone: "\<forall>cx' t a. actorFromTokenNoMFA cx' s' t = Inr a \<longrightarrow> fst a \<noteq> k" by blast
  have "u_reset_token_hash u' \<noteq> h" using valid_reset_Some [OF u(2)] u'(3) by auto
  note reset_refused [OF split u'(1) this]
  with split hash u u' gone show ?thesis by blast
qed

theorem reset_once_witness:
  "\<exists>r s' e. CompleteReset demo_prims demo_ctx ''buyer.abc'' ''password'' (login_state 0) = (Inr r, s')
    \<and> CompleteReset demo_prims demo_ctx ''buyer.abc'' ''password'' s' = (Inl e, s')"
proof -
  have "case CompleteReset demo_prims demo_ctx ''buyer.abc'' ''password'' (login_state 0) of (Inl e, s') \<Rightarrow> False
      | (Inr r, s') \<Rightarrow> True" by code_simp
  then obtain r s' where run: "CompleteReset demo_prims demo_ctx ''buyer.abc'' ''password'' (login_state 0) = (Inr r, s')"
    by (auto split: prod.splits sum.splits)
  from reset_once [OF run] run show ?thesis by blast
qed

text \<open>A fresh reset token splits back into its user and exactly the hash that was stored for it, whatever characters the user ID has.\<close>
theorem reset_token_roundtrip:
  assumes "NewResetToken pr cx draw k = Inr (tok, h)" and "k \<noteq> []" and "rand_read cx draw 32 = Inr b" and "length b = 32"
  shows "SplitResetToken pr tok = Some (k, h)"
  by (rule SplitResetToken_fresh [OF assms])

theorem reset_token_roundtrip_witness:
  "\<exists>tok h. NewResetToken demo_prims demo_ctx 0 ''a.b'' = Inr (tok, h) \<and> SplitResetToken demo_prims tok = Some (''a.b'', h)"
proof -
  obtain tok h where n: "NewResetToken demo_prims demo_ctx 0 ''a.b'' = Inr (tok, h)"
    by (simp add: NewResetToken_def demo_ctx_def Let_def)
  have "SplitResetToken demo_prims tok = Some (''a.b'', h)"
    by (rule reset_token_roundtrip [OF n, where b = "replicate 32 (CHR ''z'')"]) (simp_all add: demo_ctx_def)
  with n show ?thesis by blast
qed

text \<open>
  C19: A password hash made by the server verifies under exactly the passwords that Argon2id maps to
  the same key, and is recognised as a current hash that needs no upgrade: the version and cost
  parameters survive being printed and parsed.
\<close>
theorem password_roundtrip:
  assumes "raw_b64_ok pr" and "HashPasswordArgon2id pr cx draw password = Inr phc" and "rand_read cx draw 16 = Inr salt"
    and "length (argon2_id_key pr password salt 2 (19 * 1024) 1 32) = 32"
  shows "VerifyPassword pr other any phc =
    (argon2_id_key pr other salt 2 (19 * 1024) 1 32 = argon2_id_key pr password salt 2 (19 * 1024) 1 32, False)"
  by (rule VerifyPassword_fresh [OF assms])

theorem password_roundtrip_witness:
  "\<exists>pr phc. raw_b64_ok pr \<and> HashPasswordArgon2id pr demo_ctx 0 ''pw'' = Inr phc \<and> VerifyPassword pr ''pw'' [] phc = (True, False)
    \<and> VerifyPassword pr ''px'' [] phc = (False, False)"
proof -
  let ?pr = "demo_prims\<lparr>raw_b64_encode := hex_encode, raw_b64_decode := \<lambda>t. Inr (SOME s. hex_encode s = t)\<rparr>"
  have dec: "(SOME s. hex_encode s = hex_encode t) = t" for t
    by (rule some_equality) (auto dest: hex_encode_inject)
  have ok: "raw_b64_ok ?pr" using hex_no_dollar by (simp add: raw_b64_ok_def dec)
  obtain phc where h: "HashPasswordArgon2id ?pr demo_ctx 0 ''pw'' = Inr phc"
    by (simp add: HashPasswordArgon2id_def demo_ctx_def Let_def)
  have salt: "rand_read demo_ctx 0 16 = Inr (replicate 16 (CHR ''z''))" by (simp add: demo_ctx_def)
  let ?key = "\<lambda>pw. argon2_id_key demo_prims pw (replicate 16 (CHR ''z'')) 2 (19 * 1024) 1 32"
  have keys: "length (?key ''pw'') = 32" "?key ''px'' \<noteq> ?key ''pw''" by code_simp+
  have same: "argon2_id_key ?pr = argon2_id_key demo_prims" by simp
  note r = password_roundtrip [OF ok h salt, unfolded same, OF keys(1)]
  have "VerifyPassword ?pr ''pw'' [] phc = (True, False)" by (simp only: r simp_thms)
  moreover have "VerifyPassword ?pr ''px'' [] phc = (False, False)" using keys(2) by (simp only: r)
  ultimately have "VerifyPassword ?pr ''pw'' [] phc = (True, False)" "VerifyPassword ?pr ''px'' [] phc = (False, False)" .
  with ok h show ?thesis by blast
qed

text \<open>A one-time code is accepted only for a time step that is later than the last one used, at most one step away from the server's clock, and whose code it is; so a code cannot be used twice.\<close>
theorem codes_move_forward:
  assumes "VerifyTOTP pr cx secret c lastStep \<noteq> 0"
  shows "lastStep < VerifyTOTP pr cx secret c lastStep \<and> \<bar>VerifyTOTP pr cx secret c lastStep - totp_now cx\<bar> \<le> 1
    \<and> TotpAt pr secret (VerifyTOTP pr cx secret c lastStep) = Inr (trim_space c)"
  by (rule VerifyTOTP_nonzero [OF refl assms])

theorem codes_move_forward_witness:
  "VerifyTOTP demo_prims (demo_ctx\<lparr>lock_clock := 3000 * second\<rparr>) ''KEY'' ''000000'' 99 = 100
   \<and> TotpAt demo_prims ''KEY'' 100 = Inr (trim_space ''000000'')"
proof -
  let ?v = "VerifyTOTP demo_prims (demo_ctx\<lparr>lock_clock := 3000 * second\<rparr>) ''KEY'' ''000000'' 99"
  have v: "?v = 100" by code_simp
  with codes_move_forward [of demo_prims "demo_ctx\<lparr>lock_clock := 3000 * second\<rparr>" "''KEY''" "''000000''" 99] show ?thesis by simp
qed

section \<open>The state machine of a trade\<close>

text \<open>
  C20: The breadth-first search \<open>Reachable\<close> terminates and decides the transitive
  closure of the transition table.
\<close>
theorem reachable_is_closure: "Reachable a b = (\<lambda>x y. y \<in> set (TradeTransitions x))\<^sup>+\<^sup>+ a b"
  by (simp add: Reachable_iff can_step_eq)

text \<open>An envelope's step on a trade is applied exactly when the trade is at the expected status and the transition is legal, skipped as a duplicate when the trade is past it or on another branch, and refused as out of order when the expected status is still ahead; only the first changes the trade, and only its status.\<close>

theorem steps_classified:
  "(StepTrade t pred to = Inr (True, t') \<longleftrightarrow>
      t_status t = pred \<and> TransitionAllowed pred to \<and> t' = t\<lparr>t_status := to\<rparr>) \<and>
   (StepTrade t pred to = Inr (False, t') \<longleftrightarrow> t_status t \<noteq> pred \<and> \<not> Reachable (t_status t) pred \<and> t' = t) \<and>
   ((\<exists>e. StepTrade t pred to = Inl e) \<longleftrightarrow>
      Reachable (t_status t) pred \<or> (t_status t = pred \<and> \<not> TransitionAllowed pred to))"
  by (auto simp: StepTrade_def ClassifyStep_def AdvanceTrade_def)

text \<open>Checked addition of two int64 values is exact addition and fails exactly when the sum does not fit in an int64; its own range tests never overflow.\<close>

theorem addition_checked:
  assumes "in_int64 a" and "in_int64 b"
  shows "AddChecked a b = (if in_int64 (a + b) then Inr (a + b) else bad (Conflict ''amount overflow''))"
  by (rule AddChecked_exact [OF assms])

theorem addition_checked_witness:
  "AddChecked max_int64 1 = bad (Conflict ''amount overflow'') \<and> AddChecked min_int64 max_int64 = Inr (- 1)"
  using addition_checked [of max_int64 1] addition_checked [of min_int64 max_int64]
  by (simp add: in_int64_def min_int64_def max_int64_def)

text \<open>
  C21: No expired offer stays open: a sweep of a reachable state never fails unless the file cannot
  be written, whatever the other trades are; it returns the number of unaccepted offers past their
  expiry, closes every one of them and leaves all other trades as they were.
\<close>
theorem sweep_closes:
  assumes "reachable pr s" and "save_error cx = None"
  shows "\<exists>s'. SweepExpired pr cx s = (Inr (length (filter (\<lambda>(k, t). due cx t) (st_trades s))), s') \<and>
    (\<forall>k t. map_of (st_trades s) k = Some t \<longrightarrow>
       map_of (st_trades s') k = Some (if due cx t then t\<lparr>t_status := StatusExpired\<rparr> else t) \<and>
       \<not> due cx (if due cx t then t\<lparr>t_status := StatusExpired\<rparr> else t))"
proof -
  have "gmap_ok (st_trades s)"
    using reachable_sys [OF assms(1)] by (simp add: sys_ok_def money_ok_def struct_ok_def)
  from SweepExpired_result [OF this assms(2)] obtain s' where
    "SweepExpired pr cx s = (Inr (length (filter (\<lambda>(k, t). due cx t) (st_trades s))), s')"
    "\<And>k. map_of (st_trades s') k = map_option (expired_by cx) (map_of (st_trades s) k)" by blast
  then show ?thesis by (auto simp: expired_by_def due_def)
qed

theorem sweep_closes_witness:
  "\<exists>s s'. reachable demo_prims s \<and> SweepExpired demo_prims late_ctx s = (Inr 1, s')"
proof -
  obtain s where s: "reachable demo_prims s" "map (\<lambda>(k, t). due late_ctx t) (st_trades s) = [True]"
    by (rule due_offer_reachable)
  have "save_error late_ctx = None" by (simp add: late_ctx_def demo_ctx_def)
  from sweep_closes [OF s(1) this] obtain s' where
    r: "SweepExpired demo_prims late_ctx s = (Inr (length (filter (\<lambda>(k, t). due late_ctx t) (st_trades s))), s')" by blast
  from s(2) have "length (filter (\<lambda>(k, t). due late_ctx t) (st_trades s)) = 1" by (cases "st_trades s") auto
  with s(1) r show ?thesis by auto
qed

text \<open>The time to live of an offer is always between one minute and ninety days, and for requested seconds whose product fits in an int64 it is accepted exactly when the request is; the default is seven days.\<close>
theorem offer_ttl_bounds:
  assumes "\<bar>co_ttl_seconds req\<bar> \<le> 9223372036"
  shows "(offer_ttl req = Inr ttl \<longrightarrow> 60 * second \<le> ttl \<and> ttl \<le> 90 * 24 * hour) \<and>
    (co_ttl_seconds req = 0 \<longrightarrow> offer_ttl req = Inr (7 * 24 * hour)) \<and>
    (co_ttl_seconds req \<noteq> 0 \<longrightarrow> offer_ttl req = (if 60 \<le> co_ttl_seconds req \<and> co_ttl_seconds req \<le> 7776000
       then Inr (co_ttl_seconds req * second) else bad (BadRequest ''ttl_seconds must be between 60 and 7776000'')))"
proof (intro conjI impI)
  show "offer_ttl req = Inr ttl \<Longrightarrow> 60 * second \<le> ttl" "offer_ttl req = Inr ttl \<Longrightarrow> ttl \<le> 90 * 24 * hour"
    using offer_ttl_range [of req ttl] by (simp_all add: MinOfferTTL_def MaxOfferTTL_def)
  show "co_ttl_seconds req = 0 \<Longrightarrow> offer_ttl req = Inr (7 * 24 * hour)"
    by (simp add: offer_ttl_def DefaultOfferTTL_def)
  show "co_ttl_seconds req \<noteq> 0 \<Longrightarrow> offer_ttl req = (if 60 \<le> co_ttl_seconds req \<and> co_ttl_seconds req \<le> 7776000
       then Inr (co_ttl_seconds req * second) else bad (BadRequest ''ttl_seconds must be between 60 and 7776000''))"
    by (rule offer_ttl_exact [OF _ assms])
qed

theorem offer_ttl_bounds_witness:
  "offer_ttl \<lparr>co_seller_user_id = [], co_buyer_user_id = [], co_asset = [], co_price = 1, co_ttl_seconds = 60\<rparr> = Inr (60 * second)"
  using offer_ttl_bounds [of "\<lparr>co_seller_user_id = [], co_buyer_user_id = [], co_asset = [], co_price = 1, co_ttl_seconds = 60\<rparr>"]
  by simp

section \<open>Ledgers, messages and files\<close>

text \<open>
  C22: The head hash of a ledger commits to its whole history: two ledgers of the same length that
  both pass the chain check and have the same head hash are entry by entry the same, unless SHA-256
  collides on one of their entries (no field before the payload containing a bar, which none the
  program writes does).
\<close>
theorem tamper_evident:
  assumes "ledger_ok pr c" and "ledger_ok pr c'" and "c_last_ledger_hash c = c_last_ledger_hash c'"
    and "length (c_ledger c) = length (c_ledger c')" and "no_collision pr (c_ledger c) (c_ledger c')"
    and "list_all no_bar (c_ledger c)" and "list_all no_bar (c_ledger c')"
  shows "map entry_text (c_ledger c) = map entry_text (c_ledger c')"
  using chain_tamper_evident [of pr "c_ledger c" "c_ledger c'"] assms by (simp add: ledger_ok_def)

theorem tamper_evident_witness:
  "let c = appendLedger demo_prims demo_ctx ''t'' ''u'' (JInt 1) (demo_colony ''A'' [] 0) in
   map entry_text (c_ledger c) = map entry_text (c_ledger (c\<lparr>c_name := ''B''\<rparr>)) \<and> c_ledger c \<noteq> []"
proof -
  define c where "c = appendLedger demo_prims demo_ctx ''t'' ''u'' (JInt 1) (demo_colony ''A'' [] 0)"
  have ok: "ledger_ok demo_prims c" by (simp add: c_def demo_colony_def zero_colony_def)
  then have ok': "ledger_ok demo_prims (c\<lparr>c_name := ''B''\<rparr>)" by (simp add: ledger_ok_def)
  have one: "length (c_ledger c) = 1" by (simp add: c_def appendLedger_def demo_colony_def zero_colony_def Let_def)
  then have nc: "no_collision demo_prims (c_ledger c) (c_ledger (c\<lparr>c_name := ''B''\<rparr>))"
    by (auto simp: no_collision_def length_Suc_conv)
  have bars: "list_all (\<lambda>e. CHR ''|'' \<notin> set (le_colony_id e @ le_time e @ le_type e @ le_actor_user_id e @ le_prev_hash e))
      (c_ledger (appendLedger demo_prims demo_ctx ''t'' ''u'' (JInt 1) (demo_colony ''A'' [] 0)))" by code_simp
  then have "list_all no_bar (c_ledger c)" by (simp add: c_def list_all_iff no_bar_def)
  with tamper_evident [OF ok ok' _ _ nc] one show ?thesis unfolding c_def [symmetric] Let_def by auto
qed

text \<open>
  C23: An envelope signed by a colony verifies under that colony's public key after the signature
  has been stored in it, for every key pair for which Ed25519 and base64 do what they document.
\<close>
theorem envelopes_verify:
  assumes "keypair_ok pr (c_public_key c) (c_private_key c)" and "SignEnvelope pr c env = Inr sig"
  shows "verifyEnvelope pr c (env\<lparr>e_colony_signature := sig\<rparr>) = None"
  by (rule verify_signed_envelope [OF assms])

theorem envelopes_verify_witness:
  "\<exists>sig. SignEnvelope demo_prims (demo_colony ''A'' [] 0) demo_refund = Inr sig
    \<and> verifyEnvelope demo_prims (demo_colony ''A'' [] 0) (demo_refund\<lparr>e_colony_signature := sig\<rparr>) = None"
proof -
  have keys: "keypair_ok demo_prims (c_public_key (demo_colony ''A'' [] 0)) (c_private_key (demo_colony ''A'' [] 0))"
    by (simp add: keypair_ok_def demo_prims_def demo_colony_def demo_pub_def demo_key_def)
  have sig: "SignEnvelope demo_prims (demo_colony ''A'' [] 0) demo_refund = Inr ''s''"
    by (simp add: SignEnvelope_def SignWithPrivateKey_def demo_prims_def demo_colony_def demo_key_def)
  from envelopes_verify [OF keys sig] sig show ?thesis by blast
qed

text \<open>Every payload that one colony puts into an envelope is read back unchanged by the other: encoding and decoding of offers, acceptances, settlements, cancellations and refunds are inverse for all int64 amounts.\<close>
theorem payload_roundtrips:
  "(in_int64 (op_price o1) \<longrightarrow> decode_offer (Some (encode_offer o1)) = Some o1) \<and>
   (in_int64 (ap_debit_amount a1) \<longrightarrow> decode_acceptance (Some (encode_acceptance a1)) = Some a1) \<and>
   (in_int64 (sp_credit_amount s1) \<longrightarrow> decode_settlement (Some (encode_settlement s1)) = Some s1) \<and>
   decode_cancel (Some (encode_cancel c1)) = Some c1 \<and>
   (in_int64 (rp_refund_amount r1) \<longrightarrow> decode_refund (Some (encode_refund r1)) = Some r1)"
  by (simp add: decode_encode_offer decode_encode_acceptance decode_encode_settlement decode_encode_cancel
      decode_encode_refund)

theorem payload_roundtrips_witness:
  "decode_settlement (Some (encode_settlement \<lparr>sp_trade_id = ''T'', sp_seller_user_id = ''u'', sp_seller_colony_id = ''A'',
     sp_credit_amount = - 1, sp_accepted_from_colony = ''B'', sp_settled_at = []\<rparr>)) =
   Some \<lparr>sp_trade_id = ''T'', sp_seller_user_id = ''u'', sp_seller_colony_id = ''A'',
     sp_credit_amount = - 1, sp_accepted_from_colony = ''B'', sp_settled_at = []\<rparr>"
  using payload_roundtrips [where ?s1.0 = "\<lparr>sp_trade_id = ''T'', sp_seller_user_id = ''u'', sp_seller_colony_id = ''A'',
     sp_credit_amount = - 1, sp_accepted_from_colony = ''B'', sp_settled_at = []\<rparr>"]
  by (simp add: in_int64_def min_int64_def max_int64_def)

text \<open>An expiry that the server writes and reads back means what it meant: for every instant from 1970 up to the year 10000, formatting and parsing gives the instant rounded down to the second, so an offer that expires at \<open>t\<close> has expired exactly after that second.\<close>

theorem time_roundtrip:
  assumes "0 \<le> t" and "t < 253402300800 * second" and "t_expires_at tr = format_rfc3339 t"
  shows "isExpired tr at \<longleftrightarrow> at > t div second * second"
proof -
  have "format_rfc3339 t \<noteq> []" by (simp add: format_rfc3339_def)
  with assms(3) parse_format_rfc3339 [OF four_digit_year_range [OF assms(1,2)]] show ?thesis
    by (simp add: isExpired_def)
qed

theorem time_roundtrip_witness:
  "isExpired (zero_trade\<lparr>t_expires_at := format_rfc3339 (951868799 * second + 5)\<rparr>) (951868799 * second + 1)"
  using time_roundtrip [of "951868799 * second + 5" "zero_trade\<lparr>t_expires_at := format_rfc3339 (951868799 * second + 5)\<rparr>"
      "951868799 * second + 1"] by (simp add: second_def)

text \<open>The repairs made when a state file is loaded (the minted total and the ledger head of files from older versions) are idempotent: a file that was loaded and saved again loads as it is.\<close>

theorem load_idempotent: "LoadStateFile (LoadStateFile s) = LoadStateFile s"
  by (rule LoadStateFile_idempotent)

section \<open>What a client sees\<close>



text \<open>What a user learns about somebody of another colony is the name, the colony and whether the account is active: roles, creation time and MFA status are shown only to super admins, to the user and within the colony, and no view ever depends on a password hash, a key or an MFA secret.\<close>

theorem users_private:
  assumes "\<not> HasRole actor ''super_admin''" and "u_id actor \<noteq> u_id u" and "u_colony_id actor \<noteq> u_colony_id u"
    and "u_id u' = u_id u" and "u_username u' = u_username u" and "u_display_name u' = u_display_name u"
    and "u_colony_id u' = u_colony_id u" and "u_active u' = u_active u"
  shows "userViewFor actor u' = userViewFor actor u \<and> uv_roles (userViewFor actor u) = [] \<and> \<not> uv_mfa_enabled (userViewFor actor u)"
  using assms by (simp add: userViewFor_def)

theorem users_private_witness:
  "uv_roles (userViewFor (demo_user ''buyer'' ''B'' [''trader'']) (demo_user ''admin'' [] [''super_admin''])) = []"
  using users_private [of "demo_user ''buyer'' ''B'' [''trader'']" "demo_user ''admin'' [] [''super_admin'']" "demo_user ''admin'' [] []"]
  by (simp add: demo_user_def HasRole_def)

text \<open>
  C25: A page of a ledger is the last entries before the requested sequence number, in order and
  without gaps, as many as the limit asks for (1000 at most, 200 by default), and only a super admin
  or a member of the colony gets one: the binary search finds the same place as counting would.
\<close>
theorem ledger_pages:
  assumes "reachable pr s" and "map_of (st_colonies s) k = Some c" and "length (c_ledger c) < 2 ^ 63 - 1"
    and "ListLedgerPage pr cx tok k limit before s = Inr page"
  shows "(let e = (if before > 0 then min (nat before - 1) (length (c_ledger c)) else length (c_ledger c));
              n = nat (min (if limit \<le> 0 then 200 else limit) 1000)
          in page = take n (drop (e - n) (take e (c_ledger c))))
    \<and> (\<exists>ak actor. actorFromToken pr cx s tok = Inr (ak, actor) \<and> (HasRole actor ''super_admin'' \<or> u_colony_id actor = k))"
proof -
  have "struct_ok pr s" using reachable_sys [OF assms(1)] by (simp add: sys_ok_def money_ok_def)
  from struct_lookup(1) [OF this assms(2)] have "chain_ok pr 0 [] (c_ledger c)" by (simp add: colony_ok_def ledger_ok_def)
  note slice = ledger_page_slice [OF this assms(3)]
  have lim: "ledger_limit limit = min (if limit \<le> 0 then 200 else limit) 1000"
    by (auto simp: ledger_limit_def DefaultLedgerLimit_def MaxLedgerLimit_def Let_def)
  from assms(4) obtain ak actor where a: "actorFromToken pr cx s tok = Inr (ak, actor)"
      "HasRole actor ''super_admin'' \<or> u_colony_id actor = k"
    and p: "page = ledger_page (c_ledger c) (ledger_limit limit) before"
    using assms(2) by (auto simp: ListLedgerPage_def StoreReadScoped_def split: sum.splits if_splits)
  from a p show ?thesis by (simp add: slice lim)
qed

theorem ledger_pages_witness:
  "\<exists>s k c page. reachable demo_prims s \<and> map_of (st_colonies s) k = Some c
    \<and> ListLedgerPage demo_prims demo_ctx admin_token k 2 3 s = Inr page \<and> page = take 2 (c_ledger c)"
proof -
  obtain s where s: "reachable demo_prims s" "interesting s" by (rule interesting_reachable)
  obtain k c u a where c: "map_of (st_colonies s) k = Some c" and "map_of (c_accounts c) u = Some a"
    by (rule interesting_account [OF s(2)])
  from s(2) c have len: "length (c_ledger c) = 3" by (rule interesting_ledger)
  from s(2) have "\<exists>page. ListLedgerPage demo_prims demo_ctx admin_token k 2 3 s = Inr page"
    unfolding interesting_def using c by (auto simp: ListLedgerPage_def StoreReadScoped_def split: sum.splits)
  then obtain page where page: "ListLedgerPage demo_prims demo_ctx admin_token k 2 3 s = Inr page" by blast
  from ledger_pages [OF s(1) c _ page] len have "page = take 2 (c_ledger c)" by simp
  with s(1) c page show ?thesis by blast
qed

text \<open>Whatever roles a request asks for, the roles a user gets are a sorted list without duplicates of exactly the known roles among them, up to letter case and surrounding space.\<close>
theorem roles_normalised:
  "sorted (NormalizeRoles rs) \<and> distinct (NormalizeRoles rs) \<and>
   set (NormalizeRoles rs) = {r'. valid_role r' \<and> (\<exists>r \<in> set rs. r' = trim_space (to_lower r))}"
  using collect_roles_distinct [of "[]" rs] by (simp add: NormalizeRoles_set) (simp add: NormalizeRoles_def)

section \<open>The HTTP interface\<close>

text \<open>
  C26: The HTTP server refines the state machine: whatever sequence of HTTP requests (well-formed or
  not, panicking handlers included) and expiry sweeps a server has served since it started empty,
  its state is one the requests of the service can reach, so everything proved of reachable states
  holds of it; no request is left in flight.
\<close>
theorem http_refines:
  assumes "http_reachable pr sv"
  shows "reachable pr (sv_state sv) \<and> VerifyStateIntegrity pr (sv_state sv) = None \<and> m_inflight (sv_metrics sv) = 0"
  using http_reachable_sound [OF assms] http_reachable_idle [OF assms] by (blast intro: sys_intact reachable_sys)

theorem http_refines_witness:
  "\<exists>sv. http_reachable demo_prims sv \<and> length (st_users (sv_state sv)) = 1 \<and> reachable demo_prims (sv_state sv)"
proof -
  let ?sv = "after_exch (demo_serve (bootstrap_post ''boot'') (demo_server (newEmptyState demo_ctx)))"
  have h: "http_reachable demo_prims ?sv" by (rule bootstrapped_reachable)
  have "length (st_users (sv_state ?sv)) = 1"
    using bootstrap_post_served by (simp add: Let_def after_exch_def)
  with h http_refines [OF h] show ?thesis by blast
qed

text \<open>
  C27: Only a proper POST changes anything: when an HTTP request changes the state, its method is
  POST, its declared length is within the limit of its path, and it is not a cross-site forgery,
  that is, a request that carries the session cookie and no Authorization header comes with the
  Origin of the server itself or of an allowed site.
\<close>
theorem http_guarded:
  assumes "x_state (ServeHTTP a cx rnd dur r sv) \<noteq> sv_state sv"
  shows "rq_method r = ''POST'' \<and> rq_content_length r \<le> body_limit r \<and>
    (header r ''Authorization'' \<noteq> [] \<or> rq_session_cookie r = None \<or> rq_session_cookie r = Some [] \<or> sameOrigin a r)"
  using ServeHTTP_guard [OF assms] by (auto simp: oversized_def forged_def isMutating_def)

theorem http_guarded_witness:
  "\<exists>r sv. x_state (demo_serve r sv) \<noteq> sv_state sv \<and> rq_content_length r \<le> body_limit r"
proof -
  let ?r = "bootstrap_post ''boot''" and ?sv = "demo_server (newEmptyState demo_ctx)"
  have "length (st_users (x_state (demo_serve ?r ?sv))) = 1" using bootstrap_post_served by (simp add: Let_def)
  then have "x_state (demo_serve ?r ?sv) \<noteq> sv_state ?sv" by (auto simp: demo_server_def newEmptyState_def)
  with http_guarded [of demo_api _ demo_rnd _ ?r ?sv] show ?thesis unfolding demo_serve_def by blast
qed

text \<open>
  C28: Nobody gets in before the operator: as long as a server has no users, no HTTP request creates
  one unless it presents the configured bootstrap token, and when none is configured no request
  creates one at all.
\<close>
theorem first_admin:
  assumes "st_users (sv_state sv) = []" and "a_bootstrap_token a = [] \<or> header r ''X-Bootstrap-Token'' \<noteq> a_bootstrap_token a"
  shows "st_users (x_state (ServeHTTP a cx rnd dur r sv)) = []"
  by (rule ServeHTTP_no_users) (use assms in \<open>auto simp: bootstrapAllowed_def\<close>)

theorem first_admin_witness:
  "st_users (x_state (demo_serve (bootstrap_post ''guess'') (demo_server (newEmptyState demo_ctx)))) = []
   \<and> st_users (x_state (demo_serve (bootstrap_post ''boot'') (demo_server (newEmptyState demo_ctx)))) \<noteq> []"
proof
  show "st_users (x_state (demo_serve (bootstrap_post ''guess'') (demo_server (newEmptyState demo_ctx)))) = []"
    unfolding demo_serve_def
    by (rule first_admin) (simp_all add: demo_server_def newEmptyState_def demo_api_def WithBootstrapToken_def
        bootstrap_post_def demo_post_def header_def gget_def)
  show "st_users (x_state (demo_serve (bootstrap_post ''boot'') (demo_server (newEmptyState demo_ctx)))) \<noteq> []"
    using bootstrap_post_served by (auto simp: Let_def)
qed

text \<open>
  C29: Every request is answered, and every mutating API request ends in the audit trail, also when
  it is refused by a middleware, matches no route or its handler panics: the trail is only extended,
  and its last event then is an http.mutation event with the status the client got, the outcome that
  status means, and the ids and address of this request.
\<close>
theorem mutations_audited:
  "x_status (ServeHTTP a cx rnd dur r sv) \<noteq> 0 \<and>
   (\<exists>evs uid. x_log (ServeHTTP a cx rnd dur r sv) = sv_log sv @ evs @
     (if isMutating (rq_method r) \<and> has_prefix (rq_path r) ''/api/''
      then [mutation_event (newReqInfo (a_lib a) rnd r) uid r (ServeHTTP a cx rnd dur r sv)] else []))"
  using ServeHTTP_log(1,2) [of a cx rnd dur r sv] unfolding audited_def by blast

section \<open>PostgreSQL\<close>

text \<open>
  C30: A write to PostgreSQL is an overwriting: when it succeeds, the callback succeeded on the part
  of the database that was loaded, and the database, seen as maps and append-only lists, is what it
  was (less the sessions it pruned) overwritten by the users, trades, actions and sessions the
  callback left and, for the colonies it owns, by their headers and balances, with their new ledger
  entries, envelopes and processed ids appended, loaded envelopes that are gone deleted, and stored
  bundles kept; that only rows that were not loaded are inserted and only rows that changed are
  updated is not noticed.
\<close>
theorem pg_writes_exactly:
  assumes "pg_StoreUpdateScoped cx interrupt sc fn d = (Inr out, d')" and "db_ok d"
    and "maps_ok (snd (fn (fst (load cx sc True d))))"
  shows "\<exists>st'. fn (fst (load cx sc True d)) = (Inr out, st') \<and>
    contents d' = overwrite st' (fst (snd (load cx sc True d))) (contents (prune_expired cx sc True d))"
  by (rule pg_write_exact [OF assms])

theorem pg_writes_exactly_witness:
  "\<exists>d' st'. pg_StoreUpdateScoped week_ctx never sweep_scope sweep_all_trades demo_db = (Inr 1, d')
    \<and> contents d' = overwrite st' (fst (snd (load week_ctx sweep_scope True demo_db))) (contents demo_db)
    \<and> length (ct_ledger (contents d')) = 1"
proof -
  obtain d' where d': "pg_StoreUpdateScoped week_ctx never sweep_scope sweep_all_trades demo_db = (Inr 1, d')"
    "length (db_ledger d') = 1"
    using sweep_write by (auto split: prod.splits sum.splits)
  have "maps_ok (snd (sweep_all_trades (fst (load week_ctx sweep_scope True demo_db))))"
    unfolding sweep_all_trades_def by (rule sweep_maps_ok [OF loaded_steps(2) [OF demo_db(3)]])
  from pg_writes_exactly [OF d'(1) demo_db(3) this] d' show ?thesis
    by (auto simp: prune_expired_def sweep_scope_def zero_scope_def contents_def)
qed

text \<open>
  C31: The primary keys are the last line of defence against a replay: a write whose callback marks
  as processed an envelope that the colony has already processed, but that the scope did not ask for
  and the callback so could not see, or that gives a new ledger entry the number of one that is
  stored, fails as a whole and leaves the database as it was.
\<close>
theorem pg_replay_aborts:
  assumes "db_ok d" and "fn (fst (load cx sc True d)) = (Inr out, st')" and "maps_ok st'"
    and "replays st' (fst (snd (load cx sc True d))) d i"
  shows "\<exists>err. pg_StoreUpdateScoped cx interrupt sc fn d = (Inl err, d)"
  by (rule replay_aborts [where fn = fn, OF assms])

theorem pg_replay_aborts_witness:
  "\<exists>err. pg_StoreUpdateScoped week_ctx never colony_scope process_again replayed_db = (Inl err, replayed_db)"
  by (rule pg_replay_aborts [where fn = process_again, OF replayed_db _ replayed_maps replayed_again])
    (simp add: process_again_def)

text \<open>
  C32: Whatever a callback does to the state it is given, a write keeps what the schema promises:
  keys, user names and colony names are unique, balances are not negative, accounts, ledger entries,
  envelopes and processed ids belong to colonies (and accounts to users) that exist; and no ledger
  entry and no processed id that was stored is changed or removed.
\<close>
theorem pg_keeps_constraints:
  assumes "db_ok d"
  shows "db_ok (snd (pg_StoreUpdateScoped cx interrupt sc fn d)) \<and> grown d (snd (pg_StoreUpdateScoped cx interrupt sc fn d))"
  by (rule pg_constraints [OF assms])

theorem pg_keeps_constraints_witness:
  "\<exists>d'. pg_StoreUpdateScoped week_ctx never sweep_scope sweep_all_trades demo_db = (Inr 1, d') \<and> db_ok d'
    \<and> length (db_ledger d') = 1"
proof -
  obtain d' where d': "pg_StoreUpdateScoped week_ctx never sweep_scope sweep_all_trades demo_db = (Inr 1, d')"
    "length (db_ledger d') = 1"
    using sweep_write by (auto split: prod.splits sum.splits)
  with pg_keeps_constraints [OF demo_db(3), of week_ctx never sweep_scope sweep_all_trades] show ?thesis by auto
qed



text \<open>
  C34: Moving a state from the file store to an empty PostgreSQL database loses nothing: loading
  everything from the database gives the same users, trades, pending actions and sessions, and
  colonies with the same identity, keys, totals, accounts, outbox and processed envelopes; the
  ledger table holds exactly the entries of each ledger in order, the bundle table the bundles.
\<close>
theorem migration_lossless:
  assumes "ImportState pr cx interrupt st empty_db = Inr d" and "named_ok st"
  shows "(let st' = fst (load cx zero_scope True d) in
      map_of (st_users st') = map_of (st_users st) \<and> map_of (st_trades st') = map_of (st_trades st) \<and>
      map_of (st_pending_actions st') = map_of (st_pending_actions st) \<and> map_of (st_sessions st') = map_of (st_sessions st) \<and>
      (\<forall>i. rel_option same_colony (map_of (st_colonies st') i) (map_of (st_colonies st) i))) \<and>
    (\<forall>i c. map_of (st_colonies st) i = Some c \<longrightarrow> map snd [e \<leftarrow> db_ledger d. fst (fst e) = i] = c_ledger c) \<and>
    map_of (db_bundles d) = map_of (st_bundles st)"
  using migration_roundtrip [OF assms] by (simp add: Let_def comp_def)

theorem migration_lossless_witness:
  "map_of (st_trades (fst (load demo_ctx zero_scope True demo_db))) = map_of (st_trades demo_file)
   \<and> map_of (db_bundles demo_db) = map_of (st_bundles demo_file) \<and> VerifyStateIntegrity demo_prims demo_file = None"
  using migration_lossless [OF demo_db(1) demo_file_named] migrated(2) [OF demo_db(1)] demo_file_named
  by (simp add: Let_def named_ok_def)

text \<open>
  C35: The sweep of expired offers does the same on both backends: when the trades table holds the
  trades of a state and at most 200 offers are due, and the clock shows whole microseconds, a
  successful sweep of PostgreSQL, which asks an index for the due offers, loads only them and writes
  only what changed, returns the number that a sweep of the file store returns and leaves the same
  trades.
\<close>
theorem backends_sweep_alike:
  assumes "db_ok d" and "columns_ok d" and "[] \<notin> gkeys (db_trades d)"
    and "length (filter (\<lambda>(k, r). due cx (tr_doc r)) (db_trades d)) \<le> 200"
    and "gmap_ok (st_trades s)" and "map_of (st_trades s) = ct_trades (contents d)" and "save_error cx = None"
    and "1000 dvd now cx" and "pg_SweepExpired pr cx query i1 i2 d = (Inr n, d')"
  shows "\<exists>s'. SweepExpired pr cx s = (Inr n, s') \<and> map_of (st_trades s') = ct_trades (contents d')"
  by (rule backends_sweep [OF assms])

theorem backends_sweep_alike_witness:
  "\<exists>d' s'. pg_SweepExpired demo_prims week_ctx None never never demo_db = (Inr 1, d')
    \<and> SweepExpired demo_prims week_ctx demo_file = (Inr 1, s') \<and> map_of (st_trades s') = ct_trades (contents d')"
proof -
  obtain d' where d': "pg_SweepExpired demo_prims week_ctx None never never demo_db = (Inr 1, d')"
    using sweep_whole by (auto split: prod.splits sum.splits)
  have ok: "maps_ok demo_file" using demo_file_named by (simp add: named_ok_def)
  have t: "map_of (st_trades demo_file) = ct_trades (contents demo_db)" using migrated_tables(2) [OF demo_db(1) ok] by simp
  have one: "length (db_trades demo_db) = 1" and named: "[] \<notin> gkeys (db_trades demo_db)" using demo_trades by auto
  have few: "length (filter (\<lambda>(k, r). due week_ctx (tr_doc r)) (db_trades demo_db)) \<le> 200"
    by (rule order_trans [OF length_filter_le]) (simp add: one)
  have "gmap_ok (st_trades demo_file)" using ok by (simp add: maps_ok_def)
  moreover have "save_error week_ctx = None" by (simp add: week_ctx_def demo_ctx_def)
  moreover have "1000 dvd now week_ctx" by code_simp
  ultimately show ?thesis using backends_sweep_alike [OF demo_db(3,2) named few _ t _ _ d'] d' by blast
qed

text \<open>
  C36: The expiry ticker works off every backlog on PostgreSQL: whatever happens to the other ticks,
  as soon as one tick for every 200 offers that were due at some time is left alone (its connection
  fails at most four times in a row, with serialization errors), none of those offers is open any
  more. A tick that is left alone cannot fail, since the numbers of new ledger entries are free, and
  it takes the offers that have been due longest first.
\<close>
theorem backlog_drains:
  assumes "pg_sound d" and "ledger_room d" and "1000 dvd t0" and "\<And>tk. tk \<in> set tks \<Longrightarrow> t0 \<le> now (tk_ctx tk)"
    and "card (backlog t0 d) \<le> 200 * length (filter undisturbed tks)"
  shows "pg_sound (pg_ticker pr tks d) \<and> backlog t0 (pg_ticker pr tks d) = {}"
proof -
  have "card (backlog t0 (pg_ticker pr tks d)) = 0"
    using ticker_drains [OF assms(1-4), of tks pr] assms(5) by simp
  then show ?thesis using ticker_drains [OF assms(1-4), of tks pr] finite_backlog by simp
qed

theorem backlog_drains_witness:
  "backlog (8 * 24 * hour) demo_db = {''T''} \<and> backlog (8 * 24 * hour) (pg_ticker demo_prims [week_tick] demo_db) = {}"
proof -
  have "1000 dvd (8 * 24 * hour :: int)" by code_simp
  moreover have "card (backlog (8 * 24 * hour) demo_db) \<le> 200 * length (filter undisturbed [week_tick])"
    unfolding demo_backlog by (simp add: week_tick)
  ultimately have "backlog (8 * 24 * hour) (pg_ticker demo_prims [week_tick] demo_db) = {}"
    using backlog_drains [OF demo_sound, of "8 * 24 * hour" "[week_tick]" demo_prims]
    by (simp del: pg_ticker.simps add: week_tick(2))
  with demo_backlog show ?thesis by simp
qed

text \<open>
  C37: Both backends show a user the same trades: when the database represents a state and the user
  may see at most 500 trades, a successful list from PostgreSQL, which derives from the token alone
  which trades, users and colonies to load, is the list that the file store gives, with the same
  names in the same order.
\<close>
theorem backends_list_alike:
  assumes "represents d s" and "pg_ListTrades pr cx interrupt token d = Inr vs"
    and "\<And>ak actor. actorFromToken pr cx s token = Inr (ak, actor) \<Longrightarrow>
      length (filter (\<lambda>(k, t). tradeVisibleToActor t actor) (st_trades s)) \<le> 500"
  shows "ListTrades pr cx token s = Inr vs"
  by (rule lists_alike [OF assms])

theorem backends_list_alike_witness:
  "\<exists>vs. pg_ListTrades demo_prims demo_ctx never ''buyer'' demo_db = Inr vs \<and> ListTrades demo_prims demo_ctx ''buyer'' demo_file = Inr vs
    \<and> map tv_buyer_colony_name vs = [''B'']"
proof -
  obtain vs where vs: "pg_ListTrades demo_prims demo_ctx never ''buyer'' demo_db = Inr vs"
    "map (\<lambda>v. (tv_id v, tv_seller_name v, tv_buyer_colony_name v)) vs = [(''T'', ''seller'', ''B'')]"
    using demo_lists by (auto split: sum.splits)
  have "length (filter (\<lambda>(k, t). tradeVisibleToActor t actor) (st_trades demo_file)) \<le> 500" for actor
    by (rule order_trans [OF length_filter_le]) (simp add: demo_file_def demo_state_def)
  from backends_list_alike [OF demo_represents vs(1) this] vs show ?thesis by auto
qed

section \<open>The server process\<close>

text \<open>
  C38: A server that starts on an empty system is never open to the first visitor and never locked
  for the operator: whatever its flags and environment, and on either backend, it has a bootstrap
  token, the configured one if there is one; and on the file store no HTTP request that does not
  present this token creates a user.
\<close>
theorem starts_gated:
  assumes "main pr lib cx w = Serving a be" and "system_empty w be"
    and "\<And>b. rand_read cx 0 24 = Inr b \<Longrightarrow> length b = 24" and "\<And>b. length b = 24 \<Longrightarrow> raw_b64url_encode pr b \<noteq> []"
  shows "a_bootstrap_token a \<noteq> []
    \<and> (\<forall>fs. parse_flags (w_args w) (flag_defaults (w_env w)) = Inr fs \<and> str_flag ''bootstrap-token'' fs \<noteq> [] \<longrightarrow>
        a_bootstrap_token a = str_flag ''bootstrap-token'' fs)
    \<and> (\<forall>path s sv cx' rnd dur r. be = FileBackend path s \<and> sv_state sv = s \<and>
        header r ''X-Bootstrap-Token'' \<noteq> a_bootstrap_token a \<longrightarrow> st_users (x_state (ServeHTTP a cx' rnd dur r sv)) = [])"
proof -
  from main_Serving [OF assms(1)] obtain fs where fs: "parse_flags (w_args w) (flag_defaults (w_env w)) = Inr fs"
    and g: "gate_token pr cx (str_flag ''bootstrap-token'' fs) (Inr True) = Inr (a_bootstrap_token a)"
    by (auto simp: system_empty_needs [OF assms(2)])
  have tok: "a_bootstrap_token a \<noteq> []"
    and cfg: "str_flag ''bootstrap-token'' fs \<noteq> [] \<longrightarrow> a_bootstrap_token a = str_flag ''bootstrap-token'' fs"
    using g assms(3,4) by (auto simp: gate_token_def RandomBase64URL_def split: if_splits sum.splits)
  moreover have "st_users (x_state (ServeHTTP a cx' rnd dur r sv)) = []"
    if "be = FileBackend path s" "sv_state sv = s" "header r ''X-Bootstrap-Token'' \<noteq> a_bootstrap_token a" for path s sv cx' rnd dur r
    by (rule ServeHTTP_no_users) (use that assms(2) in \<open>auto simp: bootstrapAllowed_def system_empty_def\<close>)
  ultimately show ?thesis using fs by auto
qed

theorem starts_gated_witness:
  "\<exists>a p s. main demo_prims demo_lib demo_ctx (demo_world []) = Serving a (FileBackend p s)
    \<and> a_bootstrap_token a \<noteq> [] \<and> st_users (x_state (ServeHTTP a (ctx_of (CHR ''a'')) demo_rnd 7000000 (bootstrap_post ''guess'') (demo_server s))) = []"
proof -
  obtain a p s where m: "main demo_prims demo_lib demo_ctx (demo_world []) = Serving a (FileBackend p s)"
    and t: "a_bootstrap_token a = replicate 24 (CHR ''z'')"
    using demo_start_without_token by (auto split: outcome.splits backend.splits)
  have "st_users s = [] \<and> st_counts s = None"
    using main_file [OF m] by (auto simp: NewStore_def demo_world_def demo_ctx_def newEmptyState_def)
  then have e: "system_empty (demo_world []) (FileBackend p s)" by (simp add: system_empty_def)
  have h: "header (bootstrap_post ''guess'') ''X-Bootstrap-Token'' \<noteq> a_bootstrap_token a"
    by (simp add: t bootstrap_post_def demo_post_def header_def gget_def numeral_eq_Suc)
  have laws: "rand_read demo_ctx 0 24 = Inr b \<Longrightarrow> length b = 24" "length b = 24 \<Longrightarrow> raw_b64url_encode demo_prims b \<noteq> []" for b
    by (auto simp: demo_ctx_def demo_prims_def)
  from starts_gated [OF m e laws] h have "a_bootstrap_token a \<noteq> []"
    "st_users (x_state (ServeHTTP a (ctx_of (CHR ''a'')) demo_rnd 7000000 (bootstrap_post ''guess'') (demo_server s))) = []"
    by (simp_all add: demo_server_def)
  with m show ?thesis by blast
qed

text \<open>
  C39: Hashes stay valid across the state file: the file indents the payloads of ledger entries and
  envelopes along with everything else, which changes the bytes of any object that has members, and
  loading the file restores exactly the bytes that were hashed and signed, at any depth of nesting
  and whatever the strings contain, so an entry hashes to the same value as before.
\<close>
theorem payload_bytes_survive:
  assumes "numbers_ok j"
  shows "normalizeRawPayload (json_indent n j) = json_text j
    \<and> HashLedgerEntry pr q c t ty a (Some j) prev = hex_encode (sha256 pr (show_int q @ ''|'' @ c @ ''|'' @ t @ ''|'' @ ty @ ''|'' @
        a @ ''|'' @ prev @ ''|'' @ normalizeRawPayload (json_indent n j)))
    \<and> (\<forall>m ms. j = JObj (m # ms) \<longrightarrow> json_indent n j \<noteq> json_text j)"
  using payload_bytes [OF assms, of n] indent_changes by (auto simp: HashLedgerEntry_def raw_text_def)

theorem payload_bytes_survive_witness:
  "normalizeRawPayload (json_indent 3 (JObj [(''a b'', JArr [JStr [CHR 0x22, CHR '' ''], JInt (- 5)]), (''c'', JObj [])])) =
     json_text (JObj [(''a b'', JArr [JStr [CHR 0x22, CHR '' ''], JInt (- 5)]), (''c'', JObj [])])"
  using payload_bytes_survive [of "JObj [(''a b'', JArr [JStr [CHR 0x22, CHR '' ''], JInt (- 5)]), (''c'', JObj [])]" 3] by simp



text \<open>
  The schema is upgraded exactly once: a start that succeeds has executed the scripts that were missing, in the order of their names, and no other, and starting again executes nothing; a start that fails has executed a first part of them, and the next one that succeeds ends where an undisturbed start would have ended.
\<close>

theorem schema_upgrades:
  assumes "migrate srv files sch = (r, sch1)" and "versioned files" and "migrate srv' files sch1 = (None, sch2)"
  shows "executed sch2 = executed sch @ pending (sort files) sch
    \<and> prefix (executed sch) (executed sch1) \<and> prefix (executed sch1) (executed sch2)
    \<and> (r = None \<longrightarrow> sch1 = sch2) \<and> pending (sort files) sch2 = []
    \<and> (\<forall>srv'' r' sch3. migrate srv'' files sch2 = (r', sch3) \<longrightarrow> executed sch3 = executed sch2)"
proof -
  note p = migrate_prefix [OF assms(1,2)] and q = migrate_prefix [OF assms(3,2)]
  have s2: "sch2 = upgraded (sort files) sch" using q(4) p(1) by simp
  have "executed sch3 = executed sch2" if "migrate srv'' files sch2 = (r', sch3)" for srv'' r' sch3
  proof -
    have "upgraded (sort files) sch2 = sch2" by (metis p(1) q(1,4) s2)
    with migrate_prefix(2,3) [OF that assms(2)] show ?thesis by (simp add: prefix_order.eq_iff)
  qed
  then show ?thesis
    using p q s2 pending_upgraded [OF assms(2)] by (auto simp: upgraded_def)
qed

theorem schema_upgrades_witness:
  "executed (snd (migrate (w_server (demo_world []) []) [''002_more.sql'', ''001_init.sql''] \<lparr>applied = [1], executed = []\<rparr>)) = [''002_more.sql'']"
proof -
  let ?srv = "w_server (demo_world []) []" and ?files = "[''002_more.sql'', ''001_init.sql'']"
  have "case migrate ?srv ?files \<lparr>applied = [1], executed = []\<rparr> of (r, sch1) \<Rightarrow>
    (case migrate ?srv ?files sch1 of (r', sch2) \<Rightarrow> r = None \<and> r' = None)" by code_simp
  then obtain sch1 sch2 where m: "migrate ?srv ?files \<lparr>applied = [1], executed = []\<rparr> = (None, sch1)"
    "migrate ?srv ?files sch1 = (None, sch2)" by (auto split: prod.splits)
  have "versioned ?files" "pending (sort ?files) \<lparr>applied = [1], executed = []\<rparr> = [''002_more.sql'']" by code_simp+
  with schema_upgrades [OF m(1) _ m(2)] m(1) show ?thesis by simp
qed

end
